(* ===== verification/Prelude.thy ===== *)
theory Prelude
  imports Main "HOL-Library.Sublist" "HOL-Library.State_Monad"
begin

section \<open>Shared vocabulary of the development\<close>

text \<open>
  The prelude holds what every component uses: the Go \<open>error\<close> values the driver builds and
  inspects, results and nil-able pointers, generic facts about first-error scans, lists and
  state-passing programs, and the transition systems with their invariant rule.  Go strings are
  byte sequences and are modelled as \<^typ>\<open>string\<close>; a nil-able pointer is an \<open>option\<close>; a Go
  \<open>map[string]string\<close> is a partial function, and reading an absent key gives the empty string
  (\<open>lookup\<close> below).
\<close>

named_theorems go_simps \<open>unfolding rules for the small Go helpers\<close>
named_theorems run_simps \<open>one-step evaluation of the state-passing operations\<close>

subsection \<open>Errors\<close>

text \<open>
  \<open>cmd_error\<close> is the error of one executed command: its text (\<open>err.Error()\<close>), the status that
  \<open>errors.As\<close> finds when the chain holds an \<open>ExitCode() int\<close> method, and whether
  \<open>errors.Is(err, cmd.ErrCmdTimeout)\<close> holds.  \<open>os_error\<close> separates the two classes the code asks
  for (\<open>os.IsExist\<close>, \<open>os.IsNotExist\<close>), \<open>api_error\<close> the two classes of Kubernetes API errors
  it asks for (\<open>IsNotFound\<close>, \<open>IsAlreadyExists\<close>).
\<close>

record cmd_error =
  ce_text :: string
  ce_exit :: "int option"
  ce_timeout :: bool

datatype os_error = OsExist | OsNotExist | OsOther string

datatype api_error = ApiNotFound | ApiAlreadyExists | ApiOther string

datatype grpc_code =
    Unknown | InvalidArgument | NotFound | AlreadyExists | FailedPrecondition
  | Aborted | Internal | Unavailable | Unimplemented | Canceled | DeadlineExceeded

text \<open>
  A Go \<open>error\<close>.  \<open>Errorf f args cause\<close> is \<open>fmt.Errorf\<close> with the source's format string, its
  string arguments and the error it carries, \<open>Errorf2\<close> the one of \<open>lvm.go\<close> that carries two; \<open>Status c e\<close> is \<open>status.Error(c, e.Error())\<close> or
  \<open>status.Errorf(c, \<dots>)\<close>.  The text itself is never rendered: the driver inspects the text of
  command errors only, and those keep it.
\<close>

datatype goerr =
    CmdErr cmd_error
  | OsErr os_error
  | ApiErr api_error
  | StrconvErr string
  | JsonErr string
  | Errorf string "string list" "goerr option"
  | Errorf2 string "string list" goerr goerr
  | Status grpc_code goerr

abbreviation msg :: "string \<Rightarrow> goerr" where
  "msg f \<equiv> Errorf f [] None"

text \<open>\<open>status.Code(err)\<close> and \<open>k8serror.IsNotFound(err)\<close> on the errors above.\<close>

fun status_code :: "goerr \<Rightarrow> grpc_code" where
  "status_code (Status c e) = c"
| "status_code e = Unknown"

fun is_not_found :: "goerr \<Rightarrow> bool" where
  "is_not_found (ApiErr ApiNotFound) = True"
| "is_not_found e = False"

text \<open>
  A call that returns \<open>(value, error)\<close> and whose value is meaningless on error is a sum; a call
  that returns only an error is an option (\<open>None\<close> is \<open>nil\<close>); a call whose output accompanies the
  error too is a pair.
\<close>

type_synonym 'a res = "goerr + 'a"
type_synonym check = "goerr option"
type_synonym outerr = "string \<times> goerr option"
type_synonym strmap = "string \<rightharpoonup> string"

definition lookup :: "strmap \<Rightarrow> string \<Rightarrow> string" where
  "lookup m k = (case m k of None \<Rightarrow> '''' | Some v \<Rightarrow> v)"

lemma lookup_simps [simp]:
  "lookup (m(k \<mapsto> v)) k = v"
  "k \<noteq> k' \<Longrightarrow> lookup (m(k' \<mapsto> v)) k = lookup m k"
  "lookup Map.empty k = ''''"
  by (simp_all add: lookup_def)

lemma lookup_nonempty_iff: "lookup m k \<noteq> '''' \<longleftrightarrow> (\<exists>v. m k = Some v \<and> v \<noteq> '''')"
  by (auto simp: lookup_def split: option.splits)

subsection \<open>Scanning a list for the first error\<close>

text \<open>
  Validation loops return at the first element that is wrong.  \<open>first_error f xs\<close> is such a loop.
\<close>

fun first_error :: "('a \<Rightarrow> check) \<Rightarrow> 'a list \<Rightarrow> check" where
  "first_error f [] = None"
| "first_error f (x # xs) = (case f x of None \<Rightarrow> first_error f xs | Some e \<Rightarrow> Some e)"

lemma first_error_None_iff [simp]: "first_error f xs = None \<longleftrightarrow> (\<forall>x \<in> set xs. f x = None)"
  by (induction xs) (auto split: option.splits)

lemma first_error_Some:
  "first_error f xs = Some e \<Longrightarrow>
     \<exists>ys x zs. xs = ys @ x # zs \<and> (\<forall>y \<in> set ys. f y = None) \<and> f x = Some e"
proof (induction xs)
  case Nil
  then show ?case by simp
next
  case (Cons x xs)
  show ?case
  proof (cases "f x")
    case None
    with Cons obtain ys z zs where
      "xs = ys @ z # zs" "\<forall>y \<in> set ys. f y = None" "f z = Some e" by auto
    with None have "x # xs = (x # ys) @ z # zs \<and> (\<forall>y \<in> set (x # ys). f y = None) \<and> f z = Some e"
      by simp
    then show ?thesis by blast
  next
    case (Some e')
    with Cons.prems have "x # xs = [] @ x # xs \<and> (\<forall>y \<in> set []. f y = None) \<and> f x = Some e"
      by simp
    then show ?thesis by blast
  qed
qed

subsection \<open>Contracts of validators\<close>

text \<open>
  A validator decides a property of its input: it returns no error exactly on the good inputs.
  Each validation function of the driver is an instance; the lemmas here are what its callers use.
\<close>

locale validator =
  fixes check :: "'a \<Rightarrow> check"
    and good :: "'a \<Rightarrow> bool"
  assumes check_iff: "check x = None \<longleftrightarrow> good x"
begin

lemma rejects: "\<not> good x \<Longrightarrow> \<exists>e. check x = Some e"
  using check_iff [of x] by (cases "check x") auto

lemma accepts: "good x \<Longrightarrow> check x = None"
  by (simp add: check_iff)

lemma all_good: "first_error check xs = None \<longleftrightarrow> (\<forall>x \<in> set xs. good x)"
  by (simp add: check_iff)

lemma stops_at_first_bad:
  assumes "\<forall>y \<in> set ys. good y" and "\<not> good x"
  shows "first_error check (ys @ x # zs) = check x"
  using assms rejects [of x] by (induction ys) (auto simp: accepts)

end

subsection \<open>Lists\<close>

lemma find_append:
  "find P (xs @ ys) = (case find P xs of None \<Rightarrow> find P ys | Some x \<Rightarrow> Some x)"
  by (induction xs) auto

lemma find_Some_set: "find P xs = Some x \<Longrightarrow> x \<in> set xs \<and> P x"
  by (induction xs) (auto split: if_splits)

lemma find_map_Some_iff:
  "(\<exists>x. find P xs = Some x) \<longleftrightarrow> (\<exists>x \<in> set xs. P x)"
  by (induction xs) auto

lemma length_filter_mono:
  assumes "\<And>x. x \<in> set xs \<Longrightarrow> P x \<Longrightarrow> Q x"
  shows "length (filter P xs) \<le> length (filter Q xs)"
  using assms by (induction xs) (auto intro: le_SucI)

lemma nth_middle_unique:
  assumes "list_all (\<lambda>e. \<not> P e) xs" and "list_all (\<lambda>e. \<not> P e) ys"
    and "i < length (xs @ x # ys)" and "P ((xs @ x # ys) ! i)"
  shows "i = length xs"
proof (rule ccontr)
  assume ne: "i \<noteq> length xs"
  show False
  proof (cases "i < length xs")
    case True
    then show False using assms(1,4) by (simp add: nth_append list_all_length)
  next
    case False
    define j where "j = i - Suc (length xs)"
    have "i = Suc (length xs + j)" and "j < length ys" using False ne assms(3) by (auto simp: j_def)
    then show False using assms(2,4) by (simp add: nth_append list_all_length)
  qed
qed

subsection \<open>Transition systems and invariants\<close>

text \<open>
  \<open>reach init step s\<close>: the state \<open>s\<close> is reachable from an initial state.  An \<open>invariant_of\<close> a
  step relation holds initially and is kept by every step; it then holds in every reachable state.
\<close>

inductive reach :: "('s \<Rightarrow> bool) \<Rightarrow> ('s \<Rightarrow> 's \<Rightarrow> bool) \<Rightarrow> 's \<Rightarrow> bool"
  for init :: "'s \<Rightarrow> bool" and step :: "'s \<Rightarrow> 's \<Rightarrow> bool" where
  reach_init: "init s \<Longrightarrow> reach init step s"
| reach_step: "reach init step s \<Longrightarrow> step s t \<Longrightarrow> reach init step t"

locale invariant_of =
  fixes init :: "'s \<Rightarrow> bool"
    and step :: "'s \<Rightarrow> 's \<Rightarrow> bool"
    and I :: "'s \<Rightarrow> bool"
  assumes I_init: "init s \<Longrightarrow> I s"
    and I_step: "step s t \<Longrightarrow> I s \<Longrightarrow> I t"
begin

lemma reachable_I: "reach init step s \<Longrightarrow> I s"
  by (induction rule: reach.induct) (auto intro: I_init I_step)

lemma steps_I: "step\<^sup>*\<^sup>* s t \<Longrightarrow> I s \<Longrightarrow> I t"
  by (induction rule: rtranclp_induct) (auto intro: I_step)

end

text \<open>
  A system in which every step lowers a rank and every state that is not final has a step: it runs into a
  final state, in a number of steps that the rank bounds, whatever steps it takes.
\<close>

locale progressing = invariant_of +
  fixes final :: "'a \<Rightarrow> bool" and rank :: "'a \<Rightarrow> nat"
  assumes rank_step: "step s t \<Longrightarrow> I s \<Longrightarrow> rank t < rank s"
    and progress: "I s \<Longrightarrow> \<not> final s \<Longrightarrow> \<exists>t. step s t"
begin

lemma reaches_final: "I s \<Longrightarrow> \<exists>t. step\<^sup>*\<^sup>* s t \<and> final t"
proof (induction "rank s" arbitrary: s rule: less_induct)
  case less
  show ?case
  proof (cases "final s")
    case False
    then obtain t where t: "step s t" using progress less.prems by blast
    then obtain u where "step\<^sup>*\<^sup>* t u" "final u" using less.hyps [OF rank_step [OF t less.prems]] I_step [OF t less.prems] by blast
    then show ?thesis using t by (meson converse_rtranclp_into_rtranclp)
  qed auto
qed

lemma runs_bounded: "(step ^^ n) s t \<Longrightarrow> I s \<Longrightarrow> n + rank t \<le> rank s"
proof (induction n arbitrary: t)
  case (Suc n)
  then obtain u where u: "(step ^^ n) s u" "step u t" by auto
  then have "n + rank u \<le> rank s" "I u" using Suc steps_I [of s u] by (auto dest: relpowp_imp_rtranclp)
  then show ?case using rank_step [OF u(2)] by simp
qed simp

end

subsection \<open>State-passing programs\<close>

text \<open>
  Operations with effects are programs of the library's state monad.  \<open>keeps P m\<close>: running \<open>m\<close>
  from any state relates the start and end states by \<open>P\<close>; the rules follow the program's shape.
\<close>

definition keeps :: "('s \<Rightarrow> 's \<Rightarrow> bool) \<Rightarrow> ('s, 'a) state \<Rightarrow> bool" where
  "keeps P m \<longleftrightarrow> (\<forall>s. P s (snd (run_state m s)))"

lemma keepsD: "keeps P m \<Longrightarrow> run_state m s = (a, t) \<Longrightarrow> P s t"
  by (metis keeps_def snd_conv)

lemma keepsD': "keeps P m \<Longrightarrow> P s (snd (run_state m s))"
  by (simp add: keeps_def)

lemma keeps_return: "reflp P \<Longrightarrow> keeps P (State_Monad.return x)"
  by (simp add: keeps_def reflpD)

lemma keeps_bind:
  assumes "transp P" and "keeps P m" and "\<And>a. keeps P (f a)"
  shows "keeps P (m \<bind> f)"
  unfolding keeps_def
proof
  fix s
  obtain a t where m: "run_state m s = (a, t)" by force
  have "P s t" using assms(2) m by (rule keepsD)
  moreover have "P t (snd (run_state (f a) t))" using assms(3) by (rule keepsD')
  ultimately show "P s (snd (run_state (m \<bind> f) s))"
    using assms(1) m by (auto dest: transpD)
qed

lemma run_bind_eq:
  "run_state m s = (a, t) \<Longrightarrow> run_state (m \<bind> f) s = run_state (f a) t"
  by simp

text \<open>
  \<open>wp m Q s\<close>: running \<open>m\<close> from \<open>s\<close> ends with a result and a state that satisfy \<open>Q\<close>.  The rules in
  \<open>wp_intro\<close> follow the program's shape; a component adds one rule per operation.
\<close>

named_theorems wp_intro \<open>one rule per construct and operation\<close>

definition wp :: "('s, 'a) state \<Rightarrow> ('a \<Rightarrow> 's \<Rightarrow> bool) \<Rightarrow> 's \<Rightarrow> bool" where
  "wp m Q s \<longleftrightarrow> Q (fst (run_state m s)) (snd (run_state m s))"

lemma wpD: "wp m Q s \<Longrightarrow> run_state m s = (r, t) \<Longrightarrow> Q r t"
  by (simp add: wp_def)

lemma wp_mono: "wp m Q s \<Longrightarrow> (\<And>r t. Q r t \<Longrightarrow> R r t) \<Longrightarrow> wp m R s"
  by (simp add: wp_def)

lemma wp_return [wp_intro]: "Q x s \<Longrightarrow> wp (State_Monad.return x) Q s"
  by (simp add: wp_def)

lemma wp_bind [wp_intro]: "wp m (\<lambda>a. wp (f a) Q) s \<Longrightarrow> wp (m \<bind> f) Q s"
  by (simp add: wp_def case_prod_beta)

lemma wp_cases [wp_intro]:
  "(b \<Longrightarrow> wp m Q s) \<Longrightarrow> (\<not> b \<Longrightarrow> wp n Q s) \<Longrightarrow> wp (if b then m else n) Q s"
  "(v = None \<Longrightarrow> wp m Q s) \<Longrightarrow> (\<And>x. v = Some x \<Longrightarrow> wp (f x) Q s) \<Longrightarrow>
     wp (case v of None \<Rightarrow> m | Some x \<Rightarrow> f x) Q s"
  "(\<And>x. e = Inl x \<Longrightarrow> wp (g x) Q s) \<Longrightarrow> (\<And>y. e = Inr y \<Longrightarrow> wp (h y) Q s) \<Longrightarrow>
     wp (case e of Inl x \<Rightarrow> g x | Inr y \<Rightarrow> h y) Q s"
  "(\<And>x y. p = (x, y) \<Longrightarrow> wp (k x y) Q s) \<Longrightarrow> wp (case p of (x, y) \<Rightarrow> k x y) Q s"
  by (auto split: option.split sum.split prod.split)


end
