(* ===== verification/Go_Text.thy ===== *)
theory Go_Text
  imports Prelude
begin

section \<open>The parts of Go's strings and strconv packages the driver uses\<close>

text \<open>
  Go strings are byte sequences.  The functions below follow the documented behaviour of the
  standard library on bytes: \<open>strings.Split\<close>, \<open>Join\<close>, \<open>TrimSpace\<close>, \<open>Fields\<close>, \<open>Contains\<close>,
  \<open>TrimPrefix\<close>, \<open>ToLower\<close>; \<open>strconv.ParseUint\<close>, \<open>ParseInt\<close>, \<open>Atoi\<close> in base ten and 64 bits
  and the decimal rendering of \<open>%d\<close> and \<open>FormatInt\<close>.  The lemmas are the round trips and bounds
  the components rely on.
\<close>

subsection \<open>Searching, splitting and joining\<close>

fun contains :: "string \<Rightarrow> string \<Rightarrow> bool" where
  "contains sub [] = (sub = [])"
| "contains sub (c # s) = (prefix sub (c # s) \<or> contains sub s)"

lemma contains_iff: "contains sub s \<longleftrightarrow> (\<exists>ps ss. s = ps @ sub @ ss)"
proof (induction s)
  case Nil
  then show ?case by auto
next
  case (Cons c s)
  have "(\<exists>ps ss. c # s = ps @ sub @ ss) \<longleftrightarrow>
        prefix sub (c # s) \<or> (\<exists>ps ss. s = ps @ sub @ ss)" (is "?L \<longleftrightarrow> ?R")
  proof
    assume ?L
    then obtain ps ss where "c # s = ps @ sub @ ss" by blast
    then show ?R by (cases ps) (auto simp: prefix_def)
  next
    assume ?R
    then show ?L
    proof
      assume "prefix sub (c # s)"
      then have "\<exists>ss. c # s = [] @ sub @ ss" by (auto simp: prefix_def)
      then show ?L by blast
    next
      assume "\<exists>ps ss. s = ps @ sub @ ss"
      then obtain ps ss where "c # s = (c # ps) @ sub @ ss" by auto
      then show ?L by blast
    qed
  qed
  then show ?case using Cons by simp
qed

fun split_on :: "char \<Rightarrow> string \<Rightarrow> string list" where
  "split_on c [] = [[]]"
| "split_on c (x # xs) =
     (if x = c then [] # split_on c xs
      else (case split_on c xs of [] \<Rightarrow> [[x]] | y # ys \<Rightarrow> (x # y) # ys))"

fun join :: "string \<Rightarrow> string list \<Rightarrow> string" where
  "join sep [] = []"
| "join sep [x] = x"
| "join sep (x # y # ys) = x @ sep @ join sep (y # ys)"

lemma split_on_nonempty [simp]: "split_on c s \<noteq> []"
  by (induction s) (auto split: list.splits)

lemma split_on_no_sep: "p \<in> set (split_on c s) \<Longrightarrow> c \<notin> set p"
  by (induction s arbitrary: p) (fastforce split: list.splits if_splits)+

lemma split_on_single: "c \<notin> set s \<Longrightarrow> split_on c s = [s]"
  by (induction s) auto

lemma split_on_append_sep:
  "c \<notin> set s \<Longrightarrow> split_on c (s @ c # t) = s # split_on c t"
  by (induction s) auto

lemma split_on_join:
  assumes "xs \<noteq> []" and "\<forall>x \<in> set xs. c \<notin> set x"
  shows "split_on c (join [c] xs) = xs"
  using assms
proof (induction xs rule: induct_list012)
  case (3 x y zs)
  then show ?case by (simp add: split_on_append_sep)
qed (auto simp: split_on_single)

lemma join_split_on: "join [c] (split_on c s) = s"
proof (induction s)
  case Nil
  then show ?case by simp
next
  case (Cons x s)
  obtain y ys where s: "split_on c s = y # ys" by (cases "split_on c s") auto
  then show ?case using Cons by (cases ys) (auto split: list.splits)
qed

definition trim_prefix :: "string \<Rightarrow> string \<Rightarrow> string" where
  "trim_prefix s p = (if prefix p s then drop (length p) s else s)"

text \<open>\<open>strings.SplitN(s, sep, 2)\<close>: the text before and after the first separator.\<close>

fun split_first :: "string \<Rightarrow> string \<Rightarrow> (string \<times> string) option" where
  "split_first sep [] = (if sep = [] then Some ([], []) else None)"
| "split_first sep (c # s) =
     (if prefix sep (c # s) then Some ([], drop (length sep) (c # s))
      else map_option (\<lambda>(a, b). (c # a, b)) (split_first sep s))"

lemma split_first_Some: "split_first sep s = Some (a, b) \<Longrightarrow> s = a @ sep @ b"
  by (induction s arbitrary: a) (auto split: if_splits simp: prefix_def)

subsection \<open>White space\<close>

text \<open>
  \<open>space_seqs\<close> lists the UTF-8 encodings of the code points of \<open>unicode.IsSpace\<close>.  None of them
  starts with a continuation byte, so scanning byte by byte and rune by rune finds the same
  occurrences.
\<close>

definition bytes :: "nat list \<Rightarrow> string" where
  "bytes ns = map char_of ns"

definition space_seqs :: "string list" where
  "space_seqs =
     [[CHR 0x20], [CHR 0x0A], [CHR 0x09], [CHR 0x0D], [CHR 0x0B], [CHR 0x0C],
      [CHR 0xC2, CHR 0x85], [CHR 0xC2, CHR 0xA0], [CHR 0xE1, CHR 0x9A, CHR 0x80],
      [CHR 0xE2, CHR 0x80, CHR 0x80], [CHR 0xE2, CHR 0x80, CHR 0x81],
      [CHR 0xE2, CHR 0x80, CHR 0x82], [CHR 0xE2, CHR 0x80, CHR 0x83],
      [CHR 0xE2, CHR 0x80, CHR 0x84], [CHR 0xE2, CHR 0x80, CHR 0x85],
      [CHR 0xE2, CHR 0x80, CHR 0x86], [CHR 0xE2, CHR 0x80, CHR 0x87],
      [CHR 0xE2, CHR 0x80, CHR 0x88], [CHR 0xE2, CHR 0x80, CHR 0x89],
      [CHR 0xE2, CHR 0x80, CHR 0x8A], [CHR 0xE2, CHR 0x80, CHR 0xA8],
      [CHR 0xE2, CHR 0x80, CHR 0xA9], [CHR 0xE2, CHR 0x80, CHR 0xAF],
      [CHR 0xE2, CHR 0x81, CHR 0x9F], [CHR 0xE3, CHR 0x80, CHR 0x80]]"

definition strip_space :: "string list \<Rightarrow> string \<Rightarrow> string option" where
  "strip_space seqs s =
     map_option (\<lambda>p. drop (length p) s) (find (\<lambda>p. p \<noteq> [] \<and> prefix p s) seqs)"

lemma strip_space_shorter: "strip_space seqs s = Some r \<Longrightarrow> length r < length s"
  by (auto simp: strip_space_def prefix_def dest!: find_Some_set)

function trim_left :: "string list \<Rightarrow> string \<Rightarrow> string" where
  "trim_left seqs s = (case strip_space seqs s of None \<Rightarrow> s | Some r \<Rightarrow> trim_left seqs r)"
  by pat_completeness auto
termination
  by (relation "measure (\<lambda>(seqs, s). length s)") (auto dest: strip_space_shorter)

declare trim_left.simps [simp del]

definition trim_right :: "string \<Rightarrow> string" where
  "trim_right s = rev (trim_left (map rev space_seqs) (rev s))"

definition TrimSpace :: "string \<Rightarrow> string" where
  "TrimSpace s = trim_right (trim_left space_seqs s)"

text \<open>\<open>strings.Fields\<close>: the maximal runs of bytes that are not white space.\<close>

function fields_acc :: "string \<Rightarrow> string \<Rightarrow> string list" where
  "fields_acc cur s =
     (case strip_space space_seqs s of
        Some r \<Rightarrow> (if cur = [] then fields_acc [] r else cur # fields_acc [] r)
      | None \<Rightarrow> (case s of [] \<Rightarrow> (if cur = [] then [] else [cur])
                 | c # t \<Rightarrow> fields_acc (cur @ [c]) t))"
  by pat_completeness auto
termination
  by (relation "measure (\<lambda>(cur, s). length s)") (auto dest: strip_space_shorter)

declare fields_acc.simps [simp del]

definition Fields :: "string \<Rightarrow> string list" where
  "Fields s = fields_acc [] s"

lemma strip_space_Nil [simp]: "strip_space seqs [] = None"
  by (auto simp: strip_space_def find_None_iff)

lemma trim_left_idem: "trim_left seqs (trim_left seqs s) = trim_left seqs s"
proof (induction seqs s rule: trim_left.induct)
  case (1 seqs s)
  then show ?case
    by (cases "strip_space seqs s") (simp_all add: trim_left.simps [of seqs s])
qed

lemma trim_left_suffix: "\<exists>p. s = p @ trim_left seqs s"
proof (induction seqs s rule: trim_left.induct)
  case (1 seqs s)
  show ?case
  proof (cases "strip_space seqs s")
    case None
    then show ?thesis by (simp add: trim_left.simps [of seqs s])
  next
    case (Some r)
    then obtain q where "s = q @ r"
      by (auto simp: strip_space_def prefix_def dest!: find_Some_set)
    moreover obtain p where "r = p @ trim_left seqs r" using 1 Some by blast
    moreover have "trim_left seqs s = trim_left seqs r"
      using Some by (simp add: trim_left.simps [of seqs s])
    ultimately have "s = (q @ p) @ trim_left seqs s"
      by (metis append_assoc)
    then show ?thesis by blast
  qed
qed

lemma trim_left_no_space: "strip_space seqs (trim_left seqs s) = None"
proof (induction seqs s rule: trim_left.induct)
  case (1 seqs s)
  then show ?case
    by (cases "strip_space seqs s") (simp_all add: trim_left.simps [of seqs s])
qed

lemma trim_left_id: "strip_space seqs s = None \<Longrightarrow> trim_left seqs s = s"
  by (simp add: trim_left.simps)

lemma trim_right_prefix: "\<exists>p. s = trim_right s @ p"
proof -
  obtain p where "rev s = p @ trim_left (map rev space_seqs) (rev s)"
    using trim_left_suffix by blast
  then have "s = trim_right s @ rev p"
    unfolding trim_right_def by (metis rev_append rev_rev_ident)
  then show ?thesis by blast
qed

lemma strip_space_prefix_None:
  "strip_space seqs (a @ b) = None \<Longrightarrow> strip_space seqs a = None"
  unfolding strip_space_def
  by (auto simp: find_None_iff prefix_def)

lemma TrimSpace_idem: "TrimSpace (TrimSpace s) = TrimSpace s"
proof -
  let ?l = "trim_left space_seqs s"
  obtain p where p: "?l = trim_right ?l @ p" using trim_right_prefix by blast
  have "strip_space space_seqs ?l = None" by (rule trim_left_no_space)
  then have "strip_space space_seqs (trim_right ?l) = None"
    using p by (metis strip_space_prefix_None)
  then have "trim_left space_seqs (trim_right ?l) = trim_right ?l" by (rule trim_left_id)
  then show ?thesis
    by (simp add: TrimSpace_def trim_right_def trim_left_idem)
qed

lemma TrimSpace_infix: "\<exists>p q. s = p @ TrimSpace s @ q"
  unfolding TrimSpace_def using trim_left_suffix [of s space_seqs] trim_right_prefix
  by metis

lemma TrimSpace_subset: "set (TrimSpace s) \<subseteq> set s"
  using TrimSpace_infix [of s] by (metis Un_iff set_append subsetI)

subsection \<open>Lower case\<close>

text \<open>
  \<open>strings.ToLower\<close> as far as a comparison with an ASCII text can see it: ASCII letters, and the
  two other code points whose lower case is ASCII (U+0130 to \<open>i\<close>, U+212A to \<open>k\<close>).  All other
  code points map to code points that are not ASCII and are left alone here.
\<close>

definition lower_char :: "char \<Rightarrow> char" where
  "lower_char c = (let n = of_char c :: nat in if 65 \<le> n \<and> n \<le> 90 then char_of (n + 32) else c)"

fun ToLower :: "string \<Rightarrow> string" where
  "ToLower [] = []"
| "ToLower (c # s) =
     (if c = CHR 0xC4 \<and> take 1 s = [CHR 0xB0] then CHR ''i'' # ToLower (drop 1 s)
      else if c = CHR 0xE2 \<and> take 2 s = [CHR 0x84, CHR 0xAA] then CHR ''k'' # ToLower (drop 2 s)
      else lower_char c # ToLower s)"

definition is_ascii :: "string \<Rightarrow> bool" where
  "is_ascii s \<longleftrightarrow> list_all (\<lambda>c. (of_char c :: nat) < 128) s"

lemma ToLower_ascii: "is_ascii s \<Longrightarrow> ToLower s = map lower_char s"
proof (induction s)
  case Nil
  then show ?case by simp
next
  case (Cons c s)
  then have "(of_char c :: nat) < 128" and "is_ascii s" by (simp_all add: is_ascii_def)
  then have "c \<noteq> CHR 0xC4" "c \<noteq> CHR 0xE2" by auto
  with Cons \<open>is_ascii s\<close> show ?case by simp
qed

lemma lower_char_idem: "lower_char (lower_char c) = lower_char c"
proof -
  have "of_char (char_of (of_char c + 32 :: nat) :: char) = (of_char c + 32 :: nat)"
    if "(of_char c :: nat) \<le> 90"
    using that by simp
  then show ?thesis by (auto simp: lower_char_def Let_def)
qed

subsection \<open>Decimal numbers\<close>

definition digit :: "nat \<Rightarrow> char" where
  "digit d = char_of (48 + d)"

definition is_digit :: "char \<Rightarrow> bool" where
  "is_digit c \<longleftrightarrow> 48 \<le> (of_char c :: nat) \<and> (of_char c :: nat) \<le> 57"

definition digit_val :: "char \<Rightarrow> nat" where
  "digit_val c = of_char c - 48"

fun show_nat :: "nat \<Rightarrow> string" where
  "show_nat n = (if n < 10 then [digit n] else show_nat (n div 10) @ [digit (n mod 10)])"

declare show_nat.simps [simp del]

definition show_int :: "int \<Rightarrow> string" where
  "show_int i = (if i < 0 then CHR ''-'' # show_nat (nat (- i)) else show_nat (nat i))"

definition digits_value :: "string \<Rightarrow> nat" where
  "digits_value s = foldl (\<lambda>n c. 10 * n + digit_val c) 0 s"

definition max_uint64 :: nat where "max_uint64 = 18446744073709551615"
definition max_int64 :: nat where "max_int64 = 9223372036854775807"

text \<open>\<open>strconv.ParseUint(s, 10, 64)\<close> and \<open>strconv.ParseInt(s, 10, 64)\<close>; \<open>strconv.Atoi\<close> is the latter.\<close>

definition ParseUint :: "string \<Rightarrow> nat res" where
  "ParseUint s =
     (if s = [] \<or> \<not> list_all is_digit s then Inl (StrconvErr ''invalid syntax'')
      else if max_uint64 < digits_value s then Inl (StrconvErr ''value out of range'')
      else Inr (digits_value s))"

definition ParseInt :: "string \<Rightarrow> int res" where
  "ParseInt s =
     (if s = [] then Inl (StrconvErr ''invalid syntax'')
      else let neg = (hd s = CHR ''-'');
               t = (if hd s = CHR ''+'' \<or> hd s = CHR ''-'' then tl s else s)
      in case ParseUint t of
           Inl e \<Rightarrow> Inl e
         | Inr n \<Rightarrow>
             if neg then (if max_int64 + 1 < n then Inl (StrconvErr ''value out of range'')
                          else Inr (- int n))
             else (if max_int64 < n then Inl (StrconvErr ''value out of range'')
                   else Inr (int n)))"

abbreviation Atoi :: "string \<Rightarrow> int res" where
  "Atoi \<equiv> ParseInt"

lemma digit_props: "d < 10 \<Longrightarrow> is_digit (digit d) \<and> digit_val (digit d) = d"
  by (simp add: is_digit_def digit_def digit_val_def)

lemma digit_chars:
  "digit 0 = CHR ''0''" "digit (Suc 0) = CHR ''1''" "digit 1 = CHR ''1''" "digit 2 = CHR ''2''" "digit 3 = CHR ''3''" "digit 4 = CHR ''4''"
  "digit 5 = CHR ''5''" "digit 6 = CHR ''6''" "digit 7 = CHR ''7''" "digit 8 = CHR ''8''" "digit 9 = CHR ''9''"
  by code_simp+

lemma show_nat_digits: "list_all is_digit (show_nat n)"
proof (induction n rule: show_nat.induct)
  case (1 n)
  then show ?case
    by (subst show_nat.simps) (auto simp: digit_props)
qed

lemma show_nat_nonempty [simp]: "show_nat n \<noteq> []"
  by (subst show_nat.simps) simp

lemma digits_value_show_nat [simp]: "digits_value (show_nat n) = n"
proof (induction n rule: show_nat.induct)
  case (1 n)
  show ?case
  proof (cases "n < 10")
    case True
    then show ?thesis by (subst show_nat.simps) (simp add: digits_value_def digit_props)
  next
    case False
    with 1 have "digits_value (show_nat (n div 10)) = n div 10" by simp
    with False show ?thesis
      by (subst show_nat.simps) (simp add: digits_value_def digit_props)
  qed
qed

lemma ParseUint_show_nat: "n \<le> max_uint64 \<Longrightarrow> ParseUint (show_nat n) = Inr n"
  by (simp add: ParseUint_def show_nat_digits)

lemma show_nat_hd_digit: "is_digit (hd (show_nat n))"
  using show_nat_digits [of n] by (cases "show_nat n") auto

lemma ParseInt_show_int:
  assumes "- int (max_int64 + 1) \<le> i" and "i \<le> int max_int64"
  shows "ParseInt (show_int i) = Inr i"
proof -
  have sign: "hd (show_nat n) \<noteq> CHR ''+''" "hd (show_nat n) \<noteq> CHR ''-''" for n
    using show_nat_hd_digit [of n] by (auto simp: is_digit_def)
  have le: "max_int64 + 1 \<le> max_uint64" by (simp add: max_int64_def max_uint64_def)
  show ?thesis
  proof (cases "i < 0")
    case True
    then have "nat (- i) \<le> max_int64 + 1" using assms by linarith
    with True le show ?thesis
      by (simp add: show_int_def ParseInt_def ParseUint_show_nat)
  next
    case False
    then have "nat i \<le> max_int64" using assms by linarith
    with False le sign show ?thesis
      by (simp add: show_int_def ParseInt_def ParseUint_show_nat)
  qed
qed

lemma ParseUint_bound: "ParseUint s = Inr n \<Longrightarrow> n \<le> max_uint64"
  by (auto simp: ParseUint_def split: if_splits)

lemma ParseInt_bounds:
  "ParseInt s = Inr i \<Longrightarrow> - int (max_int64 + 1) \<le> i \<and> i \<le> int max_int64"
  by (auto simp: ParseInt_def Let_def split: if_splits sum.splits)

lemma show_nat_inj: "show_nat m = show_nat n \<Longrightarrow> m = n"
  by (metis digits_value_show_nat)

text \<open>The wrap-around of the conversion \<open>int64(x)\<close> of an unsigned value.\<close>

definition int64_of_uint64 :: "nat \<Rightarrow> int" where
  "int64_of_uint64 n = (if n \<le> max_int64 then int n else int n - 2 ^ 64)"

lemma int64_of_uint64_exact: "n \<le> max_int64 \<Longrightarrow> int64_of_uint64 n = int n"
  by (simp add: int64_of_uint64_def)

lemma int64_of_uint64_negative:
  "max_int64 < n \<Longrightarrow> n \<le> max_uint64 \<Longrightarrow> int64_of_uint64 n < 0"
  by (simp add: int64_of_uint64_def max_uint64_def)

end
