(* ===== verification/Json_Text.thy ===== *)
theory Json_Text
  imports Go_Text
begin

section \<open>JSON texts, as encoding/json reads them\<close>

text \<open>
  \<open>lvs --reportformat json\<close> and \<open>wipefs --json\<close> answer with JSON, which the driver reads with
  \<open>json.Unmarshal\<close>.  A text is cut into tokens (\<open>lex_toks\<close>) and the tokens drive an automaton with a
  stack of open arrays and objects, as the scanner of the standard library does; both are total
  functions, so no bound on the nesting is chosen.  (The library refuses nesting beyond 10000
  levels and replaces invalid UTF-8 inside strings; neither occurs in the reports read here and
  neither is modelled.)  The round trip \<open>json_parse_print\<close> shows that every value can be read back from
  its printed form.
\<close>

datatype json =
    JNull | JBool bool | JNum string | JStr string
  | JArr "json list" | JObj "(string \<times> json) list"

datatype token =
    TLBrace | TRBrace | TLBrack | TRBrack | TColon | TComma
  | TNull | TBool bool | TNum string | TStr string

subsection \<open>Strings\<close>

abbreviation quote :: char where "quote \<equiv> CHR 0x22"
abbreviation backslash :: char where "backslash \<equiv> CHR 0x5C"

definition hex_val :: "char \<Rightarrow> nat option" where
  "hex_val c = (let n = of_char c :: nat in
     if 48 \<le> n \<and> n \<le> 57 then Some (n - 48)
     else if 97 \<le> n \<and> n \<le> 102 then Some (n - 87)
     else if 65 \<le> n \<and> n \<le> 70 then Some (n - 55)
     else None)"

definition hex4 :: "char \<Rightarrow> char \<Rightarrow> char \<Rightarrow> char \<Rightarrow> nat option" where
  "hex4 a b c d =
     (case (hex_val a, hex_val b, hex_val c, hex_val d) of
        (Some w, Some x, Some y, Some z) \<Rightarrow> Some (4096 * w + 256 * x + 16 * y + z)
      | _ \<Rightarrow> None)"

definition utf8 :: "nat \<Rightarrow> string" where
  "utf8 r =
     (if r < 0x80 then bytes [r]
      else if r < 0x800 then bytes [0xC0 + r div 64, 0x80 + r mod 64]
      else if r < 0x10000 then bytes [0xE0 + r div 4096, 0x80 + r div 64 mod 64, 0x80 + r mod 64]
      else bytes [0xF0 + r div 262144, 0x80 + r div 4096 mod 64, 0x80 + r div 64 mod 64,
                  0x80 + r mod 64])"

definition simple_escape :: "char \<Rightarrow> char option" where
  "simple_escape e =
     (if e = quote \<or> e = backslash \<or> e = CHR ''/'' then Some e
      else if e = CHR ''b'' then Some CHR 0x08
      else if e = CHR ''f'' then Some CHR 0x0C
      else if e = CHR ''n'' then Some CHR 0x0A
      else if e = CHR ''r'' then Some CHR 0x0D
      else if e = CHR ''t'' then Some CHR 0x09
      else None)"

text \<open>One escape after a backslash: its bytes and the rest of the text.\<close>

definition surrogate_pair :: "nat \<Rightarrow> string \<Rightarrow> (string \<times> string) option" where
  "surrogate_pair r t =
     (if 0xD800 \<le> r \<and> r < 0xE000 then
        (case t of
           b # u # w # x # y # z # t' \<Rightarrow>
             (case hex4 w x y z of
                Some r2 \<Rightarrow>
                  (if b = backslash \<and> u = CHR ''u'' \<and> r < 0xDC00 \<and> 0xDC00 \<le> r2 \<and> r2 < 0xE000
                   then Some (utf8 (0x10000 + (r - 0xD800) * 1024 + (r2 - 0xDC00)), t')
                   else Some (utf8 0xFFFD, t))
              | None \<Rightarrow> Some (utf8 0xFFFD, t))
         | _ \<Rightarrow> Some (utf8 0xFFFD, t))
      else Some (utf8 r, t))"

definition unescape :: "string \<Rightarrow> (string \<times> string) option" where
  "unescape s =
     (case s of
        [] \<Rightarrow> None
      | e # t \<Rightarrow>
          (if e = CHR ''u'' then
             (case t of
                w # x # y # z # t' \<Rightarrow>
                  (case hex4 w x y z of None \<Rightarrow> None | Some r \<Rightarrow> surrogate_pair r t')
              | _ \<Rightarrow> None)
           else map_option (\<lambda>c. ([c], t)) (simple_escape e)))"

lemma surrogate_pair_le: "surrogate_pair r t = Some (b, t') \<Longrightarrow> length t' \<le> length t"
  by (auto simp: surrogate_pair_def split: if_splits list.splits option.splits)

lemma unescape_le: "unescape s = Some (b, t) \<Longrightarrow> length t < length s"
  by (auto simp: unescape_def split: if_splits list.splits option.splits dest: surrogate_pair_le)

text \<open>The rest of a string after its opening quote: its bytes and what follows the closing quote.\<close>

function lex_str :: "string \<Rightarrow> (string \<times> string) option" where
  "lex_str s =
     (case s of
        [] \<Rightarrow> None
      | c # t \<Rightarrow>
          (if c = quote then Some ([], t)
           else if c = backslash then
             (case unescape t of
                None \<Rightarrow> None
              | Some (b, u) \<Rightarrow> map_option (\<lambda>(v, r). (b @ v, r)) (lex_str u))
           else if (of_char c :: nat) < 32 then None
           else map_option (\<lambda>(v, r). (c # v, r)) (lex_str t)))"
  by pat_completeness auto
termination
  by (relation "measure length") (auto dest: unescape_le)

declare lex_str.simps [simp del]

lemma lex_str_shorter: "lex_str s = Some (v, r) \<Longrightarrow> length r < length s"
proof (induction s arbitrary: v r rule: lex_str.induct)
  case (1 s)
  then show ?case
    by (subst (asm) (3) lex_str.simps)
      (fastforce split: list.splits if_splits option.splits dest: unescape_le)
qed

subsection \<open>Numbers and literals\<close>

definition span_digits :: "string \<Rightarrow> string \<times> string" where
  "span_digits s = (takeWhile is_digit s, dropWhile is_digit s)"

definition lex_frac :: "string \<Rightarrow> (string \<times> string) option" where
  "lex_frac s =
     (case s of
        c # t \<Rightarrow>
          (if c = CHR ''.'' then
             (let (d, r) = span_digits t in if d = [] then None else Some (c # d, r))
           else Some ([], s))
      | [] \<Rightarrow> Some ([], []))"

definition lex_exp :: "string \<Rightarrow> (string \<times> string) option" where
  "lex_exp s =
     (case s of
        c # t \<Rightarrow>
          (if c = CHR ''e'' \<or> c = CHR ''E'' then
             (let (sg, u) = (case t of
                 x # t' \<Rightarrow> if x = CHR ''+'' \<or> x = CHR ''-'' then ([x], t') else ([], t)
               | [] \<Rightarrow> ([], []));
                  (d, r) = span_digits u
              in if d = [] then None else Some (c # sg @ d, r))
           else Some ([], s))
      | [] \<Rightarrow> Some ([], []))"

definition lex_int :: "string \<Rightarrow> (string \<times> string) option" where
  "lex_int s =
     (case s of
        [] \<Rightarrow> None
      | c # t \<Rightarrow> (if c = CHR ''0'' then Some ([c], t)
                 else if is_digit c then Some (c # takeWhile is_digit t, dropWhile is_digit t)
                 else None))"

definition lex_num :: "string \<Rightarrow> (string \<times> string) option" where
  "lex_num s =
     (let (sg, s1) = (case s of c # t \<Rightarrow> if c = CHR ''-'' then ([c], t) else ([], s)
                        | [] \<Rightarrow> ([], []))
      in case lex_int s1 of
           None \<Rightarrow> None
         | Some (i, s2) \<Rightarrow>
             (case lex_frac s2 of
                None \<Rightarrow> None
              | Some (f, s3) \<Rightarrow>
                  (case lex_exp s3 of
                     None \<Rightarrow> None
                   | Some (e, s4) \<Rightarrow> Some (sg @ i @ f @ e, s4))))"

lemma lex_frac_le: "lex_frac s = Some (v, r) \<Longrightarrow> length r \<le> length s"
  by (auto simp: lex_frac_def span_digits_def Let_def split: list.splits if_splits
      intro: le_SucI length_dropWhile_le)

lemma lex_exp_le: "lex_exp s = Some (v, r) \<Longrightarrow> length r \<le> length s"
  by (auto simp: lex_exp_def span_digits_def Let_def split: list.splits if_splits
      intro: le_SucI length_dropWhile_le)

lemma lex_int_shorter: "lex_int s = Some (v, r) \<Longrightarrow> length r < length s"
  by (auto simp: lex_int_def less_Suc_eq_le length_dropWhile_le split: list.splits if_splits)

lemma lex_num_shorter: "lex_num s = Some (v, r) \<Longrightarrow> length r < length s"
  by (fastforce simp: lex_num_def Let_def split: list.splits if_splits option.splits
      dest!: lex_frac_le lex_exp_le lex_int_shorter)

definition lex_word :: "string \<Rightarrow> (token \<times> string) option" where
  "lex_word s =
     (if prefix ''true'' s then Some (TBool True, drop 4 s)
      else if prefix ''false'' s then Some (TBool False, drop 5 s)
      else if prefix ''null'' s then Some (TNull, drop 4 s)
      else None)"

lemma lex_word_shorter: "lex_word s = Some (t, r) \<Longrightarrow> length r < length s"
  by (auto simp: lex_word_def prefix_def split: if_splits)

subsection \<open>Tokens\<close>

definition is_ws :: "char \<Rightarrow> bool" where
  "is_ws c \<longleftrightarrow> (of_char c :: nat) \<in> {32, 9, 10, 13}"

definition punct :: "char \<Rightarrow> token option" where
  "punct c =
     (if c = CHR ''{'' then Some TLBrace else if c = CHR ''}'' then Some TRBrace
      else if c = CHR ''['' then Some TLBrack else if c = CHR '']'' then Some TRBrack
      else if c = CHR '':'' then Some TColon else if c = CHR '','' then Some TComma
      else None)"

definition lex_one :: "string \<Rightarrow> (token \<times> string) option" where
  "lex_one s =
     (case s of
        [] \<Rightarrow> None
      | c # t \<Rightarrow>
          (case punct c of
             Some k \<Rightarrow> Some (k, t)
           | None \<Rightarrow>
               (if c = quote then map_option (\<lambda>(v, r). (TStr v, r)) (lex_str t)
                else if c = CHR ''-'' \<or> is_digit c then map_option (\<lambda>(v, r). (TNum v, r)) (lex_num s)
                else lex_word s)))"

lemma lex_one_shorter: "lex_one s = Some (t, r) \<Longrightarrow> length r < length s"
  by (fastforce simp: lex_one_def split: list.splits option.splits if_splits
      dest: lex_str_shorter lex_num_shorter lex_word_shorter)

function lex_toks :: "string \<Rightarrow> token list option" where
  "lex_toks s =
     (case s of
        [] \<Rightarrow> Some []
      | c # t \<Rightarrow>
          (if is_ws c then lex_toks t
           else (case lex_one s of
                   None \<Rightarrow> None
                 | Some (k, r) \<Rightarrow> map_option (\<lambda>ks. k # ks) (lex_toks r))))"
  by pat_completeness auto
termination
  by (relation "measure length") (auto dest: lex_one_shorter)

declare lex_toks.simps [simp del]

subsection \<open>The automaton\<close>

text \<open>
  An open array holds the elements read so far, an open object its members, \<open>FKey\<close> an object
  whose next value belongs to the given key.  The mode says what may come next.
\<close>

datatype frame = FArr "json list" | FObj "(string \<times> json) list" | FKey "(string \<times> json) list" string

datatype mode = MVal | MValOrEnd | MKey | MKeyOrEnd | MColon | MAfter | MDone json

type_synonym config = "frame list \<times> mode"

fun deliver :: "frame list \<Rightarrow> json \<Rightarrow> config option" where
  "deliver [] v = Some ([], MDone v)"
| "deliver (FArr xs # st) v = Some (FArr (xs @ [v]) # st, MAfter)"
| "deliver (FKey ms k # st) v = Some (FObj (ms @ [(k, v)]) # st, MAfter)"
| "deliver (FObj ms # st) v = None"

definition wants_value :: "mode \<Rightarrow> bool" where
  "wants_value m \<longleftrightarrow> m = MVal \<or> m = MValOrEnd"

fun scalar :: "token \<Rightarrow> json option" where
  "scalar TNull = Some JNull"
| "scalar (TBool b) = Some (JBool b)"
| "scalar (TNum n) = Some (JNum n)"
| "scalar (TStr s) = Some (JStr s)"
| "scalar t = None"

definition step_other :: "frame list \<Rightarrow> mode \<Rightarrow> token \<Rightarrow> config option" where
  "step_other st m t =
     (case st of
        [] \<Rightarrow> None
      | FArr xs # st' \<Rightarrow>
          (if t = TRBrack \<and> (m = MValOrEnd \<or> m = MAfter) then deliver st' (JArr xs)
           else if t = TComma \<and> m = MAfter then Some (st, MVal)
           else None)
      | FObj ms # st' \<Rightarrow>
          (if t = TRBrace \<and> (m = MKeyOrEnd \<or> m = MAfter) then deliver st' (JObj ms)
           else if t = TComma \<and> m = MAfter then Some (st, MKey)
           else (case t of
                   TStr k \<Rightarrow> if m = MKeyOrEnd \<or> m = MKey then Some (FKey ms k # st', MColon) else None
                 | _ \<Rightarrow> None))
      | FKey ms k # st' \<Rightarrow> (if t = TColon \<and> m = MColon then Some (st, MVal) else None))"

definition step_tok :: "config \<Rightarrow> token \<Rightarrow> config option" where
  "step_tok c t =
     (case c of (st, m) \<Rightarrow>
        if wants_value m \<and> t = TLBrace then Some (FObj [] # st, MKeyOrEnd)
        else if wants_value m \<and> t = TLBrack then Some (FArr [] # st, MValOrEnd)
        else (case (if wants_value m then scalar t else None) of
                Some v \<Rightarrow> deliver st v
              | None \<Rightarrow> step_other st m t))"

fun run_toks :: "config \<Rightarrow> token list \<Rightarrow> config option" where
  "run_toks c [] = Some c"
| "run_toks c (t # ts) = (case step_tok c t of None \<Rightarrow> None | Some c' \<Rightarrow> run_toks c' ts)"

definition json_parse :: "string \<Rightarrow> json option" where
  "json_parse s =
     (case lex_toks s of
        None \<Rightarrow> None
      | Some ts \<Rightarrow> (case run_toks ([], MVal) ts of
                      Some ([], MDone v) \<Rightarrow> Some v
                    | _ \<Rightarrow> None))"

lemma run_toks_append:
  "run_toks c (ts @ us) = (case run_toks c ts of None \<Rightarrow> None | Some c' \<Rightarrow> run_toks c' us)"
  by (induction ts arbitrary: c) (auto split: option.splits)

subsection \<open>Printing\<close>

definition hex_digit :: "nat \<Rightarrow> char" where
  "hex_digit n = (if n < 10 then char_of (48 + n) else char_of (87 + n))"

definition escape :: "char \<Rightarrow> string" where
  "escape c =
     (if c = quote \<or> c = backslash then [backslash, c]
      else if (of_char c :: nat) < 32
      then [backslash, CHR ''u'', CHR ''0'', CHR ''0'',
            hex_digit (of_char c div 16), hex_digit (of_char c mod 16)]
      else [c])"

definition print_str :: "string \<Rightarrow> string" where
  "print_str s = quote # concat (map escape s) @ [quote]"

fun print_tok :: "token \<Rightarrow> string" where
  "print_tok TLBrace = ''{''"
| "print_tok TRBrace = ''}''"
| "print_tok TLBrack = ''[''"
| "print_tok TRBrack = '']''"
| "print_tok TColon = '':''"
| "print_tok TComma = '',''"
| "print_tok TNull = ''null''"
| "print_tok (TBool b) = (if b then ''true'' else ''false'')"
| "print_tok (TNum n) = n @ '' ''"
| "print_tok (TStr s) = print_str s"

fun comma_sep :: "token list list \<Rightarrow> token list" where
  "comma_sep [] = []"
| "comma_sep [x] = x"
| "comma_sep (x # y # ys) = x @ TComma # comma_sep (y # ys)"

fun toks :: "json \<Rightarrow> token list" where
  "toks JNull = [TNull]"
| "toks (JBool b) = [TBool b]"
| "toks (JNum n) = [TNum n]"
| "toks (JStr s) = [TStr s]"
| "toks (JArr xs) = TLBrack # comma_sep (map toks xs) @ [TRBrack]"
| "toks (JObj ms) = TLBrace # comma_sep (map (\<lambda>(k, v). TStr k # TColon # toks v) ms) @ [TRBrace]"

definition json_print :: "json \<Rightarrow> string" where
  "json_print j = concat (map print_tok (toks j))"

text \<open>Values without numbers: what the reports read here are made of.\<close>

fun no_num :: "json \<Rightarrow> bool" where
  "no_num (JNum n) = False"
| "no_num (JArr xs) = list_all no_num xs"
| "no_num (JObj ms) = list_all (\<lambda>(k, v). no_num v) ms"
| "no_num j = True"

subsection \<open>Reading back what was printed\<close>

lemma hex_val_hex_digit: "n < 16 \<Longrightarrow> hex_val (hex_digit n) = Some n"
  by (auto simp: hex_val_def hex_digit_def Let_def)

lemma unescape_control:
  assumes "(of_char c :: nat) < 32"
  shows "unescape (CHR ''u'' # CHR ''0'' # CHR ''0'' # hex_digit (of_char c div 16) #
           hex_digit (of_char c mod 16) # t) = Some ([c], t)"
proof -
  let ?n = "of_char c :: nat"
  have "hex_val CHR ''0'' = Some 0" by (simp add: hex_val_def)
  moreover have "hex_val (hex_digit (?n div 16)) = Some (?n div 16)"
    using assms by (intro hex_val_hex_digit) simp
  moreover have "hex_val (hex_digit (?n mod 16)) = Some (?n mod 16)"
    by (intro hex_val_hex_digit) simp
  ultimately have "hex4 CHR ''0'' CHR ''0'' (hex_digit (?n div 16)) (hex_digit (?n mod 16)) = Some ?n"
    by (simp add: hex4_def)
  with assms show ?thesis
    by (simp add: unescape_def surrogate_pair_def utf8_def bytes_def)
qed

lemma lex_str_escape: "lex_str (concat (map escape s) @ quote # r) = Some (s, r)"
proof (induction s)
  case Nil
  then show ?case by (subst lex_str.simps) simp
next
  case (Cons c s)
  consider (q) "c = quote \<or> c = backslash" | (ctl) "c \<noteq> quote \<and> c \<noteq> backslash \<and> (of_char c :: nat) < 32"
    | (raw) "c \<noteq> quote \<and> c \<noteq> backslash \<and> \<not> (of_char c :: nat) < 32" by blast
  then show ?case
  proof cases
    case q
    then have "unescape (c # t) = Some ([c], t)" for t
      by (auto simp: unescape_def simple_escape_def)
    with q Cons show ?thesis by (subst lex_str.simps) (simp add: escape_def [of c])
  next
    case ctl
    then show ?thesis using Cons
      by (subst lex_str.simps) (simp add: escape_def [of c] unescape_control)
  next
    case raw
    then show ?thesis using Cons by (subst lex_str.simps) (simp add: escape_def [of c])
  qed
qed

fun num_tok :: "token \<Rightarrow> bool" where
  "num_tok (TNum n) = True"
| "num_tok t = False"

lemma lex_toks_print_tok:
  assumes "\<not> num_tok t"
  shows "lex_toks (print_tok t @ r) = map_option (\<lambda>ks. t # ks) (lex_toks r)"
proof (cases t)
  case (TStr s)
  have "lex_one (quote # concat (map escape s) @ quote # r) = Some (TStr s, r)"
    by (simp add: lex_one_def punct_def lex_str_escape)
  moreover have "\<not> is_ws quote" by (simp add: is_ws_def)
  ultimately show ?thesis using TStr
    by (subst lex_toks.simps) (simp add: print_str_def)
qed (use assms in \<open>subst lex_toks.simps;
      auto simp: lex_one_def punct_def is_ws_def lex_word_def is_digit_def\<close>)+

lemma lex_toks_print: "list_all (\<lambda>t. \<not> num_tok t) ts \<Longrightarrow> lex_toks (concat (map print_tok ts)) = Some ts"
proof (induction ts)
  case Nil
  then show ?case by (subst lex_toks.simps) simp
next
  case (Cons t ts)
  then show ?case by (simp add: lex_toks_print_tok)
qed

lemma comma_sep_all:
  "list_all (list_all P) xss \<Longrightarrow> P TComma \<Longrightarrow> list_all P (comma_sep xss)"
  by (induction xss rule: comma_sep.induct) auto

lemma toks_no_num: "no_num j \<Longrightarrow> list_all (\<lambda>t. \<not> num_tok t) (toks j)"
proof (induction j rule: toks.induct)
  case (5 xs)
  then have "list_all (list_all (\<lambda>t. \<not> num_tok t)) (map toks xs)"
    by (auto simp: list_all_iff)
  then show ?case by (simp add: comma_sep_all)
next
  case (6 ms)
  then have "list_all (list_all (\<lambda>t. \<not> num_tok t)) (map (\<lambda>(k, v). TStr k # TColon # toks v) ms)"
    by (fastforce simp: list_all_iff)
  then show ?case by (simp add: comma_sep_all)
qed auto

definition runs_value :: "json \<Rightarrow> bool" where
  "runs_value j \<longleftrightarrow> (\<forall>st m ts. wants_value m \<longrightarrow>
     run_toks (st, m) (toks j @ ts) =
       (case deliver st j of None \<Rightarrow> None | Some c \<Rightarrow> run_toks c ts))"

lemma run_elems:
  assumes "xs \<noteq> []" and "\<forall>x \<in> set xs. runs_value x" and "wants_value m"
  shows "run_toks (FArr acc # st, m) (comma_sep (map toks xs) @ ts) =
         run_toks (FArr (acc @ xs) # st, MAfter) ts"
  using assms
proof (induction xs arbitrary: acc m rule: induct_list012)
  case 1
  then show ?case by simp
next
  case (2 x)
  then show ?case by (simp add: runs_value_def)
next
  case (3 x y zs)
  have "wants_value MVal" by (simp add: wants_value_def)
  then have "run_toks (FArr (acc @ [x]) # st, MVal) (comma_sep (map toks (y # zs)) @ ts) =
        run_toks (FArr ((acc @ [x]) @ (y # zs)) # st, MAfter) ts"
    using 3 by (intro 3) auto
  moreover have "step_tok (FArr (acc @ [x]) # st, MAfter) TComma = Some (FArr (acc @ [x]) # st, MVal)"
    by (simp add: step_tok_def wants_value_def step_other_def)
  ultimately show ?case
    using 3(4,5) by (simp add: runs_value_def)
qed

lemma step_member:
  assumes "m = MKeyOrEnd \<or> m = MKey" and "runs_value v"
  shows "run_toks (FObj acc # st, m) (TStr k # TColon # toks v @ ts) =
         run_toks (FObj (acc @ [(k, v)]) # st, MAfter) ts"
proof -
  have "step_tok (FObj acc # st, m) (TStr k) = Some (FKey acc k # st, MColon)"
    and "step_tok (FKey acc k # st, MColon) TColon = Some (FKey acc k # st, MVal)"
    using assms(1) by (auto simp: step_tok_def wants_value_def step_other_def)
  then show ?thesis
    using assms(2) by (simp add: runs_value_def wants_value_def)
qed

lemma run_members:
  assumes "ms \<noteq> []" and "\<forall>(k, v) \<in> set ms. runs_value v" and "m = MKeyOrEnd \<or> m = MKey"
  shows "run_toks (FObj acc # st, m) (comma_sep (map (\<lambda>(k, v). TStr k # TColon # toks v) ms) @ ts) =
         run_toks (FObj (acc @ ms) # st, MAfter) ts"
  using assms
proof (induction ms arbitrary: acc m rule: induct_list012)
  case 1
  then show ?case by simp
next
  case (2 x)
  then show ?case using step_member [of m _ acc st _ ts] by (cases x) simp
next
  case (3 x y zs)
  obtain k v where x: "x = (k, v)" by force
  have "run_toks (FObj (acc @ [x]) # st, MKey)
          (comma_sep (map (\<lambda>(k, v). TStr k # TColon # toks v) (y # zs)) @ ts) =
        run_toks (FObj ((acc @ [x]) @ (y # zs)) # st, MAfter) ts"
    using 3 by (intro 3) auto
  moreover have "step_tok (FObj (acc @ [x]) # st, MAfter) TComma = Some (FObj (acc @ [x]) # st, MKey)"
    by (simp add: step_tok_def wants_value_def step_other_def)
  moreover have "runs_value v" using 3 x by simp
  ultimately show ?case
    using 3(5) x step_member [of m v acc st k] by simp
qed

lemma runs_value_toks: "runs_value j"
proof (induction j rule: toks.induct)
  case (5 xs)
  show ?case
  proof (cases "xs = []")
    case True
    then show ?thesis
      by (auto simp: runs_value_def step_tok_def wants_value_def step_other_def split: option.splits)
  next
    case False
    then show ?thesis using 5
      by (auto simp: runs_value_def run_elems wants_value_def step_tok_def step_other_def
          split: option.splits)
  qed
next
  case (6 ms)
  show ?case
  proof (cases "ms = []")
    case True
    then show ?thesis
      by (auto simp: runs_value_def step_tok_def wants_value_def step_other_def split: option.splits)
  next
    case False
    moreover have "\<forall>(k, v) \<in> set ms. runs_value v" using 6 by auto
    ultimately show ?thesis
      by (auto simp: runs_value_def run_members wants_value_def step_tok_def step_other_def
          split: option.splits)
  qed
qed (auto simp: runs_value_def step_tok_def wants_value_def split: option.splits)

lemma json_parse_print: "no_num j \<Longrightarrow> json_parse (json_print j) = Some j"
proof -
  assume "no_num j"
  then have "lex_toks (json_print j) = Some (toks j)"
    unfolding json_print_def by (intro lex_toks_print toks_no_num)
  moreover have "run_toks ([], MVal) (toks j @ []) = Some ([], MDone j)"
    using runs_value_toks [of j, unfolded runs_value_def, rule_format, of MVal "[]" "[]"]
    by (simp add: wants_value_def)
  ultimately show ?thesis by (simp add: json_parse_def)
qed

end
