(* ===== verification/Go_Format.thy ===== *)
theory Go_Format
  imports Go_Text
begin

section \<open>Durations, slash paths and runes of Go's standard library\<close>

text \<open>
  \<open>time.Duration.String\<close>, \<open>path/filepath\<close> on Unix (\<open>IsAbs\<close>, \<open>Base\<close>, \<open>Clean\<close>, \<open>Join\<close>), and the
  conversions between strings and rune slices, as the packages document them.
\<close>

subsection \<open>Durations\<close>

definition nanosecond :: int where "nanosecond = 1"
definition second :: int where "second = 1000000000"
definition minute :: int where "minute = 60 * second"

text \<open>
  \<open>fmtFrac v prec\<close> renders the last \<open>prec\<close> digits of \<open>v\<close> as a fraction without trailing zeros in
  front of \<open>acc\<close>, and gives the remaining number.
\<close>

fun fmtFrac :: "nat \<Rightarrow> nat \<Rightarrow> bool \<Rightarrow> string \<Rightarrow> string \<times> nat" where
  "fmtFrac v 0 started acc = (if started then CHR ''.'' # acc else acc, v)"
| "fmtFrac v (Suc p) started acc =
     (let d = v mod 10; started' = (started \<or> d \<noteq> 0)
      in fmtFrac (v div 10) p started' (if started' then digit d # acc else acc))"

lemma fmtFrac_numeral [simp]:
  "fmtFrac v (numeral k) started acc =
     (let d = v mod 10; started' = (started \<or> d \<noteq> 0)
      in fmtFrac (v div 10) (pred_numeral k) started' (if started' then digit d # acc else acc))"
  by (subst numeral_eq_Suc) (rule fmtFrac.simps(2))

definition Duration_abs :: "nat \<Rightarrow> string" where
  "Duration_abs u =
     (if u < 1000000000 then
        (if u = 0 then ''0s''
         else let (prec, unit) =
                    (if u < 1000 then (0, ''ns'')
                     else if u < 1000000 then (3, [CHR 0xC2, CHR 0xB5] @ ''s'')
                     else (6, ''ms''));
                  (frac, v) = fmtFrac u prec False unit
              in show_nat v @ frac)
      else
        let (secs, v) = fmtFrac u 9 False ''s'';
            s1 = show_nat (v mod 60) @ secs;
            m = v div 60
        in if m = 0 then s1
           else let s2 = show_nat (m mod 60) @ ''m'' @ s1; h = m div 60
                in if h = 0 then s2 else show_nat h @ ''h'' @ s2)"

definition Duration_String :: "int \<Rightarrow> string" where
  "Duration_String d = (if d < 0 then CHR ''-'' # Duration_abs (nat (- d)) else Duration_abs (nat d))"

lemma Duration_String_examples:
  "Duration_String (3 * minute) = ''3m0s''"
  "Duration_String (3 * minute + 30 * second) = ''3m30s''"
  "Duration_String (90 * minute) = ''1h30m0s''"
  "Duration_String 1500000000 = ''1.5s''"
  "Duration_String 2500000 = ''2.5ms''"
  by (simp_all add: Duration_String_def Duration_abs_def minute_def second_def show_nat.simps digit_chars Let_def)

subsection \<open>Slash paths\<close>

definition IsAbs :: "string \<Rightarrow> bool" where
  "IsAbs path \<longleftrightarrow> prefix ''/'' path"

definition Base :: "string \<Rightarrow> string" where
  "Base path =
     (if path = '''' then ''.''
      else let stripped = rev (dropWhile (\<lambda>c. c = CHR ''/'') (rev path));
               b = rev (takeWhile (\<lambda>c. c \<noteq> CHR ''/'') (rev stripped))
           in if b = '''' then ''/'' else b)"

fun clean_parts :: "bool \<Rightarrow> string list \<Rightarrow> string list \<Rightarrow> string list" where
  "clean_parts rooted stack [] = rev stack"
| "clean_parts rooted stack (p # ps) =
     (if p = '''' \<or> p = ''.'' then clean_parts rooted stack ps
      else if p = ''..'' then
        (case stack of
           t # ts \<Rightarrow> if t \<noteq> ''..'' then clean_parts rooted ts ps else clean_parts rooted (p # stack) ps
         | [] \<Rightarrow> if rooted then clean_parts rooted [] ps else clean_parts rooted [p] ps)
      else clean_parts rooted (p # stack) ps)"

definition Clean :: "string \<Rightarrow> string" where
  "Clean path =
     (let rooted = IsAbs path; body = join ''/'' (clean_parts rooted [] (split_on CHR ''/'' path))
      in if rooted then CHR ''/'' # body else if body = '''' then ''.'' else body)"

definition Join :: "string list \<Rightarrow> string" where
  "Join elems =
     (case dropWhile (\<lambda>e. e = '''') elems of
        [] \<Rightarrow> ''''
      | es \<Rightarrow> Clean (join ''/'' es))"

lemma path_examples:
  "Base ''/usr/bin/csi-lvmplugin-provisioner'' = ''csi-lvmplugin-provisioner''"
  "Base ''a/b//'' = ''b''" "Base ''//'' = ''/''"
  "Join [''/etc/lvm'', ''backup''] = ''/etc/lvm/backup''"
  "Join ['''', ''backup''] = ''backup''" "Join [''/a/../b/.'', ''c''] = ''/b/c''"
  by (simp_all add: Base_def Join_def Clean_def IsAbs_def)

subsection \<open>Runes\<close>

text \<open>
  \<open>decode_rune\<close> is \<open>utf8.DecodeRune\<close> on a non-empty byte sequence: the code point and its width,
  or U+FFFD and one byte when the bytes are not the encoding of a code point.
\<close>

definition cont :: "nat \<Rightarrow> bool" where
  "cont b \<longleftrightarrow> 128 \<le> b \<and> b \<le> 191"

definition RuneError :: nat where "RuneError = 65533"

fun decode_rune :: "nat list \<Rightarrow> nat \<times> nat" where
  "decode_rune [] = (RuneError, 0)"
| "decode_rune (b0 # bs) =
     (if b0 < 128 then (b0, 1)
      else if 194 \<le> b0 \<and> b0 \<le> 223 then
        (case bs of
           b1 # _ \<Rightarrow> if cont b1 then ((b0 - 192) * 64 + (b1 - 128), 2) else (RuneError, 1)
         | _ \<Rightarrow> (RuneError, 1))
      else if 224 \<le> b0 \<and> b0 \<le> 239 then
        (case bs of
           b1 # b2 # _ \<Rightarrow>
             if cont b1 \<and> cont b2 \<and> (b0 = 224 \<longrightarrow> 160 \<le> b1) \<and> (b0 = 237 \<longrightarrow> b1 \<le> 159)
             then ((b0 - 224) * 4096 + (b1 - 128) * 64 + (b2 - 128), 3) else (RuneError, 1)
         | _ \<Rightarrow> (RuneError, 1))
      else if 240 \<le> b0 \<and> b0 \<le> 244 then
        (case bs of
           b1 # b2 # b3 # _ \<Rightarrow>
             if cont b1 \<and> cont b2 \<and> cont b3 \<and> (b0 = 240 \<longrightarrow> 144 \<le> b1) \<and> (b0 = 244 \<longrightarrow> b1 \<le> 143)
             then ((b0 - 240) * 262144 + (b1 - 128) * 4096 + (b2 - 128) * 64 + (b3 - 128), 4) else (RuneError, 1)
         | _ \<Rightarrow> (RuneError, 1))
      else (RuneError, 1))"

text \<open>\<open>[]rune(s)\<close>\<close>

lemma decode_width: "bs \<noteq> [] \<Longrightarrow> 1 \<le> snd (decode_rune bs) \<and> snd (decode_rune bs) \<le> length bs"
  by (cases bs) (auto split: list.splits)

function runes_of :: "nat list \<Rightarrow> nat list" where
  "runes_of bs = (if bs = [] then [] else let (r, n) = decode_rune bs in r # runes_of (drop n bs))"
  by pat_completeness auto
termination
  by (relation "measure length") (auto, metis One_nat_def Suc_le_lessD decode_width diff_less length_greater_0_conv snd_conv)

declare runes_of.simps [simp del]

text \<open>\<open>string(runes)\<close>\<close>

definition encode_rune :: "nat \<Rightarrow> nat list" where
  "encode_rune r =
     (if r < 128 then [r]
      else if r < 2048 then [192 + r div 64, 128 + r mod 64]
      else if r < 65536 then [224 + r div 4096, 128 + r div 64 mod 64, 128 + r mod 64]
      else [240 + r div 262144, 128 + r div 4096 mod 64, 128 + r div 64 mod 64, 128 + r mod 64])"

definition to_runes :: "string \<Rightarrow> nat list" where
  "to_runes s = runes_of (map of_char s)"

definition from_runes :: "nat list \<Rightarrow> string" where
  "from_runes rs = map char_of (concat (map encode_rune rs))"


lemma length_encode_rune: "length (encode_rune r) \<le> 4"
  by (simp add: encode_rune_def)

lemma length_from_runes: "length (from_runes rs) \<le> 4 * length rs"
proof (induction rs)
  case (Cons r rs)
  have "length (from_runes (r # rs)) = length (encode_rune r) + length (from_runes rs)" by (simp add: from_runes_def)
  with Cons length_encode_rune [of r] show ?case by simp
qed (simp add: from_runes_def)

lemma decode_width_4: "snd (decode_rune bs) \<le> 4"
  by (cases bs) (auto split: list.splits)

lemma length_runes_of: "length bs \<le> 4 * length (runes_of bs)"
proof (induction bs rule: runes_of.induct)
  case (1 bs)
  show ?case
  proof (cases "bs = []")
    case False
    obtain r n where d: "decode_rune bs = (r, n)" by (rule prod.exhaust)
    with False have "runes_of bs = r # runes_of (drop n bs)" by (simp add: runes_of.simps [of bs])
    moreover have "length (drop n bs) \<le> 4 * length (runes_of (drop n bs))" using 1 False d by simp
    moreover have "n \<le> 4" using decode_width_4 [of bs] d by simp
    ultimately show ?thesis by simp
  qed simp
qed

lemma decode_multibyte:
  assumes "128 \<le> b0"
  shows "128 \<le> fst (decode_rune (b0 # bs))"
proof -
  have two: "128 \<le> (b0 - 192) * 64 + x" if "194 \<le> b0" for x
  proof -
    have "2 \<le> b0 - 192" using that by simp
    then show ?thesis by linarith
  qed
  have three: "128 \<le> (b0 - 224) * 4096 + (b1 - 128) * 64 + x" if "224 \<le> b0" "b0 = 224 \<longrightarrow> 160 \<le> b1" for b1 x
  proof -
    have "1 \<le> b0 - 224 \<or> 32 \<le> b1 - 128" using that by auto
    then show ?thesis by linarith
  qed
  have four: "128 \<le> (b0 - 240) * 262144 + (b1 - 128) * 4096 + y + x" if "240 \<le> b0" "b0 = 240 \<longrightarrow> 144 \<le> b1" for b1 y x
  proof -
    have "1 \<le> b0 - 240 \<or> 16 \<le> b1 - 128" using that by auto
    then show ?thesis by linarith
  qed
  have err: "128 \<le> fst (RuneError, n)" for n :: nat by (simp add: RuneError_def)
  show ?thesis unfolding decode_rune.simps
    using assms two three four by (simp add: err split: list.split del: fst_conv) (simp add: RuneError_def)
qed

lemma decode_ascii: "fst (decode_rune bs) < 128 \<Longrightarrow> bs \<noteq> [] \<Longrightarrow> fst (decode_rune bs) = hd bs"
proof (cases bs)
  case (Cons b0 bs')
  assume "fst (decode_rune bs) < 128"
  then have "b0 < 128" using decode_multibyte [of b0 bs'] Cons by (metis not_less)
  then show ?thesis using Cons by simp
qed simp

lemma runes_of_ascii: "r \<in> set (runes_of bs) \<Longrightarrow> r < 128 \<Longrightarrow> r \<in> set bs"
proof (induction bs rule: runes_of.induct)
  case (1 bs)
  have ne: "bs \<noteq> []" using "1.prems"(1) by (auto simp: runes_of.simps [of bs])
  obtain x n where d: "decode_rune bs = (x, n)" by (rule prod.exhaust)
  have "runes_of bs = x # runes_of (drop n bs)" using ne d by (simp add: runes_of.simps [of bs])
  with "1.prems" consider "r = x" | "r \<in> set (runes_of (drop n bs))" by auto
  then show ?case
  proof cases
    case 1
    then have "r = hd bs" using decode_ascii [of bs] d ne \<open>r < 128\<close> by simp
    then show ?thesis using ne by simp
  next
    case 2
    then have "r \<in> set (drop n bs)" using "1.IH" [OF ne, of "(x, n)" x n] d "1.prems"(2) by simp
    then show ?thesis by (rule in_set_dropD)
  qed
qed

lemma encode_ascii: "b \<in> set (encode_rune r) \<Longrightarrow> b < 128 \<Longrightarrow> b = r"
  by (auto simp: encode_rune_def split: if_splits)

lemma from_runes_ascii:
  assumes "c \<in> set (from_runes rs)" and "(of_char c :: nat) < 128" and "\<forall>r \<in> set rs. r < 1114112"
  shows "of_char c \<in> set rs"
proof -
  from assms(1) obtain r b where r: "r \<in> set rs" "b \<in> set (encode_rune r)" "c = char_of b"
    by (auto simp: from_runes_def)
  have "b < 256" using r(1,2) assms(3) by (auto simp: encode_rune_def split: if_splits)
  then have "of_char c = b" using r(3) by simp
  with assms(2) r encode_ascii [of b r] show ?thesis by simp
qed

lemma decode_range: "fst (decode_rune bs) < 1114112"
  by (cases bs) (auto simp: RuneError_def cont_def split: list.splits)

lemma runes_of_range: "r \<in> set (runes_of bs) \<Longrightarrow> r < 1114112"
proof (induction bs rule: runes_of.induct)
  case (1 bs)
  have ne: "bs \<noteq> []" using "1.prems" by (auto simp: runes_of.simps [of bs])
  obtain x n where d: "decode_rune bs = (x, n)" by (rule prod.exhaust)
  have "runes_of bs = x # runes_of (drop n bs)" using ne d by (simp add: runes_of.simps [of bs])
  then show ?case using "1.IH" [OF ne, of "(x, n)" x n] "1.prems" d decode_range [of bs] by auto
qed

text \<open>Cutting a string after some runes and encoding them again adds no ASCII character.\<close>

lemma cut_ascii:
  assumes "c \<in> set (from_runes (take n (to_runes s)))" and "(of_char c :: nat) < 128"
  shows "c \<in> set s"
proof -
  have "of_char c \<in> set (take n (to_runes s))"
    using assms runes_of_range by (intro from_runes_ascii) (auto simp: to_runes_def dest: in_set_takeD)
  then have "(of_char c :: nat) \<in> set (map of_char s)"
    using assms(2) unfolding to_runes_def by (blast intro: runes_of_ascii dest: in_set_takeD)
  then show ?thesis by auto
qed

end
