(* ===== verification/Host.thy ===== *)
theory Host
  imports Json_Text Go_Format
begin

section \<open>The host the driver runs on\<close>

text \<open>
  The LVM tools, mount(8), the file system and the block devices are not part of the repository.
  They are the parameter \<open>H\<close> of every definition that uses them: a record of operations over an
  arbitrary world \<open>'w\<close>.  What the driver itself keeps beside the world is the two process-wide
  timeouts of \<open>lvm.go\<close> (\<open>commandTimeoutNanos\<close>, \<open>thinPoolTimeoutNanos\<close>); \<open>s_log\<close> records, oldest
  first, every command and file operation issued, so that statements about what was run, and in
  which order, can be made.
\<close>

record file_info =
  fi_dir :: bool
  fi_symlink :: bool

record 'w host =
  h_exec :: "int \<Rightarrow> string \<Rightarrow> string list \<Rightarrow> 'w \<Rightarrow> (string \<times> cmd_error option) \<times> 'w"
  h_timed :: bool
  h_mkdir_all :: "string \<Rightarrow> 'w \<Rightarrow> os_error option \<times> 'w"
  h_chmod :: "string \<Rightarrow> 'w \<Rightarrow> os_error option \<times> 'w"
  h_create_excl :: "string \<Rightarrow> 'w \<Rightarrow> os_error option \<times> 'w"
  h_close :: "string \<Rightarrow> 'w \<Rightarrow> os_error option \<times> 'w"
  h_remove :: "string \<Rightarrow> 'w \<Rightarrow> os_error option \<times> 'w"
  h_lstat :: "string \<Rightarrow> 'w \<Rightarrow> os_error + file_info"
  h_stat :: "string \<Rightarrow> 'w \<Rightarrow> os_error + file_info"
  h_open_read :: "string \<Rightarrow> 'w \<Rightarrow> os_error option \<times> 'w"
  h_open_write :: "string \<Rightarrow> 'w \<Rightarrow> os_error option \<times> 'w"
  h_copy :: "string \<Rightarrow> string \<Rightarrow> 'w \<Rightarrow> os_error option \<times> 'w"
  h_sync :: "string \<Rightarrow> 'w \<Rightarrow> os_error option \<times> 'w"

datatype event =
    ECmd (ev_cmd: string) (ev_args: "string list") (ev_timeout: int)
         (ev_out: string) (ev_err: "cmd_error option")
  | EOs (ev_op: string) (ev_path: string) (ev_oserr: "os_error option")

record 'w sys =
  s_world :: 'w
  s_cmdTimeout :: int
  s_poolTimeout :: int
  s_log :: "event list"

type_synonym ('w, 'a) op = "('w sys, 'a) state"

text \<open>\<open>ran c e\<close>: the event \<open>e\<close> is a run of the command \<open>c\<close>.\<close>

definition ran :: "string \<Rightarrow> event \<Rightarrow> bool" where
  "ran c e \<longleftrightarrow> (case e of ECmd d _ _ _ _ \<Rightarrow> d = c | EOs _ _ _ \<Rightarrow> False)"

lemma ran_simps [simp]:
  "ran c (ECmd d a t out err) \<longleftrightarrow> d = c"
  "\<not> ran c (EOs p q r)"
  by (simp_all add: ran_def)

subsection \<open>Executors\<close>

text \<open>
  \<open>cmd.NewExecutor\<close> starts with three minutes; \<open>newCommandExecutor\<close> sets the configured timeout,
  \<open>newUnmountExecutor\<close> leaves the default for its caller to change.
\<close>

record executor =
  cmdTimeout :: int

definition NewExecutor :: executor where
  "NewExecutor = \<lparr>cmdTimeout = 180 * second\<rparr>"

definition SetTimeout :: "int \<Rightarrow> executor \<Rightarrow> executor" where
  "SetTimeout t ex = ex\<lparr>cmdTimeout := t\<rparr>"

definition Execute :: "'w host \<Rightarrow> executor \<Rightarrow> string \<Rightarrow> string list \<Rightarrow> ('w, string \<times> cmd_error option) op" where
  "Execute H ex c args = State (\<lambda>s.
     let (r, w) = h_exec H (cmdTimeout ex) c args (s_world s)
     in (r, s\<lparr>s_world := w, s_log := s_log s @ [ECmd c args (cmdTimeout ex) (fst r) (snd r)]\<rparr>))"

definition os_op :: "string \<Rightarrow> (string \<Rightarrow> 'w \<Rightarrow> os_error option \<times> 'w) \<Rightarrow> string \<Rightarrow> ('w, os_error option) op" where
  "os_op name f path = State (\<lambda>s.
     let (r, w) = f path (s_world s)
     in (r, s\<lparr>s_world := w, s_log := s_log s @ [EOs name path r]\<rparr>))"

definition os_query :: "(string \<Rightarrow> 'w \<Rightarrow> os_error + file_info) \<Rightarrow> string \<Rightarrow> ('w, os_error + file_info) op" where
  "os_query f path = State (\<lambda>s. (f path (s_world s), s))"

definition commandTimeout :: "('w, int) op" where
  "commandTimeout = State (\<lambda>s. (s_cmdTimeout s, s))"

definition thinPoolCreateTimeout :: "('w, int) op" where
  "thinPoolCreateTimeout = State (\<lambda>s. (s_poolTimeout s, s))"

definition SetCommandTimeout :: "int \<Rightarrow> ('w, check) op" where
  "SetCommandTimeout timeout =
     (if timeout \<le> 0
      then State_Monad.return (Some (msg ''command timeout must be greater than zero''))
      else State (\<lambda>s. (None, s\<lparr>s_cmdTimeout := timeout\<rparr>)))"

definition SetThinPoolCreateTimeout :: "int \<Rightarrow> ('w, check) op" where
  "SetThinPoolCreateTimeout timeout =
     (if timeout \<le> 0
      then State_Monad.return (Some (msg ''thin-pool creation timeout must be greater than zero''))
      else State (\<lambda>s. (None, s\<lparr>s_poolTimeout := timeout\<rparr>)))"

definition newCommandExecutor :: "('w, executor) op" where
  "newCommandExecutor = do {
     t \<leftarrow> commandTimeout;
     State_Monad.return (SetTimeout t NewExecutor)
   }"

definition newUnmountExecutor :: "('w, executor) op" where
  "newUnmountExecutor = State_Monad.return NewExecutor"

subsection \<open>Evaluation\<close>

text \<open>
  \<open>exec_of\<close>, \<open>after\<close> name the answer of a command in a state and the state after it, so that a
  run of an operation unfolds to a chain of states.
\<close>

definition exec_of :: "'w host \<Rightarrow> executor \<Rightarrow> string \<Rightarrow> string list \<Rightarrow> 'w sys \<Rightarrow> string \<times> cmd_error option" where
  "exec_of H ex c args s = fst (h_exec H (cmdTimeout ex) c args (s_world s))"

definition after :: "'w host \<Rightarrow> executor \<Rightarrow> string \<Rightarrow> string list \<Rightarrow> 'w sys \<Rightarrow> 'w sys" where
  "after H ex c args s =
     s\<lparr>s_world := snd (h_exec H (cmdTimeout ex) c args (s_world s)),
       s_log := s_log s @ [ECmd c args (cmdTimeout ex)
                 (fst (exec_of H ex c args s)) (snd (exec_of H ex c args s))]\<rparr>"

lemma run_Execute [run_simps]:
  "run_state (Execute H ex c args) s = (exec_of H ex c args s, after H ex c args s)"
  by (simp add: Execute_def exec_of_def after_def case_prod_beta)

lemma run_commandTimeout [run_simps]: "run_state commandTimeout s = (s_cmdTimeout s, s)"
  by (simp add: commandTimeout_def)

lemma run_thinPoolCreateTimeout [run_simps]:
  "run_state thinPoolCreateTimeout s = (s_poolTimeout s, s)"
  by (simp add: thinPoolCreateTimeout_def)

definition cmd_ex :: "'w sys \<Rightarrow> executor" where
  "cmd_ex s = \<lparr>cmdTimeout = s_cmdTimeout s\<rparr>"

lemma run_newCommandExecutor [run_simps]: "run_state newCommandExecutor s = (cmd_ex s, s)"
  by (simp add: newCommandExecutor_def run_simps SetTimeout_def NewExecutor_def cmd_ex_def)

lemma run_newUnmountExecutor [run_simps]: "run_state newUnmountExecutor s = (NewExecutor, s)"
  by (simp add: newUnmountExecutor_def)

lemma run_os_op [run_simps]:
  "run_state (os_op n f p) s =
     (fst (f p (s_world s)),
      s\<lparr>s_world := snd (f p (s_world s)), s_log := s_log s @ [EOs n p (fst (f p (s_world s)))]\<rparr>)"
  by (simp add: os_op_def case_prod_beta)

lemma run_os_query [run_simps]: "run_state (os_query f p) s = (f p (s_world s), s)"
  by (simp add: os_query_def)

lemma run_cases [run_simps]:
  "run_state (if b then m else n) s = (if b then run_state m s else run_state n s)"
  "run_state (case v of None \<Rightarrow> m | Some x \<Rightarrow> f x) s =
     (case v of None \<Rightarrow> run_state m s | Some x \<Rightarrow> run_state (f x) s)"
  "run_state (case r of Inl x \<Rightarrow> g x | Inr y \<Rightarrow> h y) s =
     (case r of Inl x \<Rightarrow> run_state (g x) s | Inr y \<Rightarrow> run_state (h y) s)"
  "run_state (case p of (a, b) \<Rightarrow> k a b) s = (case p of (a, b) \<Rightarrow> run_state (k a b) s)"
  by (simp_all split: option.split sum.split prod.split)

lemma after_log [simp]:
  "s_log (after H ex c args s) =
     s_log s @ [ECmd c args (cmdTimeout ex) (fst (exec_of H ex c args s)) (snd (exec_of H ex c args s))]"
  "s_cmdTimeout (after H ex c args s) = s_cmdTimeout s"
  "s_poolTimeout (after H ex c args s) = s_poolTimeout s"
  "s_world (after H ex c args s) = snd (h_exec H (cmdTimeout ex) c args (s_world s))"
  by (simp_all add: after_def)

lemma cmd_ex_after [simp]: "cmd_ex (after H ex c args s) = cmd_ex s"
  by (simp add: cmd_ex_def)

subsection \<open>What an operation may run\<close>

text \<open>
  \<open>logs E s t\<close>: the log only grew from \<open>s\<close> to \<open>t\<close>, by events that satisfy \<open>E\<close>, and the two
  timeouts are as before.  An operation that \<open>keeps (logs E)\<close> runs nothing outside \<open>E\<close>.
\<close>

definition logs :: "(event \<Rightarrow> bool) \<Rightarrow> 'w sys \<Rightarrow> 'w sys \<Rightarrow> bool" where
  "logs E s t \<longleftrightarrow> (\<exists>evs. s_log t = s_log s @ evs \<and> list_all E evs)
     \<and> s_cmdTimeout t = s_cmdTimeout s \<and> s_poolTimeout t = s_poolTimeout s"

named_theorems op_intro \<open>what the operations may run\<close>

lemma logs_refl: "reflp (logs E)"
  by (auto simp: reflp_def logs_def)

lemma logs_trans: "transp (logs E)"
  by (fastforce simp: transp_def logs_def)

lemma logs_transD: "logs E s t \<Longrightarrow> logs E t u \<Longrightarrow> logs E s u"
  using logs_trans [of E] by (auto dest: transpD)

lemma logs_mono: "logs E s t \<Longrightarrow> (\<And>e. E e \<Longrightarrow> F e) \<Longrightarrow> logs F s t"
  by (auto simp: logs_def list_all_iff)

lemma keeps_logs_mono: "keeps (logs E) m \<Longrightarrow> (\<And>e. E e \<Longrightarrow> F e) \<Longrightarrow> keeps (logs F) m"
  by (auto simp: keeps_def intro: logs_mono)

lemma keeps_logs_return [op_intro]: "keeps (logs E) (State_Monad.return x)"
  by (rule keeps_return [OF logs_refl])

lemma keeps_logs_bind [op_intro]:
  "keeps (logs E) m \<Longrightarrow> (\<And>a. keeps (logs E) (f a)) \<Longrightarrow> keeps (logs E) (m \<bind> f)"
  by (rule keeps_bind [OF logs_trans])

lemma keeps_logs_Execute [op_intro]:
  "(\<And>t out err. E (ECmd c args t out err)) \<Longrightarrow> keeps (logs E) (Execute H ex c args)"
  by (simp add: keeps_def run_simps logs_def)

lemma keeps_logs_os_op [op_intro]:
  "(\<And>err. E (EOs n p err)) \<Longrightarrow> keeps (logs E) (os_op n f p)"
  by (simp add: keeps_def run_simps logs_def)

lemma keeps_logs_query [op_intro]:
  "keeps (logs E) (os_query g p)"
  "keeps (logs E) newCommandExecutor"
  "keeps (logs E) newUnmountExecutor"
  "keeps (logs E) thinPoolCreateTimeout"
  by (simp_all add: keeps_def run_simps logs_def)

lemma keeps_logs_if [op_intro]:
  "(b \<Longrightarrow> keeps (logs E) m) \<Longrightarrow> (\<not> b \<Longrightarrow> keeps (logs E) n) \<Longrightarrow> keeps (logs E) (if b then m else n)"
  by simp

lemma keeps_logs_option [op_intro]:
  "keeps (logs E) m \<Longrightarrow> (\<And>x. keeps (logs E) (f x)) \<Longrightarrow>
     keeps (logs E) (case v of None \<Rightarrow> m | Some x \<Rightarrow> f x)"
  by (cases v) auto

lemma keeps_logs_sum [op_intro]:
  "(\<And>x. keeps (logs E) (f x)) \<Longrightarrow> (\<And>x. keeps (logs E) (g x)) \<Longrightarrow>
     keeps (logs E) (case v of Inl x \<Rightarrow> f x | Inr x \<Rightarrow> g x)"
  by (cases v) auto

lemma keeps_logs_prod [op_intro]:
  "(\<And>x y. keeps (logs E) (f x y)) \<Longrightarrow> keeps (logs E) (case v of (x, y) \<Rightarrow> f x y)"
  by (cases v) auto

subsection \<open>A host whose file operations always succeed\<close>

text \<open>
  Concrete hosts for the examples: a command interpreter over a concrete world, with file
  operations that succeed and change nothing.
\<close>

definition quiet_host ::
  "(int \<Rightarrow> string \<Rightarrow> string list \<Rightarrow> 'w \<Rightarrow> (string \<times> cmd_error option) \<times> 'w) \<Rightarrow> 'w host" where
  "quiet_host run = \<lparr>
     h_exec = run, h_timed = True,
     h_mkdir_all = (\<lambda>_ w. (None, w)), h_chmod = (\<lambda>_ w. (None, w)),
     h_create_excl = (\<lambda>_ w. (None, w)), h_close = (\<lambda>_ w. (None, w)),
     h_remove = (\<lambda>_ w. (None, w)),
     h_lstat = (\<lambda>_ _. Inr \<lparr>fi_dir = False, fi_symlink = False\<rparr>),
     h_stat = (\<lambda>_ _. Inr \<lparr>fi_dir = True, fi_symlink = False\<rparr>),
     h_open_read = (\<lambda>_ w. (None, w)), h_open_write = (\<lambda>_ w. (None, w)),
     h_copy = (\<lambda>_ _ w. (None, w)), h_sync = (\<lambda>_ w. (None, w))\<rparr>"

lemma quiet_host_simps [simp]:
  "h_exec (quiet_host run) = run" "h_timed (quiet_host run)"
  "h_close (quiet_host run) p w = (None, w)" "h_remove (quiet_host run) p w = (None, w)"
  "h_open_read (quiet_host run) p w = (None, w)" "h_open_write (quiet_host run) p w = (None, w)"
  "h_copy (quiet_host run) q p w = (None, w)" "h_sync (quiet_host run) p w = (None, w)"
  by (simp_all add: quiet_host_def)

definition start :: "'w \<Rightarrow> 'w sys" where
  "start w = \<lparr>s_world = w, s_cmdTimeout = 3 * minute, s_poolTimeout = 15 * minute, s_log = []\<rparr>"

lemma start_simps [simp]: "s_log (start w) = []" "s_world (start w) = w"
  by (simp_all add: start_def)

definition exit_error :: "int \<Rightarrow> cmd_error" where
  "exit_error c = \<lparr>ce_text = ''exit status'', ce_exit = Some c, ce_timeout = False\<rparr>"

definition timeout_error :: cmd_error where
  "timeout_error = \<lparr>ce_text = ''command timeout'', ce_exit = None, ce_timeout = True\<rparr>"

end
