(* ===== verification/Mounts.thy ===== *)
theory Mounts
  imports Host
begin

section \<open>Formatting, mounting and unmounting (lvm.go, first half)\<close>

text \<open>
  \<open>mountLV\<close> probes a logical volume for a file system, formats it only when both \<open>blkid\<close> and
  \<open>wipefs\<close> find none, and mounts it; \<open>bindMountLV\<close> publishes the raw device; \<open>unmountTarget\<close>
  escalates from a plain to a forced to a lazy unmount.  Every command goes through the executor,
  every early return of the source is a branch here.
\<close>

definition blkidExitNotFound :: int where "blkidExitNotFound = 2"
definition blkidExitOther :: int where "blkidExitOther = 4"
definition blkidExitAmbiguous :: int where "blkidExitAmbiguous = 8"
definition unmountTimeout :: int where "unmountTimeout = 30 * second"

definition device_path :: "string \<Rightarrow> string \<Rightarrow> string" where
  "device_path vgName lvname = ''/dev/'' @ vgName @ ''/'' @ lvname"

subsection \<open>The wipefs report\<close>

text \<open>
  \<open>json.Unmarshal\<close> into a struct visits the members in order; a key selects a field by its name
  without regard to letter case; \<open>null\<close> leaves a string field as it is and makes a pointer nil; a
  value of another type is an error; unknown keys are ignored.
\<close>

definition key_is :: "string \<Rightarrow> string \<Rightarrow> bool" where
  "key_is k name \<longleftrightarrow> ToLower k = name"

definition decode_string :: "string \<Rightarrow> json \<Rightarrow> string res" where
  "decode_string old v =
     (case v of
        JStr s \<Rightarrow> Inr s
      | JNull \<Rightarrow> Inr old
      | _ \<Rightarrow> Inl (JsonErr ''cannot unmarshal into string''))"

fun decode_members :: "('s \<Rightarrow> string \<Rightarrow> json \<Rightarrow> 's res) \<Rightarrow> 's \<Rightarrow> (string \<times> json) list \<Rightarrow> 's res" where
  "decode_members f acc [] = Inr acc"
| "decode_members f acc ((k, v) # ms) =
     (case f acc k v of Inl e \<Rightarrow> Inl e | Inr acc' \<Rightarrow> decode_members f acc' ms)"

definition decode_struct :: "('s \<Rightarrow> string \<Rightarrow> json \<Rightarrow> 's res) \<Rightarrow> 's \<Rightarrow> json \<Rightarrow> 's res" where
  "decode_struct f zero v =
     (case v of
        JObj ms \<Rightarrow> decode_members f zero ms
      | JNull \<Rightarrow> Inr zero
      | _ \<Rightarrow> Inl (JsonErr ''cannot unmarshal into struct''))"

fun decode_list :: "(json \<Rightarrow> 'a res) \<Rightarrow> json list \<Rightarrow> 'a list res" where
  "decode_list f [] = Inr []"
| "decode_list f (v # vs) =
     (case f v of Inl e \<Rightarrow> Inl e
      | Inr x \<Rightarrow> (case decode_list f vs of Inl e \<Rightarrow> Inl e | Inr xs \<Rightarrow> Inr (x # xs)))"

lemma decode_list_map:
  "(\<And>x. x \<in> set xs \<Longrightarrow> f (g x) = Inr x) \<Longrightarrow> decode_list f (map g xs) = Inr xs"
  by (induction xs) auto

record wipefsReport =
  Signatures :: "string list option"

definition signature_field :: "string \<Rightarrow> string \<Rightarrow> json \<Rightarrow> string res" where
  "signature_field acc k v = (if key_is k ''type'' then decode_string acc v else Inr acc)"

definition wipefs_field :: "wipefsReport \<Rightarrow> string \<Rightarrow> json \<Rightarrow> wipefsReport res" where
  "wipefs_field acc k v =
     (if key_is k ''signatures'' then
        (case v of
           JArr vs \<Rightarrow> (case decode_list (decode_struct signature_field '''') vs of
                         Inl e \<Rightarrow> Inl e | Inr ts \<Rightarrow> Inr (acc\<lparr>Signatures := Some ts\<rparr>))
         | JNull \<Rightarrow> Inr (acc\<lparr>Signatures := None\<rparr>)
         | _ \<Rightarrow> Inl (JsonErr ''cannot unmarshal into slice''))
      else Inr acc)"

definition parse_wipefs :: "string \<Rightarrow> wipefsReport res" where
  "parse_wipefs out =
     (case json_parse out of
        None \<Rightarrow> Inl (JsonErr ''invalid JSON'')
      | Some v \<Rightarrow> decode_struct wipefs_field \<lparr>Signatures = None\<rparr> v)"

subsection \<open>Probing\<close>

definition getFilesystemTypeFromWipefs :: "'w host \<Rightarrow> executor \<Rightarrow> string \<Rightarrow> ('w, string res) op" where
  "getFilesystemTypeFromWipefs H ex lvPath = do {
     (out, err) \<leftarrow> Execute H ex ''wipefs'' [''--no-act'', ''--json'', ''--output'', ''TYPE'', lvPath];
     State_Monad.return
       (case err of
          Some e \<Rightarrow> Inl (Errorf ''unable to confirm filesystem signatures for %q with wipefs: %w'' [lvPath] (Some (CmdErr e)))
        | None \<Rightarrow>
            (case parse_wipefs out of
               Inl e \<Rightarrow> Inl (Errorf ''unable to parse wipefs output for %q: %w'' [lvPath] (Some e))
             | Inr report \<Rightarrow>
                 (case Signatures report of
                    None \<Rightarrow> Inl (Errorf ''wipefs output for %q does not contain a signatures array'' [lvPath] None)
                  | Some sigs \<Rightarrow>
                      if length sigs = 0 then Inr ''''
                      else if length sigs \<noteq> 1 then
                        Inl (Errorf ''ambiguous filesystem signatures detected on %q by wipefs: found %d signatures''
                               [lvPath, show_nat (length sigs)] None)
                      else (let fsType = TrimSpace (sigs ! 0)
                            in if fsType = '''' then
                                 Inl (Errorf ''wipefs reported a signature without a type for %q'' [lvPath] None)
                               else Inr fsType))))
   }"

definition commandExitCode :: "cmd_error \<Rightarrow> int \<times> bool" where
  "commandExitCode e = (case ce_exit e of None \<Rightarrow> (0, False) | Some c \<Rightarrow> (c, True))"

definition getFilesystemType :: "'w host \<Rightarrow> executor \<Rightarrow> string \<Rightarrow> ('w, string res) op" where
  "getFilesystemType H ex lvPath = do {
     (out, err) \<leftarrow> Execute H ex ''blkid'' [''-p'', ''-s'', ''TYPE'', ''-o'', ''value'', lvPath];
     (case err of
        None \<Rightarrow>
          (let fsType = TrimSpace out
           in State_Monad.return
                (if fsType = '''' then
                   Inl (Errorf ''blkid succeeded but returned no filesystem type for %q'' [lvPath] None)
                 else Inr fsType))
      | Some e \<Rightarrow>
          (case commandExitCode e of (exitCode, ok) \<Rightarrow>
             if \<not> ok then
               State_Monad.return (Inl (Errorf ''unable to determine filesystem type for %q with blkid: %w'' [lvPath] (Some (CmdErr e))))
             else if exitCode = blkidExitNotFound then getFilesystemTypeFromWipefs H ex lvPath
             else if exitCode = blkidExitAmbiguous then
               State_Monad.return (Inl (Errorf ''ambiguous filesystem signatures detected on %q by blkid: %w'' [lvPath] (Some (CmdErr e))))
             else if exitCode = blkidExitOther then
               State_Monad.return (Inl (Errorf ''blkid failed to inspect %q: %w'' [lvPath] (Some (CmdErr e))))
             else
               State_Monad.return (Inl (Errorf ''blkid returned unexpected status %d for %q: %w'' [show_int exitCode, lvPath] (Some (CmdErr e))))))
   }"

subsection \<open>Formatting\<close>

definition defaultFilesystemType :: "string \<Rightarrow> string" where
  "defaultFilesystemType fsType = (if fsType = '''' then ''ext4'' else fsType)"

definition ensureFilesystem :: "'w host \<Rightarrow> executor \<Rightarrow> string \<Rightarrow> string \<Rightarrow> ('w, outerr) op" where
  "ensureFilesystem H ex lvPath fsType = do {
     r \<leftarrow> getFilesystemType H ex lvPath;
     (case r of
        Inl e \<Rightarrow> State_Monad.return ('''', Some e)
      | Inr existingFSType \<Rightarrow>
          if existingFSType \<noteq> '''' \<and> existingFSType \<noteq> fsType then
            State_Monad.return ('''', Some (Errorf ''target fsType is %q but %q found'' [fsType, existingFSType] None))
          else if existingFSType \<noteq> '''' then State_Monad.return ('''', None)
          else do {
            (out, err) \<leftarrow> Execute H ex (''mkfs.'' @ fsType) [lvPath];
            State_Monad.return
              (case err of
                 Some e \<Rightarrow> (out, Some (Errorf ''unable to format lv:%q err:%w'' [lvPath] (Some (CmdErr e))))
               | None \<Rightarrow> (out, None))
          })
   }"

subsection \<open>Mount options\<close>

fun normalize_loop :: "bool \<Rightarrow> string list \<Rightarrow> string list \<Rightarrow> bool \<Rightarrow> string list \<times> bool" where
  "normalize_loop readOnly [] options hasReadOnly = (options, hasReadOnly)"
| "normalize_loop readOnly (x # xs) options hasReadOnly =
     (let option = TrimSpace x in
      if option = '''' \<or> readOnly \<and> option = ''rw'' then normalize_loop readOnly xs options hasReadOnly
      else normalize_loop readOnly xs (options @ [option]) (hasReadOnly \<or> option = ''ro''))"

definition normalizeMountOptions :: "string list \<Rightarrow> bool \<Rightarrow> string list" where
  "normalizeMountOptions values readOnly =
     (let (options, hasReadOnly) =
        normalize_loop readOnly (split_on CHR '','' (join '','' values)) [] False
      in if \<not> readOnly \<or> hasReadOnly then options else options @ [''ro''])"

definition buildFilesystemMountArgs ::
  "string \<Rightarrow> string \<Rightarrow> string \<Rightarrow> string list \<Rightarrow> bool \<Rightarrow> string list" where
  "buildFilesystemMountArgs lvPath mountPath fsType mountOptions readOnly =
     (let mountArgs = [''--make-shared'', ''-t'', fsType];
          options = normalizeMountOptions mountOptions readOnly;
          mountArgs = (if length options > 0 then mountArgs @ [''-o'', join '','' options] else mountArgs)
      in mountArgs @ [lvPath, mountPath])"

subsection \<open>Mounting a file system\<close>

definition validateExistingMount :: "'w host \<Rightarrow> executor \<Rightarrow> string \<Rightarrow> bool \<Rightarrow> ('w, check) op" where
  "validateExistingMount H ex mountPath readOnly = do {
     (out, err) \<leftarrow> Execute H ex ''findmnt''
        [''--noheadings'', ''--output'', ''OPTIONS'', ''--mountpoint'', mountPath];
     State_Monad.return
       (case err of
          Some e \<Rightarrow> Some (Errorf ''unable to verify mount: %w output:%s'' [out] (Some (CmdErr e)))
        | None \<Rightarrow>
            if \<not> readOnly then None
            else if ''ro'' \<in> set (split_on CHR '','' (TrimSpace out)) then None
            else Some (Errorf ''readonly was requested but existing mount options are %q'' [TrimSpace out] None))
   }"

definition already_mounted :: "string \<Rightarrow> cmd_error \<Rightarrow> bool" where
  "already_mounted out e = contains ''already mounted'' (ToLower (out @ '' '' @ ce_text e))"

definition performFilesystemMount ::
  "'w host \<Rightarrow> executor \<Rightarrow> string list \<Rightarrow> string \<Rightarrow> string \<Rightarrow> bool \<Rightarrow> ('w, outerr) op" where
  "performFilesystemMount H ex mountArgs lvPath mountPath readOnly = do {
     (out, err) \<leftarrow> Execute H ex ''mount'' mountArgs;
     (case err of
        None \<Rightarrow> State_Monad.return (out, None)
      | Some e \<Rightarrow>
          if \<not> already_mounted out e then
            State_Monad.return (out, Some (Errorf ''unable to mount %q to %q err:%w output:%s'' [lvPath, mountPath, out] (Some (CmdErr e))))
          else do {
            v \<leftarrow> validateExistingMount H ex mountPath readOnly;
            State_Monad.return
              (case v of
                 Some e' \<Rightarrow> (out, Some (Errorf ''existing mount at %q is incompatible: %w'' [mountPath] (Some e')))
               | None \<Rightarrow> (out, None))
          })
   }"

definition mountFilesystem ::
  "'w host \<Rightarrow> executor \<Rightarrow> string \<Rightarrow> string \<Rightarrow> string \<Rightarrow> string list \<Rightarrow> bool \<Rightarrow> ('w, outerr) op" where
  "mountFilesystem H ex lvPath mountPath fsType mountOptions readOnly = do {
     mk \<leftarrow> os_op ''MkdirAll'' (h_mkdir_all H) mountPath;
     (case mk of
        Some e \<Rightarrow> State_Monad.return ('''', Some (Errorf ''unable to create mount directory for lv:%q err:%w'' [lvPath] (Some (OsErr e))))
      | None \<Rightarrow> do {
          (out, err) \<leftarrow> performFilesystemMount H ex
             (buildFilesystemMountArgs lvPath mountPath fsType mountOptions readOnly) lvPath mountPath readOnly;
          (case err of
             Some e \<Rightarrow> State_Monad.return (out, Some e)
           | None \<Rightarrow>
               if readOnly then State_Monad.return ('''', None)
               else do {
                 ch \<leftarrow> os_op ''Chmod'' (h_chmod H) mountPath;
                 State_Monad.return
                   (case ch of
                      Some e \<Rightarrow> ('''', Some (Errorf ''unable to change permissions of volume mount %q err:%w'' [mountPath] (Some (OsErr e))))
                    | None \<Rightarrow> ('''', None))
               })
        })
   }"

definition mountLV ::
  "'w host \<Rightarrow> string \<Rightarrow> string \<Rightarrow> string \<Rightarrow> string \<Rightarrow> string list \<Rightarrow> bool \<Rightarrow> ('w, outerr) op" where
  "mountLV H lvname mountPath vgName fsType mountOptions readOnly = do {
     ex \<leftarrow> newCommandExecutor;
     (let lvPath = device_path vgName lvname; fsType = defaultFilesystemType fsType in do {
        (formatOutput, err) \<leftarrow> ensureFilesystem H ex lvPath fsType;
        (case err of
           Some e \<Rightarrow> State_Monad.return (formatOutput, Some e)
         | None \<Rightarrow> mountFilesystem H ex lvPath mountPath fsType mountOptions readOnly)
      })
   }"

subsection \<open>Unmounting\<close>

definition isUnmountComplete :: "string \<Rightarrow> cmd_error option \<Rightarrow> bool" where
  "isUnmountComplete output err =
     (case err of
        None \<Rightarrow> True
      | Some e \<Rightarrow>
          (let message = ToLower (output @ '' '' @ ce_text e)
           in contains ''not mounted'' message \<or> contains ''no mount point specified'' message))"

definition lazyUnmount :: "'w host \<Rightarrow> executor \<Rightarrow> string \<Rightarrow> ('w, check) op" where
  "lazyUnmount H ex targetPath = do {
     (out, err) \<leftarrow> Execute H ex ''umount'' [''--force'', ''--lazy'', targetPath];
     State_Monad.return
       (if isUnmountComplete out err then None
        else Some (Errorf ''unable to force lazy unmount %q: %w output:%s'' [targetPath, out] (map_option CmdErr err)))
   }"

definition timed_out :: "cmd_error option \<Rightarrow> bool" where
  "timed_out err = (case err of None \<Rightarrow> False | Some e \<Rightarrow> ce_timeout e)"

definition forceUnmount :: "'w host \<Rightarrow> executor \<Rightarrow> string \<Rightarrow> ('w, check) op" where
  "forceUnmount H ex targetPath = do {
     (out, err) \<leftarrow> Execute H ex ''umount'' [''--force'', targetPath];
     (if isUnmountComplete out err then State_Monad.return None
      else if \<not> timed_out err then
        State_Monad.return (Some (Errorf ''unable to force unmount %q: %w output:%s'' [targetPath, out] (map_option CmdErr err)))
      else lazyUnmount H ex targetPath)
   }"

definition unmountTarget :: "'w host \<Rightarrow> string \<Rightarrow> ('w, check) op" where
  "unmountTarget H targetPath = do {
     ex0 \<leftarrow> newUnmountExecutor;
     (let ex = SetTimeout unmountTimeout ex0 in do {
        (out, err) \<leftarrow> Execute H ex ''umount'' [targetPath];
        (if isUnmountComplete out err then State_Monad.return None
         else forceUnmount H ex targetPath)
      })
   }"

subsection \<open>Publishing a raw block device\<close>

definition validateExistingBindMountTarget :: "'w host \<Rightarrow> string \<Rightarrow> string \<Rightarrow> ('w, check) op" where
  "validateExistingBindMountTarget H lvName mountPath = do {
     info \<leftarrow> os_query (h_lstat H) mountPath;
     State_Monad.return
       (case info of
          Inl e \<Rightarrow> Some (Errorf ''unable to inspect mount target for lv:%q err:%w'' [lvName] (Some (OsErr e)))
        | Inr i \<Rightarrow>
            if fi_dir i \<or> fi_symlink i
            then Some (Errorf ''mount target for lv:%q must be a file'' [lvName] None)
            else None)
   }"

definition prepareBindMountTarget :: "'w host \<Rightarrow> string \<Rightarrow> string \<Rightarrow> ('w, check) op" where
  "prepareBindMountTarget H lvName mountPath = do {
     created \<leftarrow> os_op ''OpenFile'' (h_create_excl H) mountPath;
     (case created of
        Some OsExist \<Rightarrow> validateExistingBindMountTarget H lvName mountPath
      | Some e \<Rightarrow> State_Monad.return (Some (Errorf ''unable to create mount target for lv:%q err:%w'' [lvName] (Some (OsErr e))))
      | None \<Rightarrow> do {
          closed \<leftarrow> os_op ''Close'' (h_close H) mountPath;
          (case closed of
             Some e \<Rightarrow> State_Monad.return (Some (Errorf ''unable to close mount target for lv:%q err:%w'' [lvName] (Some (OsErr e))))
           | None \<Rightarrow> do {
               ch \<leftarrow> os_op ''Chmod'' (h_chmod H) mountPath;
               State_Monad.return
                 (case ch of
                    Some e \<Rightarrow> Some (Errorf ''unable to change permissions of volume mount %q err:%w'' [mountPath] (Some (OsErr e)))
                  | None \<Rightarrow> None)
             })
        })
   }"

definition performBindMount :: "'w host \<Rightarrow> executor \<Rightarrow> string \<Rightarrow> string \<Rightarrow> ('w, outerr) op" where
  "performBindMount H ex source target = do {
     (out, err) \<leftarrow> Execute H ex ''mount'' [''--make-shared'', ''--bind'', source, target];
     State_Monad.return
       (case err of
          None \<Rightarrow> (out, None)
        | Some e \<Rightarrow>
            if already_mounted out e then (out, None)
            else (out, Some (Errorf ''unable to mount %q to %q err:%w output:%s'' [source, target, out] (Some (CmdErr e)))))
   }"

definition remountBindReadOnly :: "'w host \<Rightarrow> executor \<Rightarrow> string \<Rightarrow> ('w, outerr) op" where
  "remountBindReadOnly H ex target = do {
     (out, err) \<leftarrow> Execute H ex ''mount'' [''-o'', ''remount,bind,ro'', target];
     (case err of
        None \<Rightarrow> State_Monad.return (out, None)
      | Some e \<Rightarrow> do {
          _ \<leftarrow> unmountTarget H target;
          State_Monad.return (out, Some (Errorf ''unable to remount %q read-only: %w output:%s'' [target, out] (Some (CmdErr e))))
        })
   }"

definition bindMountLV :: "'w host \<Rightarrow> string \<Rightarrow> string \<Rightarrow> string \<Rightarrow> bool \<Rightarrow> ('w, outerr) op" where
  "bindMountLV H lvname mountPath vgName readOnly = do {
     ex \<leftarrow> newCommandExecutor;
     (let lvPath = device_path vgName lvname in do {
        prep \<leftarrow> prepareBindMountTarget H lvname mountPath;
        (case prep of
           Some e \<Rightarrow> State_Monad.return ('''', Some e)
         | None \<Rightarrow> do {
             (out, err) \<leftarrow> performBindMount H ex lvPath mountPath;
             (case err of
                Some e \<Rightarrow> State_Monad.return (out, Some e)
              | None \<Rightarrow>
                  if readOnly then do {
                    (out', err') \<leftarrow> remountBindReadOnly H ex mountPath;
                    State_Monad.return (case err' of Some e \<Rightarrow> (out', Some e) | None \<Rightarrow> ('''', None))
                  }
                  else State_Monad.return ('''', None))
           })
      })
   }"

subsection \<open>Which commands the probes and mounts may run\<close>

definition is_mkfs :: "event \<Rightarrow> bool" where
  "is_mkfs e \<longleftrightarrow> (case e of ECmd c _ _ _ _ \<Rightarrow> prefix ''mkfs.'' c | EOs _ _ _ \<Rightarrow> False)"

lemma is_mkfs_simps [simp]:
  "is_mkfs (ECmd c a t out err) \<longleftrightarrow> prefix ''mkfs.'' c"
  "\<not> is_mkfs (EOs p q r)"
  by (simp_all add: is_mkfs_def)

lemma wipefs_op [op_intro]:
  "(\<And>a t out err. E (ECmd ''wipefs'' a t out err)) \<Longrightarrow> keeps (logs E) (getFilesystemTypeFromWipefs H ex lvPath)"
  unfolding getFilesystemTypeFromWipefs_def by (intro op_intro)

lemma getFilesystemType_op [op_intro]:
  assumes "\<And>a t out err. E (ECmd ''blkid'' a t out err)" and "\<And>a t out err. E (ECmd ''wipefs'' a t out err)"
  shows "keeps (logs E) (getFilesystemType H ex lvPath)"
  unfolding getFilesystemType_def Let_def by (intro op_intro assms)

lemma validateExistingMount_op [op_intro]:
  assumes "\<And>a t out err. E (ECmd ''findmnt'' a t out err)"
  shows "keeps (logs E) (validateExistingMount H ex mountPath readOnly)"
  unfolding validateExistingMount_def by (intro op_intro assms)

lemma mountFilesystem_op [op_intro]:
  assumes "\<And>a t out err. E (ECmd ''findmnt'' a t out err)" and "\<And>a t out err. E (ECmd ''mount'' a t out err)"
    and "\<And>n p r. E (EOs n p r)"
  shows "keeps (logs E) (mountFilesystem H ex lvPath mountPath fsType mountOptions readOnly)"
  unfolding mountFilesystem_def performFilesystemMount_def by (intro op_intro assms)

subsection \<open>A device with a signature is never formatted\<close>

text \<open>
  What is relied on of the tools: \<open>sigs w dev\<close> are the signatures on a device in a world; \<open>blkid -p\<close>
  does not change them, and a \<open>wipefs --no-act --json\<close> that succeeds lists all of them.
\<close>

definition probes_faithful :: "'w host \<Rightarrow> ('w \<Rightarrow> string \<Rightarrow> string list) \<Rightarrow> bool" where
  "probes_faithful H sigs \<longleftrightarrow>
     (\<forall>t dev w d. sigs (snd (h_exec H t ''blkid'' [''-p'', ''-s'', ''TYPE'', ''-o'', ''value'', dev] w)) d = sigs w d)
   \<and> (\<forall>t dev w out w' r.
        h_exec H t ''wipefs'' [''--no-act'', ''--json'', ''--output'', ''TYPE'', dev] w = ((out, None), w') \<longrightarrow>
        parse_wipefs out = Inr r \<longrightarrow> Signatures r = Some (sigs w dev))"

lemma wipefs_blank:
  assumes "run_state (getFilesystemTypeFromWipefs H ex lvPath) s = (Inr '''', t)"
    and "probes_faithful H sigs"
  shows "sigs (s_world s) lvPath = []"
proof -
  let ?args = "[''--no-act'', ''--json'', ''--output'', ''TYPE'', lvPath]"
  obtain out err where x: "exec_of H ex ''wipefs'' ?args s = (out, err)" by force
  with assms(1) obtain r where r: "err = None" "parse_wipefs out = Inr r" "Signatures r = Some []"
    by (auto simp: getFilesystemTypeFromWipefs_def run_simps Let_def
        split: option.splits sum.splits if_splits)
  with x obtain w' where "h_exec H (cmdTimeout ex) ''wipefs'' ?args (s_world s) = ((out, None), w')"
    unfolding exec_of_def by (metis prod.collapse)
  with assms(2) r have "Signatures r = Some (sigs (s_world s) lvPath)"
    unfolding probes_faithful_def by blast
  with r show ?thesis by simp
qed

lemma getFilesystemType_blank:
  assumes "run_state (getFilesystemType H ex lvPath) s = (Inr '''', t)"
    and "probes_faithful H sigs"
  shows "sigs (s_world s) lvPath = []"
proof -
  let ?args = "[''-p'', ''-s'', ''TYPE'', ''-o'', ''value'', lvPath]"
  obtain out err where x: "exec_of H ex ''blkid'' ?args s = (out, err)" by force
  with assms(1) have "run_state (getFilesystemTypeFromWipefs H ex lvPath) (after H ex ''blkid'' ?args s) = (Inr '''', t)"
    by (auto simp: getFilesystemType_def run_simps Let_def split: option.splits prod.splits if_splits)
  then have "sigs (s_world (after H ex ''blkid'' ?args s)) lvPath = []"
    using assms(2) by (rule wipefs_blank)
  with assms(2) show ?thesis by (simp add: probes_faithful_def)
qed

lemma ensureFilesystem_keeps_signed:
  assumes "probes_faithful H sigs" and "sigs (s_world s) lvPath \<noteq> []"
  shows "logs (\<lambda>e. \<not> is_mkfs e) s (snd (run_state (ensureFilesystem H ex lvPath fsType) s))"
proof -
  obtain r t where g: "run_state (getFilesystemType H ex lvPath) s = (r, t)" by force
  have "r \<noteq> Inr ''''" using g assms by (auto dest: getFilesystemType_blank)
  then have "snd (run_state (ensureFilesystem H ex lvPath fsType) s) = t"
    using g by (auto simp: ensureFilesystem_def split: sum.splits)
  moreover have "keeps (logs (\<lambda>e. \<not> is_mkfs e)) (getFilesystemType H ex lvPath)"
    by (intro op_intro) simp_all
  ultimately show ?thesis using g by (auto dest: keepsD)
qed

lemma mountLV_keeps_signed:
  assumes "probes_faithful H sigs" and "sigs (s_world s) (device_path vgName lvname) \<noteq> []"
  shows "logs (\<lambda>e. \<not> is_mkfs e) s
           (snd (run_state (mountLV H lvname mountPath vgName fsType mountOptions readOnly) s))"
proof -
  let ?E = "logs (\<lambda>e. \<not> is_mkfs e)"
  let ?dev = "device_path vgName lvname" and ?fs = "defaultFilesystemType fsType"
  obtain out err t where e: "run_state (ensureFilesystem H (cmd_ex s) ?dev ?fs) s = ((out, err), t)"
    by (metis prod.collapse)
  have "?E s t" using ensureFilesystem_keeps_signed [OF assms, of "cmd_ex s" ?fs] e by simp
  moreover have "keeps ?E (mountFilesystem H (cmd_ex s) ?dev mountPath ?fs mountOptions readOnly)"
    by (intro op_intro) simp_all
  then have "?E t (snd (run_state (mountFilesystem H (cmd_ex s) ?dev mountPath ?fs mountOptions readOnly) t))"
    by (rule keepsD')
  ultimately show ?thesis
    using e logs_trans [of "\<lambda>e. \<not> is_mkfs e"]
    by (auto simp: mountLV_def run_simps Let_def split: option.splits dest: transpD)
qed

text \<open>
  C23 (data safety): if a logical volume carries any signature, publishing it as a file system never
  runs a \<open>mkfs.*\<close> command, whatever the probes, the mount command and the file system answer.
\<close>

theorem mountLV_never_formats_signed:
  assumes "probes_faithful H sigs" and "sigs (s_world s) (device_path vgName lvname) \<noteq> []"
  shows "logs (\<lambda>e. \<not> is_mkfs e) s
           (snd (run_state (mountLV H lvname mountPath vgName fsType mountOptions readOnly) s))"
  using assms by (rule mountLV_keeps_signed)

definition print_wipefs :: "string list \<Rightarrow> string" where
  "print_wipefs ts =
     json_print (JObj [(''signatures'', JArr (map (\<lambda>t. JObj [(''type'', JStr t)]) ts))])"

lemma key_is_wipefs: "key_is ''type'' ''type''" "key_is ''signatures'' ''signatures''"
  by (simp_all add: key_is_def lower_char_def)

lemma parse_print_wipefs: "parse_wipefs (print_wipefs ts) = Inr \<lparr>Signatures = Some ts\<rparr>"
proof -
  have "decode_list (decode_struct signature_field '''') (map (\<lambda>t. JObj [(''type'', JStr t)]) ts) = Inr ts"
    by (rule decode_list_map)
      (simp add: decode_struct_def signature_field_def key_is_wipefs decode_string_def)
  then show ?thesis
    by (simp add: parse_wipefs_def print_wipefs_def json_parse_print list_all_iff
        decode_struct_def wipefs_field_def key_is_wipefs)
qed

text \<open>A host with one table of signatures: \<open>wipefs\<close> prints it, \<open>blkid\<close> finds nothing.\<close>

definition sig_exec ::
  "int \<Rightarrow> string \<Rightarrow> string list \<Rightarrow> (string \<Rightarrow> string list) \<Rightarrow> (string \<times> cmd_error option) \<times> (string \<Rightarrow> string list)" where
  "sig_exec t c args w =
     (if c = ''wipefs'' then ((print_wipefs (w (last args)), None), w)
      else if c = ''blkid'' then (('''', Some (exit_error 2)), w)
      else (('''', None), w))"

lemma sig_exec_faithful: "probes_faithful (quiet_host sig_exec) (\<lambda>w. w)"
  by (auto simp: probes_faithful_def quiet_host_def sig_exec_def parse_print_wipefs)

theorem mountLV_never_formats_signed_witness:
  "logs (\<lambda>e. \<not> is_mkfs e) (start (\<lambda>_. [''xfs'']))
     (snd (run_state (mountLV (quiet_host sig_exec) ''pvc-1'' ''/t'' ''vg'' ''ext4'' [] False)
            (start (\<lambda>_. [''xfs'']))))"
  by (rule mountLV_never_formats_signed [OF sig_exec_faithful]) (simp add: start_def)

subsection \<open>Mount options\<close>

lemma normalize_loop_filter:
  "normalize_loop readOnly xs options seen =
     (let kept = filter (\<lambda>x. x \<noteq> '''' \<and> \<not> (readOnly \<and> x = ''rw'')) (map TrimSpace xs)
      in (options @ kept, seen \<or> ''ro'' \<in> set kept))"
  by (induction xs arbitrary: options seen) (auto simp: Let_def)

definition cut_options :: "string list \<Rightarrow> string list" where
  "cut_options values = filter (\<lambda>x. x \<noteq> '''') (map TrimSpace (split_on CHR '','' (join '','' values)))"

lemma normalizeMountOptions_eq:
  "normalizeMountOptions values readOnly =
     (if readOnly then
        (let kept = filter (\<lambda>x. x \<noteq> ''rw'') (cut_options values)
         in if ''ro'' \<in> set kept then kept else kept @ [''ro''])
      else cut_options values)"
  by (simp add: normalizeMountOptions_def normalize_loop_filter cut_options_def Let_def
      filter_filter conj_commute)

lemma cut_options_clean:
  assumes "x \<in> set (cut_options values)"
  shows "x \<noteq> ''''" and "CHR '','' \<notin> set x" and "TrimSpace x = x"
proof -
  from assms obtain y where y: "y \<in> set (split_on CHR '','' (join '','' values))" "x = TrimSpace y" "x \<noteq> ''''"
    by (auto simp: cut_options_def)
  show "x \<noteq> ''''" by (rule y)
  show "TrimSpace x = x" using y by (simp add: TrimSpace_idem)
  have "CHR '','' \<notin> set y" using y(1) by (rule split_on_no_sep)
  then show "CHR '','' \<notin> set x" using y(2) TrimSpace_subset by blast
qed

lemma cut_options_fixed:
  assumes "\<forall>x \<in> set xs. x \<noteq> '''' \<and> CHR '','' \<notin> set x \<and> TrimSpace x = x"
  shows "cut_options xs = xs"
proof (cases "xs = []")
  case True
  have "TrimSpace '''' = ''''" using TrimSpace_subset [of "''''"] by simp
  with True show ?thesis by (simp add: cut_options_def)
next
  case False
  then have "split_on CHR '','' (join '','' xs) = xs" using assms by (intro split_on_join) auto
  moreover have "map TrimSpace xs = xs" using assms by (simp add: map_idI)
  ultimately show ?thesis using assms by (auto simp: cut_options_def intro: filter_True)
qed

lemma TrimSpace_ro: "TrimSpace ''ro'' = ''ro''"
  by code_simp

lemma normalize_clean:
  assumes "x \<in> set (normalizeMountOptions values readOnly)"
  shows "x \<noteq> '''' \<and> CHR '','' \<notin> set x \<and> TrimSpace x = x"
  using assms cut_options_clean
  by (auto simp: normalizeMountOptions_eq Let_def TrimSpace_ro split: if_splits)

text \<open>
  The options given to mount(8) contain no empty option and no embedded comma; a read-only
  publication always carries \<open>ro\<close> and never \<open>rw\<close>, a writable one adds nothing of its own; and
  normalising twice changes nothing.
\<close>

lemma normalizeMountOptions_correct:
  "(\<forall>x. x \<in> set (normalizeMountOptions values readOnly) \<longrightarrow> x \<noteq> '''' \<and> CHR '','' \<notin> set x)
   \<and> (readOnly \<longrightarrow> ''ro'' \<in> set (normalizeMountOptions values readOnly)
                \<and> ''rw'' \<notin> set (normalizeMountOptions values readOnly))
   \<and> (\<not> readOnly \<longrightarrow> set (normalizeMountOptions values readOnly) = set (cut_options values))
   \<and> normalizeMountOptions (normalizeMountOptions values readOnly) readOnly
       = normalizeMountOptions values readOnly"
proof -
  let ?n = "normalizeMountOptions values readOnly"
  have "cut_options ?n = ?n" by (rule cut_options_fixed) (use normalize_clean in blast)
  then have "normalizeMountOptions ?n readOnly = ?n"
    by (subst normalizeMountOptions_eq) (auto simp: normalizeMountOptions_eq Let_def filter_id_conv)
  with normalize_clean show ?thesis by (auto simp: normalizeMountOptions_eq Let_def)
qed

lemma normalizeMountOptions_correct_example:
  "normalizeMountOptions [''noatime,rw'', '' discard ''] True = [''noatime'', ''discard'', ''ro'']
   \<and> ''ro'' \<in> set (normalizeMountOptions [''noatime,rw'', '' discard ''] True)"
proof -
  have "normalizeMountOptions [''noatime,rw'', '' discard ''] True = [''noatime'', ''discard'', ''ro'']"
    by code_simp
  then show ?thesis
    using normalizeMountOptions_correct [of "[''noatime,rw'', '' discard '']" True] by simp
qed

subsection \<open>Unmounting\<close>

definition umount_args :: "string \<Rightarrow> string list list" where
  "umount_args target = [[target], [''--force'', target], [''--force'', ''--lazy'', target]]"

definition umount_ex :: executor where
  "umount_ex = \<lparr>cmdTimeout = unmountTimeout\<rparr>"

lemma umount_ex_eq: "SetTimeout unmountTimeout NewExecutor = umount_ex"
  by (simp add: SetTimeout_def NewExecutor_def umount_ex_def)

lemma run_unmountTarget:
  "run_state (unmountTarget H target) s =
     (let e1 = exec_of H umount_ex ''umount'' [target] s;
          s1 = after H umount_ex ''umount'' [target] s;
          e2 = exec_of H umount_ex ''umount'' [''--force'', target] s1;
          s2 = after H umount_ex ''umount'' [''--force'', target] s1;
          e3 = exec_of H umount_ex ''umount'' [''--force'', ''--lazy'', target] s2;
          s3 = after H umount_ex ''umount'' [''--force'', ''--lazy'', target] s2
      in if isUnmountComplete (fst e1) (snd e1) then (None, s1)
         else if isUnmountComplete (fst e2) (snd e2) then (None, s2)
         else if \<not> timed_out (snd e2)
           then (Some (Errorf ''unable to force unmount %q: %w output:%s'' [target, fst e2] (map_option CmdErr (snd e2))), s2)
         else if isUnmountComplete (fst e3) (snd e3) then (None, s3)
         else (Some (Errorf ''unable to force lazy unmount %q: %w output:%s'' [target, fst e3] (map_option CmdErr (snd e3))), s3))"
  by (simp add: unmountTarget_def forceUnmount_def lazyUnmount_def run_simps umount_ex_eq Let_def
      case_prod_beta)

text \<open>
  C25: an unmount runs at most three \<open>umount\<close> commands, plain, forced, forced and lazy, in this
  order and each with the thirty-second timeout; the next is tried only when the one before did
  not complete, the lazy one only when the forced one timed out; and the operation succeeds
  exactly when the last command run completed.
\<close>

theorem unmountTarget_escalates:
  assumes "run_state (unmountTarget H target) s = (r, t)"
  shows "\<exists>evs. s_log t = s_log s @ evs \<and> evs \<noteq> [] \<and> list_all (ran ''umount'') evs
    \<and> map ev_args evs = take (length evs) (umount_args target)
    \<and> list_all (\<lambda>e. ev_timeout e = 30 * second) evs
    \<and> list_all (\<lambda>e. \<not> isUnmountComplete (ev_out e) (ev_err e)) (butlast evs)
    \<and> (length evs = 3 \<longrightarrow> timed_out (ev_err (evs ! 1)))
    \<and> (r = None \<longleftrightarrow> isUnmountComplete (ev_out (last evs)) (ev_err (last evs)))"
proof -
  let ?s1 = "after H umount_ex ''umount'' [target] s"
  let ?e1 = "exec_of H umount_ex ''umount'' [target] s"
  let ?e2 = "exec_of H umount_ex ''umount'' [''--force'', target] ?s1"
  let ?done = "\<lambda>e. isUnmountComplete (fst e) (snd e)"
  note run = assms [unfolded run_unmountTarget Let_def]
  consider (one) "?done ?e1" | (two) "\<not> ?done ?e1" "?done ?e2 \<or> \<not> timed_out (snd ?e2)"
    | (three) "\<not> ?done ?e1" "\<not> ?done ?e2" "timed_out (snd ?e2)" by blast
  then show ?thesis
  proof cases
    case one
    with run show ?thesis by (auto simp: umount_ex_def unmountTimeout_def umount_args_def)
  next
    case two
    with run show ?thesis
      by (auto simp: umount_ex_def unmountTimeout_def umount_args_def split: if_splits)
  next
    case three
    with run show ?thesis
      by (auto simp: umount_ex_def unmountTimeout_def umount_args_def split: if_splits)
  qed
qed

lemma unmount_starts:
  assumes "run_state (unmountTarget H target) s = (r, t)"
  shows "\<exists>u us. s_log t = s_log s @ u # us \<and> ran ''umount'' u \<and> ev_args u = [target] \<and> list_all (ran ''umount'') us"
  using assms unfolding run_unmountTarget Let_def by (auto split: if_splits)

text \<open>A host whose forced unmount hangs until the timeout and whose lazy unmount succeeds.\<close>

definition busy_exec :: "int \<Rightarrow> string \<Rightarrow> string list \<Rightarrow> unit \<Rightarrow> (string \<times> cmd_error option) \<times> unit" where
  "busy_exec t c args w =
     (('''', if ''--lazy'' \<in> set args then None
             else if ''--force'' \<in> set args then Some timeout_error
             else Some (exit_error 32)), w)"

lemma isUnmountComplete_errors [simp]:
  "\<not> isUnmountComplete '''' (Some (exit_error 32))"
  "\<not> isUnmountComplete '''' (Some timeout_error)"
  "isUnmountComplete out None"
  "ce_timeout timeout_error"
  by (simp_all add: isUnmountComplete_def exit_error_def timeout_error_def lower_char_def)

theorem unmountTarget_escalates_witness:
  "\<exists>evs. s_log (snd (run_state (unmountTarget (quiet_host busy_exec) ''/t'') (start ()))) = evs
    \<and> map ev_args evs = [[''/t''], [''--force'', ''/t''], [''--force'', ''--lazy'', ''/t'']]
    \<and> timed_out (ev_err (evs ! 1))"
proof -
  obtain r t where run: "run_state (unmountTarget (quiet_host busy_exec) ''/t'') (start ()) = (r, t)"
    by force
  from unmountTarget_escalates [OF run] obtain evs where
    evs: "s_log t = s_log (start ()) @ evs" "map ev_args evs = take (length evs) (umount_args ''/t'')"
      "length evs = 3 \<longrightarrow> timed_out (ev_err (evs ! 1))" by blast
  have "length (s_log t) = 3"
    using run [symmetric]
    by (simp add: run_unmountTarget Let_def exec_of_def quiet_host_def busy_exec_def timed_out_def
        start_def)
  with evs have "length evs = 3" and "s_log t = evs" by (simp_all add: start_def)
  with evs run show ?thesis by (auto simp: umount_args_def)
qed

subsection \<open>Read-only block volumes\<close>

definition remount_args :: "string \<Rightarrow> string list" where
  "remount_args target = [''-o'', ''remount,bind,ro'', target]"

lemma prepareBindMountTarget_op:
  "keeps (logs (\<lambda>e. \<not> ran ''mount'' e)) (prepareBindMountTarget H lvName mountPath)"
  unfolding prepareBindMountTarget_def validateExistingBindMountTarget_def
  by (auto intro!: op_intro split: option.split os_error.split)

lemma bindMountLV_runs:
  assumes "run_state (bindMountLV H lvname mountPath vgName True) s = ((out, err), t)"
  obtains (early) "err \<noteq> None" "logs (\<lambda>e. \<not> (ran ''mount'' e \<and> ev_args e = remount_args mountPath)) s t"
  | (remount) s1 o' e' where "logs (\<lambda>e. \<not> (ran ''mount'' e \<and> ev_args e = remount_args mountPath)) s s1"
      "exec_of H (cmd_ex s) ''mount'' (remount_args mountPath) s1 = (o', e')"
      "err = None \<longleftrightarrow> e' = None"
      "t = (if e' = None then after H (cmd_ex s) ''mount'' (remount_args mountPath) s1
            else snd (run_state (unmountTarget H mountPath)
                        (after H (cmd_ex s) ''mount'' (remount_args mountPath) s1)))"
proof -
  let ?E = "\<lambda>e. \<not> (ran ''mount'' e \<and> ev_args e = remount_args mountPath)"
  obtain p s0 where p: "run_state (prepareBindMountTarget H lvname mountPath) s = (p, s0)" by force
  have "logs (\<lambda>e. \<not> ran ''mount'' e) s s0" by (rule keepsD [OF prepareBindMountTarget_op p])
  then have l0: "logs ?E s s0" by (rule logs_mono) simp
  let ?args = "[''--make-shared'', ''--bind'', device_path vgName lvname, mountPath]"
  let ?s1 = "after H (cmd_ex s) ''mount'' ?args s0"
  have l1: "logs ?E s ?s1"
    using l0 by (auto simp: logs_def remount_args_def)
  obtain o1 e1 where x: "exec_of H (cmd_ex s) ''mount'' ?args s0 = (o1, e1)" by force
  obtain o2 e2 where y: "exec_of H (cmd_ex s) ''mount'' (remount_args mountPath) ?s1 = (o2, e2)" by force
  show thesis
  proof (cases "p = None \<and> (e1 = None \<or> already_mounted o1 (the e1))")
    case False
    then have "err \<noteq> None \<and> (t = s0 \<or> t = ?s1)" using assms p x
      by (auto simp: bindMountLV_def performBindMount_def run_simps Let_def split: option.splits if_splits)
    with l0 l1 early show thesis by blast
  next
    case True
    then have "(err = None \<longleftrightarrow> e2 = None) \<and>
        t = (if e2 = None then after H (cmd_ex s) ''mount'' (remount_args mountPath) ?s1
            else snd (run_state (unmountTarget H mountPath)
                        (after H (cmd_ex s) ''mount'' (remount_args mountPath) ?s1)))"
      using assms p x y
      by (auto simp: bindMountLV_def performBindMount_def remountBindReadOnly_def run_simps Let_def
          remount_args_def case_prod_beta split: option.splits if_splits)
    with l1 y remount show thesis by blast
  qed
qed

text \<open>
  C24: a read-only block publication that succeeds ends with a successful read-only remount; and a
  remount that fails is reported and is followed at once by an unmount of the target, so that no
  writable device is left published.
\<close>

theorem bindMountLV_read_only:
  assumes "run_state (bindMountLV H lvname mountPath vgName True) s = ((out, err), t)"
  shows "\<exists>evs. s_log t = s_log s @ evs
    \<and> (err = None \<longrightarrow> (\<exists>pre o'. evs = pre @ [ECmd ''mount'' (remount_args mountPath) (s_cmdTimeout s) o' None]))
    \<and> (\<forall>i < length evs. ran ''mount'' (evs ! i) \<and> ev_args (evs ! i) = remount_args mountPath
          \<and> ev_err (evs ! i) \<noteq> None \<longrightarrow>
         err \<noteq> None \<and> Suc i < length evs \<and> ran ''umount'' (evs ! Suc i) \<and> ev_args (evs ! Suc i) = [mountPath])"
  using assms
proof (cases rule: bindMountLV_runs)
  case early
  then show ?thesis by (fastforce simp: logs_def list_all_length)
next
  case (remount s1 o' e')
  let ?X = "ECmd ''mount'' (remount_args mountPath) (s_cmdTimeout s) o' e'"
  let ?s2 = "after H (cmd_ex s) ''mount'' (remount_args mountPath) s1"
  obtain pre where pre: "s_log s1 = s_log s @ pre"
      "list_all (\<lambda>e. \<not> (ran ''mount'' e \<and> ev_args e = remount_args mountPath)) pre"
    using remount(1) by (auto simp: logs_def)
  have s2: "s_log ?s2 = s_log s @ pre @ [?X]" using remount(2) pre(1) by (simp add: cmd_ex_def)
  show ?thesis
  proof (cases e')
    case None
    with remount s2 pre(2) show ?thesis
      by (intro exI [of _ "pre @ [?X]"]) (auto simp: nth_append list_all_length)
  next
    case (Some e)
    obtain r where u: "run_state (unmountTarget H mountPath) ?s2 = (r, t)"
      using remount(4) Some by (metis option.distinct(1) prod.collapse)
    from unmount_starts [OF u] obtain u0 us' where u0: "s_log t = s_log ?s2 @ u0 # us'"
      and hd: "ran ''umount'' u0" "ev_args u0 = [mountPath]" and "list_all (ran ''umount'') us'" by blast
    define us where "us = u0 # us'"
    have us: "s_log t = s_log ?s2 @ us" "list_all (ran ''umount'') us"
      using u0 hd \<open>list_all (ran ''umount'') us'\<close> by (simp_all add: us_def)
    have tail: "list_all (\<lambda>e. \<not> ran ''mount'' e) us"
      using us(2) by (auto simp: list_all_iff ran_def split: event.splits)
    from remount(3) Some have err: "err \<noteq> None" by simp
    let ?P = "\<lambda>e. ran ''mount'' e \<and> ev_args e = remount_args mountPath"
    let ?evs = "pre @ ?X # us"
    have "i = length pre" if "i < length ?evs" "?P (?evs ! i)" for i
      using nth_middle_unique [of ?P pre us i ?X] pre(2) tail that by (auto simp: list_all_iff)
    moreover have "?evs ! Suc (length pre) = u0" by (simp add: us_def nth_append)
    moreover have "Suc (length pre) < length ?evs" by (simp add: us_def)
    moreover have "s_log t = s_log s @ ?evs" using us(1) s2 by simp
    ultimately show ?thesis using err hd by (intro exI [of _ ?evs]) metis
  qed
qed

text \<open>A host that refuses read-only remounts.\<close>

definition rw_exec :: "int \<Rightarrow> string \<Rightarrow> string list \<Rightarrow> unit \<Rightarrow> (string \<times> cmd_error option) \<times> unit" where
  "rw_exec t c args w =
     (('''', if ''remount,bind,ro'' \<in> set args then Some (exit_error 32) else None), w)"

theorem bindMountLV_read_only_witness:
  "\<exists>out err t. run_state (bindMountLV (quiet_host rw_exec) ''pvc-1'' ''/t'' ''vg'' True) (start ()) = ((out, err), t)
     \<and> ev_err (s_log t ! 4) \<noteq> None \<and> err \<noteq> None \<and> ran ''umount'' (s_log t ! 5) \<and> ev_args (s_log t ! 5) = [''/t'']"
proof -
  obtain out err t where
    run: "run_state (bindMountLV (quiet_host rw_exec) ''pvc-1'' ''/t'' ''vg'' True) (start ()) = ((out, err), t)"
    by (metis prod.collapse)
  then have log: "length (s_log t) = 6" "s_log t ! 4 =
      ECmd ''mount'' (remount_args ''/t'') (s_cmdTimeout (start ())) '''' (Some (exit_error 32))"
    by (auto simp: bindMountLV_def prepareBindMountTarget_def performBindMount_def
        remountBindReadOnly_def run_unmountTarget run_simps Let_def exec_of_def quiet_host_def
        rw_exec_def start_def remount_args_def cmd_ex_def device_path_def)
  have "s_log (start ()) = []" by (simp add: start_def)
  with bindMountLV_read_only [OF run] obtain evs where evs: "s_log t = evs"
    "\<forall>i < length evs. ran ''mount'' (evs ! i) \<and> ev_args (evs ! i) = remount_args ''/t''
          \<and> ev_err (evs ! i) \<noteq> None \<longrightarrow>
         err \<noteq> None \<and> Suc i < length evs \<and> ran ''umount'' (evs ! Suc i) \<and> ev_args (evs ! Suc i) = [''/t'']"
    by auto
  from evs(2) [rule_format, of 4] evs(1) log have
    "err \<noteq> None \<and> ran ''umount'' (s_log t ! 5) \<and> ev_args (s_log t ! 5) = [''/t'']" by simp
  with run log show ?thesis by auto
qed

end
