(* ===== verification/Volumes.thy ===== *)
theory Volumes
  imports Mounts
begin

section \<open>Volume groups, logical volumes and snapshots (lvm.go, second half)\<close>

text \<open>
  The operations the helper processes and the node plugin run on LVM: discovering and activating
  volume groups, creating, extending and removing logical volumes, the thin pool of a volume group
  and its rollback after a timed-out creation, snapshots.  The inventory comes from one
  \<open>lvs\<close> report in JSON (\<open>listLogicalVolumes\<close>); all commands are runs of the host parameter.
\<close>

definition ThinVolType :: string where "ThinVolType = ''thin''"
definition ThinPoolType :: string where "ThinPoolType = ''thin-pool''"
definition LinearType :: string where "LinearType = ''linear''"
definition StripedType :: string where "StripedType = ''striped''"
definition DmThinType :: string where "DmThinType = ''dm-thin''"
definition thinPoolDataExtents :: string where "thinPoolDataExtents = ''90%FREE''"
definition thinPoolChunkSize :: string where "thinPoolChunkSize = ''512K''"
definition thinPoolMetadataSize :: string where "thinPoolMetadataSize = ''16G''"

lemmas lvm_types = ThinVolType_def ThinPoolType_def LinearType_def StripedType_def DmThinType_def

subsection \<open>The lvs report\<close>

record logicalVolume =
  lv_name :: string
  vg_name :: string
  lv_size :: string
  segtype :: string
  origin :: string

definition zero_volume :: logicalVolume where
  "zero_volume = \<lparr>lv_name = '''', vg_name = '''', lv_size = '''', segtype = '''', origin = ''''\<rparr>"

definition set_string :: "(string \<Rightarrow> 's \<Rightarrow> 's) \<Rightarrow> string \<Rightarrow> 's \<Rightarrow> json \<Rightarrow> 's res" where
  "set_string upd old acc v = (case decode_string old v of Inl e \<Rightarrow> Inl e | Inr x \<Rightarrow> Inr (upd x acc))"

definition volume_field :: "logicalVolume \<Rightarrow> string \<Rightarrow> json \<Rightarrow> logicalVolume res" where
  "volume_field acc k v =
     (if key_is k ''lv_name'' then set_string (\<lambda>x. lv_name_update (\<lambda>_. x)) (lv_name acc) acc v
      else if key_is k ''vg_name'' then set_string (\<lambda>x. vg_name_update (\<lambda>_. x)) (vg_name acc) acc v
      else if key_is k ''lv_size'' then set_string (\<lambda>x. lv_size_update (\<lambda>_. x)) (lv_size acc) acc v
      else if key_is k ''segtype'' then set_string (\<lambda>x. segtype_update (\<lambda>_. x)) (segtype acc) acc v
      else if key_is k ''origin'' then set_string (\<lambda>x. origin_update (\<lambda>_. x)) (origin acc) acc v
      else Inr acc)"

text \<open>A slice field: an array replaces it, \<open>null\<close> makes it nil, anything else is an error.\<close>

definition decode_slice :: "(json \<Rightarrow> 'a res) \<Rightarrow> json \<Rightarrow> 'a list res" where
  "decode_slice f v =
     (case v of
        JArr vs \<Rightarrow> decode_list f vs
      | JNull \<Rightarrow> Inr []
      | _ \<Rightarrow> Inl (JsonErr ''cannot unmarshal into slice''))"

definition report_item_field :: "logicalVolume list \<Rightarrow> string \<Rightarrow> json \<Rightarrow> logicalVolume list res" where
  "report_item_field acc k v =
     (if key_is k ''lv'' then decode_slice (decode_struct volume_field zero_volume) v else Inr acc)"

definition report_field :: "logicalVolume list list \<Rightarrow> string \<Rightarrow> json \<Rightarrow> logicalVolume list list res" where
  "report_field acc k v =
     (if key_is k ''report'' then decode_slice (decode_struct report_item_field []) v else Inr acc)"

text \<open>The \<open>logicalVolumeReport\<close> of an output: the volumes of each report item.\<close>

definition logicalVolumeReport :: "string \<Rightarrow> logicalVolume list list res" where
  "logicalVolumeReport out =
     (case json_parse out of
        None \<Rightarrow> Inl (JsonErr ''invalid JSON'')
      | Some v \<Rightarrow> decode_struct report_field [] v)"

definition normalizeLogicalVolume :: "logicalVolume \<Rightarrow> logicalVolume" where
  "normalizeLogicalVolume volume =
     \<lparr>lv_name = TrimSpace (lv_name volume), vg_name = TrimSpace (vg_name volume),
      lv_size = TrimSpace (lv_size volume), segtype = TrimSpace (segtype volume),
      origin = TrimSpace (origin volume)\<rparr>"

definition lvs_args :: "string list" where
  "lvs_args = [''--reportformat'', ''json'', ''--units'', ''b'', ''--nosuffix'',
               ''--options'', ''lv_name,vg_name,lv_size,segtype,origin'']"

definition lvs_volumes :: "string \<times> cmd_error option \<Rightarrow> logicalVolume list res" where
  "lvs_volumes r =
     (case snd r of
        Some e \<Rightarrow> Inl (CmdErr e)
      | None \<Rightarrow>
          (case logicalVolumeReport (fst r) of
             Inl e \<Rightarrow> Inl (Errorf ''unable to parse lvs output: %w'' [] (Some e))
           | Inr items \<Rightarrow> Inr (map normalizeLogicalVolume (concat items))))"

definition listLogicalVolumes :: "'w host \<Rightarrow> ('w, logicalVolume list res) op" where
  "listLogicalVolumes H = do {
     ex \<leftarrow> newCommandExecutor;
     r \<leftarrow> Execute H ex ''lvs'' lvs_args;
     State_Monad.return (lvs_volumes r)
   }"

definition getLogicalVolume :: "'w host \<Rightarrow> string \<Rightarrow> string \<Rightarrow> ('w, logicalVolume option res) op" where
  "getLogicalVolume H vgName lvName = do {
     r \<leftarrow> listLogicalVolumes H;
     State_Monad.return
       (case r of
          Inl e \<Rightarrow> Inl e
        | Inr volumes \<Rightarrow> Inr (find (\<lambda>v. vg_name v = vgName \<and> lv_name v = lvName) volumes))
   }"

fun unique_by_name :: "string \<Rightarrow> logicalVolume option \<Rightarrow> logicalVolume list \<Rightarrow> logicalVolume res" where
  "unique_by_name lvName None [] = Inl (Errorf ''logical volume %q does not exist'' [lvName] None)"
| "unique_by_name lvName (Some m) [] = Inr m"
| "unique_by_name lvName m (v # vs) =
     (if lv_name v \<noteq> lvName then unique_by_name lvName m vs
      else (case m of
              Some w \<Rightarrow> Inl (Errorf ''logical volume name %q is ambiguous across volume groups %q and %q''
                              [lvName, vg_name w, vg_name v] None)
            | None \<Rightarrow> unique_by_name lvName (Some v) vs))"

definition getLogicalVolumeByName :: "'w host \<Rightarrow> string \<Rightarrow> ('w, logicalVolume res) op" where
  "getLogicalVolumeByName H lvName = do {
     r \<leftarrow> listLogicalVolumes H;
     State_Monad.return (case r of Inl e \<Rightarrow> Inl e | Inr volumes \<Rightarrow> unique_by_name lvName None volumes)
   }"

subsection \<open>Volume groups\<close>

definition VgExists :: "'w host \<Rightarrow> string \<Rightarrow> ('w, bool) op" where
  "VgExists H vgname = do {
     ex \<leftarrow> newCommandExecutor;
     (out, err) \<leftarrow> Execute H ex ''vgs'' [vgname, ''--noheadings'', ''-o'', ''vg_name''];
     State_Monad.return (case err of Some e \<Rightarrow> False | None \<Rightarrow> vgname = TrimSpace out)
   }"

definition scanVolumeGroups :: "'w host \<Rightarrow> ('w, check) op" where
  "scanVolumeGroups H = do {
     ex \<leftarrow> newCommandExecutor;
     (out, err) \<leftarrow> Execute H ex ''vgscan'' [];
     State_Monad.return
       (case err of
          Some e \<Rightarrow> Some (Errorf ''unable to scan for volume groups: %w output:%s'' [out] (Some (CmdErr e)))
        | None \<Rightarrow> None)
   }"

definition activateVolumeGroups :: "'w host \<Rightarrow> string list \<Rightarrow> ('w, check) op" where
  "activateVolumeGroups H vgNames = do {
     ex \<leftarrow> newCommandExecutor;
     (out, err) \<leftarrow> Execute H ex ''vgchange'' (''-ay'' # vgNames);
     State_Monad.return
       (case err of
          Some e \<Rightarrow> Some (Errorf ''unable to activate volume groups: %w output:%s'' [out] (Some (CmdErr e)))
        | None \<Rightarrow> None)
   }"

definition ensureVGDiscovered :: "'w host \<Rightarrow> string \<Rightarrow> ('w, check) op" where
  "ensureVGDiscovered H vgName = do {
     found \<leftarrow> VgExists H vgName;
     (if found then State_Monad.return None
      else do {
        scan \<leftarrow> scanVolumeGroups H;
        (case scan of
           Some e \<Rightarrow> State_Monad.return (Some e)
         | None \<Rightarrow> do {
             found' \<leftarrow> VgExists H vgName;
             State_Monad.return
               (if found' then None
                else Some (Errorf ''volume group %q does not exist; ensure it is created on the target node'' [vgName] None))
           })
      })
   }"

definition EnsureVG :: "'w host \<Rightarrow> string \<Rightarrow> ('w, check) op" where
  "EnsureVG H vgName = do {
     r \<leftarrow> ensureVGDiscovered H vgName;
     (case r of
        Some e \<Rightarrow> State_Monad.return (Some e)
      | None \<Rightarrow> do {
          a \<leftarrow> activateVolumeGroups H [vgName];
          State_Monad.return
            (case a of
               Some e \<Rightarrow> Some (Errorf ''unable to activate volume group %q: %w'' [vgName] (Some e))
             | None \<Rightarrow> None)
        })
   }"

definition VgActivate :: "'w host \<Rightarrow> ('w, check) op" where
  "VgActivate H = do {
     r \<leftarrow> scanVolumeGroups H;
     (case r of Some e \<Rightarrow> State_Monad.return (Some e) | None \<Rightarrow> activateVolumeGroups H [])
   }"

definition pvCount :: "'w host \<Rightarrow> string \<Rightarrow> ('w, int res) op" where
  "pvCount H vgname = do {
     ex \<leftarrow> newCommandExecutor;
     (out, err) \<leftarrow> Execute H ex ''vgs'' [vgname, ''--noheadings'', ''-o'', ''pv_count''];
     State_Monad.return
       (case err of Some e \<Rightarrow> Inl (CmdErr e) | None \<Rightarrow> Atoi (TrimSpace out))
   }"

subsection \<open>Sizes and compatibility\<close>

definition parseLogicalVolumeSize :: "logicalVolume \<Rightarrow> nat res" where
  "parseLogicalVolumeSize volume =
     (case ParseUint (lv_size volume) of
        Inl e \<Rightarrow> Inl (Errorf ''unable to parse size %q of logical volume %q/%q: %w''
                        [lv_size volume, vg_name volume, lv_name volume] (Some e))
      | Inr sz \<Rightarrow> Inr sz)"

definition validateExistingVolume :: "logicalVolume \<Rightarrow> nat \<Rightarrow> string \<Rightarrow> check" where
  "validateExistingVolume volume requestedSize requestedType =
     (case parseLogicalVolumeSize volume of
        Inl e \<Rightarrow> Some e
      | Inr actualSize \<Rightarrow>
          if actualSize < requestedSize then
            Some (Errorf ''existing logical volume %q/%q has size %d, smaller than requested size %d''
                    [vg_name volume, lv_name volume, show_nat actualSize, show_nat requestedSize] None)
          else
            let typeMatches =
                  requestedType = DmThinType \<and> segtype volume = ThinVolType \<or>
                  requestedType = StripedType \<and> (segtype volume = StripedType \<or> segtype volume = LinearType)
            in if \<not> typeMatches then
                 Some (Errorf ''existing logical volume %q/%q has type %q, incompatible with requested type %q''
                         [vg_name volume, lv_name volume, segtype volume, requestedType] None)
               else None)"

definition lv_ref :: "string \<Rightarrow> string \<Rightarrow> string" where
  "lv_ref vgName lvName = vgName @ ''/'' @ lvName"

definition bytes_arg :: "nat \<Rightarrow> string" where
  "bytes_arg sz = show_nat sz @ ''b''"

subsection \<open>The thin pool\<close>

definition thin_pool_name :: "string \<Rightarrow> string" where
  "thin_pool_name vgName = vgName @ ''-thinpool''"

definition thinPoolCreateArgs :: "string \<Rightarrow> string \<Rightarrow> string list" where
  "thinPoolCreateArgs vg thinPoolName =
     [''--type'', ThinPoolType, ''--name'', thinPoolName, ''--extents'', thinPoolDataExtents,
      ''--chunksize'', thinPoolChunkSize, ''--poolmetadatasize'', thinPoolMetadataSize,
      ''--poolmetadataspare'', ''y'', vg]"

definition pool_health :: "string \<Rightarrow> string \<Rightarrow> string \<Rightarrow> check" where
  "pool_health vgName thinpoolName out =
     (let fields = Fields out in
      if length fields = 0 \<or> length (fields ! 0) < 5 then
        Some (Errorf ''thin pool %q/%q returned invalid attributes %q'' [vgName, thinpoolName, TrimSpace out] None)
      else if fields ! 0 ! 4 \<noteq> CHR ''a'' then
        Some (Errorf ''thin pool %q/%q is inactive (attributes %q)'' [vgName, thinpoolName, fields ! 0] None)
      else if length fields > 1 then
        Some (Errorf ''thin pool %q/%q is unhealthy: %q'' [vgName, thinpoolName, join '' '' (drop 1 fields)] None)
      else None)"

definition validateThinPool :: "'w host \<Rightarrow> string \<Rightarrow> string \<Rightarrow> ('w, check) op" where
  "validateThinPool H vgName thinpoolName = do {
     ex \<leftarrow> newCommandExecutor;
     (out, err) \<leftarrow> Execute H ex ''lvs''
        [''--noheadings'', ''-o'', ''lv_attr,lv_health_status'', lv_ref vgName thinpoolName];
     State_Monad.return
       (case err of
          Some e \<Rightarrow> Some (Errorf ''unable to inspect thin pool %q/%q: %w output:%s'' [vgName, thinpoolName, out] (Some (CmdErr e)))
        | None \<Rightarrow> pool_health vgName thinpoolName out)
   }"

definition checkThinPool :: "'w host \<Rightarrow> logicalVolume \<Rightarrow> ('w, check) op" where
  "checkThinPool H pool =
     (if segtype pool \<noteq> ThinPoolType then
        State_Monad.return (Some (Errorf ''thin pool %q/%q is incomplete: expected segment type %q, found %q''
                                    [vg_name pool, lv_name pool, ThinPoolType, segtype pool] None))
      else validateThinPool H (vg_name pool) (lv_name pool))"

definition rollbackThinPoolCreate :: "'w host \<Rightarrow> string \<Rightarrow> string \<Rightarrow> ('w, check) op" where
  "rollbackThinPoolCreate H vgName thinPoolName = do {
     r \<leftarrow> getLogicalVolume H vgName thinPoolName;
     (case r of
        Inl e \<Rightarrow> State_Monad.return (Some (Errorf ''unable to inspect timed-out thin-pool creation: %w'' [] (Some e)))
      | Inr v \<Rightarrow>
          (case v of
             None \<Rightarrow> State_Monad.return None
           | Some pool \<Rightarrow>
               if segtype pool = ThinPoolType then State_Monad.return None
               else if segtype pool \<noteq> LinearType then
                 State_Monad.return (Some (Errorf ''refusing to remove logical volume %q/%q with unexpected segment type %q''
                                             [vgName, thinPoolName, segtype pool] None))
               else do {
                 ex \<leftarrow> newCommandExecutor;
                 (out, err) \<leftarrow> Execute H ex ''lvremove'' [''-q'', ''-y'', lv_ref vgName thinPoolName];
                 State_Monad.return
                   (case err of
                      Some e \<Rightarrow> Some (Errorf ''unable to remove incomplete logical volume %q/%q: %w output:%s''
                                        [vgName, thinPoolName, out] (Some (CmdErr e)))
                    | None \<Rightarrow> None)
               }))
   }"

definition thinPoolCreateError :: "string \<Rightarrow> string \<Rightarrow> cmd_error \<Rightarrow> goerr" where
  "thinPoolCreateError vgName thinPoolName e =
     Errorf ''unable to create thin pool %q/%q: %w'' [vgName, thinPoolName] (Some (CmdErr e))"

definition handleThinPoolCreateError :: "'w host \<Rightarrow> string \<Rightarrow> string \<Rightarrow> cmd_error \<Rightarrow> ('w, goerr) op" where
  "handleThinPoolCreateError H vgName thinPoolName createErr =
     (if \<not> ce_timeout createErr then State_Monad.return (thinPoolCreateError vgName thinPoolName createErr)
      else do {
        rollbackErr \<leftarrow> rollbackThinPoolCreate H vgName thinPoolName;
        State_Monad.return
          (case rollbackErr of
             None \<Rightarrow> thinPoolCreateError vgName thinPoolName createErr
           | Some e \<Rightarrow> Errorf2 ''unable to create thin pool %q/%q: %w; rollback failed: %v'' [vgName, thinPoolName] (CmdErr createErr) e)
      })"

definition createThinPool :: "'w host \<Rightarrow> string \<Rightarrow> string \<Rightarrow> ('w, check) op" where
  "createThinPool H vgName thinPoolName = do {
     ex \<leftarrow> newCommandExecutor;
     (if \<not> h_timed H then
        State_Monad.return (Some (msg ''lvcreate executor does not support command timeouts''))
      else do {
        t \<leftarrow> thinPoolCreateTimeout;
        (out, err) \<leftarrow> Execute H (SetTimeout t ex) ''lvcreate'' (thinPoolCreateArgs vgName thinPoolName);
        (case err of
           None \<Rightarrow> State_Monad.return None
         | Some e \<Rightarrow> do {
             e' \<leftarrow> handleThinPoolCreateError H vgName thinPoolName e;
             State_Monad.return (Some e')
           })
      })
   }"

definition prepareThinPool :: "'w host \<Rightarrow> string \<Rightarrow> string \<Rightarrow> ('w, string \<times> check) op" where
  "prepareThinPool H vgName lvmType =
     (if lvmType \<noteq> DmThinType then State_Monad.return ('''', None)
      else let thinPoolName = thin_pool_name vgName in do {
        r \<leftarrow> getLogicalVolume H vgName thinPoolName;
        (case r of
           Inl e \<Rightarrow> State_Monad.return ('''', Some (Errorf ''unable to determine if thin pool %q/%q exists: %w'' [vgName, thinPoolName] (Some e)))
         | Inr v \<Rightarrow>
             (case v of
                Some pool \<Rightarrow> do {
                  c \<leftarrow> checkThinPool H pool;
                  State_Monad.return (thinPoolName, c)
                }
              | None \<Rightarrow> do {
                  c \<leftarrow> createThinPool H vgName thinPoolName;
                  State_Monad.return (thinPoolName, c)
                }))
      })"

subsection \<open>Creating a volume\<close>

definition lvcreate_args :: "string \<Rightarrow> string \<Rightarrow> nat \<Rightarrow> string \<Rightarrow> string \<Rightarrow> int \<Rightarrow> string list" where
  "lvcreate_args vg name sz lvmType thinPoolName pvs =
     [''-v'', ''--yes'', ''-n'', name, ''-W'', ''y'']
     @ (if lvmType = StripedType then
          [''-L'', bytes_arg sz, ''--type'', ''striped'', ''--stripes'', show_int pvs, vg]
        else if lvmType = DmThinType then
          [''-V'', bytes_arg sz, ''--thin-pool'', thinPoolName, vg]
        else [])
     @ [''--addtag'', ''harvester-csi-lvm'']"

definition CreateLVS :: "'w host \<Rightarrow> string \<Rightarrow> string \<Rightarrow> nat \<Rightarrow> string \<Rightarrow> ('w, outerr) op" where
  "CreateLVS H vg name sz lvmType =
     (if sz = 0 then State_Monad.return ('''', Some (msg ''size must be greater than 0''))
      else if lvmType \<noteq> StripedType \<and> lvmType \<noteq> DmThinType then
        State_Monad.return ('''', Some (Errorf ''unsupported lvmtype: %q'' [lvmType] None))
      else do {
        existing \<leftarrow> getLogicalVolume H vg name;
        (case existing of
           Inl e \<Rightarrow> State_Monad.return ('''', Some (Errorf ''unable to check existing logical volume %q/%q: %w'' [vg, name] (Some e)))
         | Inr v \<Rightarrow>
             (case v of
                Some volume \<Rightarrow>
                  State_Monad.return
                    (case validateExistingVolume volume sz lvmType of
                       Some e \<Rightarrow> ('''', Some e)
                     | None \<Rightarrow> (name, None))
              | None \<Rightarrow> do {
                  (thinPoolName, poolErr) \<leftarrow> prepareThinPool H vg lvmType;
                  (case poolErr of
                     Some e \<Rightarrow> State_Monad.return ('''', Some e)
                   | None \<Rightarrow> do {
                       ex \<leftarrow> newCommandExecutor;
                       pv \<leftarrow> pvCount H vg;
                       (case pv of
                          Inl e \<Rightarrow> State_Monad.return ('''', Some (Errorf ''unable to determine pv count of vg: %w'' [] (Some e)))
                        | Inr pvs \<Rightarrow> do {
                            (out, err) \<leftarrow> Execute H ex ''lvcreate'' (lvcreate_args vg name sz lvmType thinPoolName pvs);
                            State_Monad.return (out, map_option CmdErr err)
                          })
                     })
                }))
      })"

subsection \<open>Extending, removing\<close>

definition buildLVExtendArgs :: "string \<Rightarrow> string \<Rightarrow> nat \<Rightarrow> string list" where
  "buildLVExtendArgs vgName lvName sz = [''-L'', bytes_arg sz, ''-n'', lv_ref vgName lvName]"

definition ensureLogicalVolumeSize :: "'w host \<Rightarrow> executor \<Rightarrow> logicalVolume \<Rightarrow> nat \<Rightarrow> ('w, outerr) op" where
  "ensureLogicalVolumeSize H ex volume sz =
     (case parseLogicalVolumeSize volume of
        Inl e \<Rightarrow> State_Monad.return ('''', Some e)
      | Inr lvSize \<Rightarrow>
          if lvSize \<ge> sz then State_Monad.return ('''', None)
          else do {
            (output, err) \<leftarrow> Execute H ex ''lvextend'' (buildLVExtendArgs (vg_name volume) (lv_name volume) sz);
            State_Monad.return
              (case err of
                 Some e \<Rightarrow> (output, Some (Errorf ''unable to extend logical volume %q/%q: %w'' [vg_name volume, lv_name volume] (Some (CmdErr e))))
               | None \<Rightarrow> (output, None))
          })"

definition resize_command :: "string \<Rightarrow> string \<Rightarrow> string \<Rightarrow> (string \<times> string list) option" where
  "resize_command fsType devicePath volumePath =
     (if fsType \<in> {''ext2'', ''ext3'', ''ext4''} then Some (''resize2fs'', [devicePath])
      else if fsType = ''xfs'' then Some (''xfs_growfs'', [''-d'', volumePath])
      else None)"

definition resizeFilesystem :: "'w host \<Rightarrow> executor \<Rightarrow> logicalVolume \<Rightarrow> string \<Rightarrow> ('w, outerr) op" where
  "resizeFilesystem H ex volume volumePath =
     (let devicePath = device_path (vg_name volume) (lv_name volume) in do {
        r \<leftarrow> getFilesystemType H ex devicePath;
        (case r of
           Inl e \<Rightarrow> State_Monad.return ('''', Some (Errorf ''unable to detect filesystem on %q: %w'' [devicePath] (Some e)))
         | Inr fsType \<Rightarrow>
             (case resize_command fsType devicePath volumePath of
                None \<Rightarrow> State_Monad.return ('''', Some (Errorf ''filesystem type %q on %q does not support expansion'' [fsType, devicePath] None))
              | Some (command, args) \<Rightarrow> do {
                  (output, err) \<leftarrow> Execute H ex command args;
                  State_Monad.return
                    (case err of
                       Some e \<Rightarrow> (output, Some (Errorf ''unable to resize %q filesystem on %q: %w'' [fsType, devicePath] (Some (CmdErr e))))
                     | None \<Rightarrow> (output, None))
                }))
      })"

definition combineCommandOutput :: "string list \<Rightarrow> string" where
  "combineCommandOutput outputs = join [CHR 0x0A] (filter (\<lambda>x. x \<noteq> '''') (map TrimSpace outputs))"

definition extendLVS :: "'w host \<Rightarrow> string \<Rightarrow> nat \<Rightarrow> bool \<Rightarrow> string \<Rightarrow> ('w, outerr) op" where
  "extendLVS H name sz isBlock volumePath = do {
     r \<leftarrow> getLogicalVolumeByName H name;
     (case r of
        Inl e \<Rightarrow> State_Monad.return ('''', Some (Errorf ''unable to get logical volume %q: %w'' [name] (Some e)))
      | Inr volume \<Rightarrow> do {
          ex \<leftarrow> newCommandExecutor;
          (lvOutput, err) \<leftarrow> ensureLogicalVolumeSize H ex volume sz;
          (case err of
             Some e \<Rightarrow> State_Monad.return (lvOutput, Some e)
           | None \<Rightarrow>
               if isBlock then State_Monad.return (lvOutput, None)
               else do {
                 (fsOutput, err') \<leftarrow> resizeFilesystem H ex volume volumePath;
                 State_Monad.return (combineCommandOutput [lvOutput, fsOutput], err')
               })
        })
   }"

definition RemoveLVSInVG :: "'w host \<Rightarrow> string \<Rightarrow> string \<Rightarrow> ('w, outerr) op" where
  "RemoveLVSInVG H vgName name = do {
     r \<leftarrow> getLogicalVolume H vgName name;
     (case r of
        Inl e \<Rightarrow> State_Monad.return ('''', Some (Errorf ''unable to check logical volume %q/%q: %w'' [vgName, name] (Some e)))
      | Inr v \<Rightarrow>
          (case v of
             None \<Rightarrow> State_Monad.return
               (''logical volume '' @ name @ '' does not exist. Assuming it has already been deleted.'', None)
           | Some _ \<Rightarrow> do {
               ex \<leftarrow> newCommandExecutor;
               (out, err) \<leftarrow> Execute H ex ''lvremove'' [''-q'', ''-y'', lv_ref vgName name];
               State_Monad.return (out, map_option CmdErr err)
             }))
   }"

fun thin_counts :: "string \<Rightarrow> (string \<rightharpoonup> int) \<Rightarrow> string list \<Rightarrow> (string \<rightharpoonup> int) res" where
  "thin_counts vgName info [] = Inr info"
| "thin_counts vgName info (line # rest) =
     (let parts = Fields line in
      if line = '''' \<or> length parts \<noteq> 4 then thin_counts vgName info rest
      else if parts ! 0 = vgName \<and> parts ! 1 = ThinPoolType then
        (case Atoi (parts ! 3) of
           Inl e \<Rightarrow> Inl e
         | Inr count \<Rightarrow> thin_counts vgName (info(parts ! 2 \<mapsto> count)) rest)
      else thin_counts vgName info rest)"

definition getThinPoolAndCounts :: "'w host \<Rightarrow> string \<Rightarrow> ('w, (string \<rightharpoonup> int) res) op" where
  "getThinPoolAndCounts H vgName = do {
     ex \<leftarrow> newCommandExecutor;
     (out, err) \<leftarrow> Execute H ex ''lvs'' [''--noheadings'', ''-o'', ''vg_name,segtype,name,thin_count''];
     State_Monad.return
       (case err of
          Some e \<Rightarrow> Inl (CmdErr e)
        | None \<Rightarrow> thin_counts vgName Map.empty (split_on CHR 0x0A out))
   }"

definition RemoveThinPool :: "'w host \<Rightarrow> string \<Rightarrow> ('w, check) op" where
  "RemoveThinPool H vgName =
     (let targetThinPool = thin_pool_name vgName in do {
        r \<leftarrow> getThinPoolAndCounts H vgName;
        (case r of
           Inl e \<Rightarrow> State_Monad.return (Some (Errorf ''unable to get thinpool and count: %w'' [] (Some e)))
         | Inr thinPoolInfo \<Rightarrow>
             (case thinPoolInfo targetThinPool of
                None \<Rightarrow> State_Monad.return None
              | Some count \<Rightarrow>
                  if count > 0 then State_Monad.return None
                  else do {
                    (out, err) \<leftarrow> RemoveLVSInVG H vgName targetThinPool;
                    State_Monad.return
                      (case err of
                         Some e \<Rightarrow> Some (Errorf ''unable to remove thinpool: %w'' [] (Some e))
                       | None \<Rightarrow> None)
                  }))
      })"

subsection \<open>Snapshots\<close>

definition backend_snapshot :: "string \<Rightarrow> string" where
  "backend_snapshot snapshotName = ''lvm-'' @ snapshotName"

definition snapshot_args :: "string \<Rightarrow> string \<Rightarrow> string \<Rightarrow> int \<Rightarrow> string \<Rightarrow> bool \<Rightarrow> string list option" where
  "snapshot_args backendSnapshotName srcVolName vgName volSize lvType forClone =
     (let args = [''-s'', ''-y''] @ (if \<not> forClone then [''-a'', ''n''] else []) @ [''-n'', backendSnapshotName]
      in if lvType = StripedType then
           Some (args @ [''-L'', show_int volSize @ ''b''] @ [lv_ref vgName srcVolName])
         else if lvType = DmThinType then Some (args @ [lv_ref vgName srcVolName])
         else None)"

definition CreateSnapshot ::
  "'w host \<Rightarrow> string \<Rightarrow> string \<Rightarrow> string \<Rightarrow> int \<Rightarrow> string \<Rightarrow> bool \<Rightarrow> ('w, outerr) op" where
  "CreateSnapshot H snapshotName srcVolName vgName volSize lvType forClone =
     (if snapshotName = '''' \<or> srcVolName = '''' then
        State_Monad.return ('''', Some (msg ''invalid empty name or path''))
      else if volSize = 0 then State_Monad.return ('''', Some (msg ''size must be greater than 0''))
      else do {
        src \<leftarrow> getLogicalVolume H vgName srcVolName;
        (case src of
           Inl e \<Rightarrow> State_Monad.return ('''', Some (Errorf ''unable to check source logical volume %q/%q: %w'' [vgName, srcVolName] (Some e)))
         | Inr None \<Rightarrow> State_Monad.return ('''', Some (Errorf ''logical volume %q does not exist'' [srcVolName] None))
         | Inr (Some _) \<Rightarrow>
             let backendSnapshotName = (if \<not> forClone then backend_snapshot snapshotName else snapshotName) in do {
               r \<leftarrow> getLogicalVolume H vgName backendSnapshotName;
               (case r of
                  Inl e \<Rightarrow> State_Monad.return ('''', Some (Errorf ''unable to check existing snapshot %q/%q: %w'' [vgName, backendSnapshotName] (Some e)))
                | Inr (Some existing) \<Rightarrow>
                    State_Monad.return
                      (if origin existing \<noteq> srcVolName then
                         ('''', Some (Errorf ''existing snapshot %q/%q has origin %q, expected %q''
                                        [vgName, backendSnapshotName, origin existing, srcVolName] None))
                       else (backendSnapshotName, None))
                | Inr None \<Rightarrow> do {
                    ex \<leftarrow> newCommandExecutor;
                    (case snapshot_args backendSnapshotName srcVolName vgName volSize lvType forClone of
                       None \<Rightarrow> State_Monad.return ('''', Some (Errorf ''unsupported lvmtype: %q'' [lvType] None))
                     | Some args \<Rightarrow> do {
                         (out, err) \<leftarrow> Execute H ex ''lvcreate'' args;
                         State_Monad.return (out, map_option CmdErr err)
                       })
                  })
             })
      })"

definition DeleteSnapshot :: "'w host \<Rightarrow> string \<Rightarrow> string \<Rightarrow> ('w, outerr) op" where
  "DeleteSnapshot H snapshotName vgName =
     (if snapshotName = '''' then State_Monad.return ('''', Some (msg ''invalid empty name''))
      else let name = backend_snapshot snapshotName in do {
        r \<leftarrow> getLogicalVolume H vgName name;
        (case r of
           Inl e \<Rightarrow> State_Monad.return ('''', Some (Errorf ''unable to check snapshot %q/%q: %w'' [vgName, name] (Some e)))
         | Inr None \<Rightarrow> State_Monad.return
             (''snapshot '' @ vgName @ ''/'' @ name @ '' does not exist. Assuming it has already been deleted.'', None)
         | Inr (Some _) \<Rightarrow> do {
             ex \<leftarrow> newCommandExecutor;
             (out, err) \<leftarrow> Execute H ex ''lvremove'' [''-q'', ''-y'', device_path vgName name];
             State_Monad.return (out, map_option CmdErr err)
           })
      })"

subsection \<open>Evaluation of the inventory queries\<close>

abbreviation lookup_in :: "string \<Rightarrow> string \<Rightarrow> logicalVolume list \<Rightarrow> logicalVolume option" where
  "lookup_in vgName lvName \<equiv> find (\<lambda>v. vg_name v = vgName \<and> lv_name v = lvName)"

lemma run_listLogicalVolumes [run_simps]:
  "run_state (listLogicalVolumes H) s =
     (lvs_volumes (exec_of H (cmd_ex s) ''lvs'' lvs_args s), after H (cmd_ex s) ''lvs'' lvs_args s)"
  by (simp add: listLogicalVolumes_def run_simps)

lemma run_getLogicalVolume [run_simps]:
  "run_state (getLogicalVolume H vgName lvName) s =
     ((case lvs_volumes (exec_of H (cmd_ex s) ''lvs'' lvs_args s) of
         Inl e \<Rightarrow> Inl e | Inr vs \<Rightarrow> Inr (lookup_in vgName lvName vs)),
      after H (cmd_ex s) ''lvs'' lvs_args s)"
  by (simp add: getLogicalVolume_def run_simps)

lemma run_getLogicalVolumeByName [run_simps]:
  "run_state (getLogicalVolumeByName H lvName) s =
     ((case lvs_volumes (exec_of H (cmd_ex s) ''lvs'' lvs_args s) of
         Inl e \<Rightarrow> Inl e | Inr vs \<Rightarrow> unique_by_name lvName None vs),
      after H (cmd_ex s) ''lvs'' lvs_args s)"
  by (simp add: getLogicalVolumeByName_def run_simps)

lemma lvs_op [op_intro]:
  assumes "\<And>a t out err. E (ECmd ''lvs'' a t out err)"
  shows "keeps (logs E) (listLogicalVolumes H)" "keeps (logs E) (getLogicalVolume H vgName lvName)"
    "keeps (logs E) (getLogicalVolumeByName H lvName)" "keeps (logs E) (validateThinPool H vgName lvName)"
    "keeps (logs E) (checkThinPool H pool)" "keeps (logs E) (getThinPoolAndCounts H vgName)"
  unfolding listLogicalVolumes_def getLogicalVolume_def getLogicalVolumeByName_def
    validateThinPool_def checkThinPool_def getThinPoolAndCounts_def
  by (intro op_intro assms)+

text \<open>
  What is relied on of \<open>lvs\<close>: \<open>lvsOf w\<close> is the inventory of a world; listing does not change it, and
  an output that comes without an error lists it.
\<close>

definition lvs_reports :: "'w host \<Rightarrow> ('w \<Rightarrow> logicalVolume list) \<Rightarrow> bool" where
  "lvs_reports H lvsOf \<longleftrightarrow>
     (\<forall>t w out err w'. h_exec H t ''lvs'' lvs_args w = ((out, err), w') \<longrightarrow>
        lvsOf w' = lvsOf w \<and> (err = None \<longrightarrow> lvs_volumes (out, None) = Inr (lvsOf w)))"

lemma lvs_reportsD:
  assumes "lvs_reports H lvsOf"
  shows "lvsOf (s_world (after H ex ''lvs'' lvs_args s)) = lvsOf (s_world s)"
    and "lvs_volumes (exec_of H ex ''lvs'' lvs_args s) = Inr vs \<Longrightarrow> vs = lvsOf (s_world s)"
    and "snd (exec_of H ex ''lvs'' lvs_args s) = None \<Longrightarrow>
           lvs_volumes (exec_of H ex ''lvs'' lvs_args s) = Inr (lvsOf (s_world s))"
proof -
  obtain out err w' where x: "h_exec H (cmdTimeout ex) ''lvs'' lvs_args (s_world s) = ((out, err), w')"
    by (metis prod.collapse)
  with assms have law: "lvsOf w' = lvsOf (s_world s)" "err = None \<longrightarrow> lvs_volumes (out, None) = Inr (lvsOf (s_world s))"
    unfolding lvs_reports_def by blast+
  from law(1) x show "lvsOf (s_world (after H ex ''lvs'' lvs_args s)) = lvsOf (s_world s)" by simp
  show "snd (exec_of H ex ''lvs'' lvs_args s) = None \<Longrightarrow>
          lvs_volumes (exec_of H ex ''lvs'' lvs_args s) = Inr (lvsOf (s_world s))"
    using law(2) x by (simp add: exec_of_def)
  show "lvs_volumes (exec_of H ex ''lvs'' lvs_args s) = Inr vs \<Longrightarrow> vs = lvsOf (s_world s)"
    using law(2) x by (cases err) (auto simp: exec_of_def lvs_volumes_def)
qed

subsection \<open>The report can be read back\<close>

definition print_volume :: "logicalVolume \<Rightarrow> json" where
  "print_volume v =
     JObj [(''lv_name'', JStr (lv_name v)), (''vg_name'', JStr (vg_name v)), (''lv_size'', JStr (lv_size v)),
           (''segtype'', JStr (segtype v)), (''origin'', JStr (origin v))]"

definition print_report :: "logicalVolume list list \<Rightarrow> string" where
  "print_report items =
     json_print (JObj [(''report'', JArr (map (\<lambda>vs. JObj [(''lv'', JArr (map print_volume vs))]) items))])"

lemma key_is_lvs:
  "key_is ''lv_name'' ''lv_name''" "key_is ''vg_name'' ''vg_name''" "key_is ''lv_size'' ''lv_size''"
  "key_is ''segtype'' ''segtype''" "key_is ''origin'' ''origin''" "key_is ''lv'' ''lv''"
  "key_is ''report'' ''report''"
  "\<not> key_is ''vg_name'' ''lv_name''" "\<not> key_is ''lv_size'' ''lv_name''" "\<not> key_is ''lv_size'' ''vg_name''"
  "\<not> key_is ''segtype'' ''lv_name''" "\<not> key_is ''segtype'' ''vg_name''" "\<not> key_is ''segtype'' ''lv_size''"
  "\<not> key_is ''origin'' ''lv_name''" "\<not> key_is ''origin'' ''vg_name''" "\<not> key_is ''origin'' ''lv_size''"
  "\<not> key_is ''origin'' ''segtype''"
  by (simp_all add: key_is_def lower_char_def)

lemma decode_print_volume: "decode_struct volume_field zero_volume (print_volume v) = Inr v"
  by (simp add: decode_struct_def print_volume_def volume_field_def key_is_lvs set_string_def
      decode_string_def zero_volume_def)

lemma no_num_print_volume: "no_num (print_volume v)"
  by (simp add: print_volume_def)

lemma decode_print_report: "logicalVolumeReport (print_report items) = Inr items"
proof -
  have "decode_list (decode_struct volume_field zero_volume) (map print_volume vs) = Inr vs" for vs
    by (rule decode_list_map) (rule decode_print_volume)
  then have "decode_list (decode_struct report_item_field [])
      (map (\<lambda>vs. JObj [(''lv'', JArr (map print_volume vs))]) items) = Inr items"
    by (intro decode_list_map)
      (simp add: decode_struct_def report_item_field_def key_is_lvs decode_slice_def)
  then show ?thesis
    by (simp add: logicalVolumeReport_def print_report_def json_parse_print list_all_iff
        no_num_print_volume decode_struct_def report_field_def key_is_lvs decode_slice_def)
qed

subsection \<open>A concrete LVM\<close>

text \<open>
  A small interpreter of the LVM commands over a list of logical volumes, for the examples: \<open>lvs\<close>
  prints the list, \<open>lvremove\<close> removes the volume its last argument names, every other command
  succeeds and prints \<open>1\<close>.
\<close>

definition lvm_exec ::
  "int \<Rightarrow> string \<Rightarrow> string list \<Rightarrow> logicalVolume list \<Rightarrow> (string \<times> cmd_error option) \<times> logicalVolume list" where
  "lvm_exec t c args w =
     (if c = ''lvs'' \<and> args = lvs_args then ((print_report [w], None), w)
      else if c = ''lvremove'' then
        (('''', None), filter (\<lambda>v. last args \<noteq> lv_ref (vg_name v) (lv_name v)
                                \<and> last args \<noteq> device_path (vg_name v) (lv_name v)) w)
      else ((''1'', None), w))"

definition lvm_host :: "logicalVolume list host" where
  "lvm_host = quiet_host lvm_exec"

lemma lvm_host_exec [simp]: "h_exec lvm_host = lvm_exec"
  by (simp add: lvm_host_def quiet_host_def)

lemma lvm_host_reports: "lvs_reports lvm_host (map normalizeLogicalVolume)"
  by (auto simp: lvs_reports_def lvm_exec_def lvs_volumes_def decode_print_report)

definition volume_x :: logicalVolume where
  "volume_x = \<lparr>lv_name = ''pvc-1'', vg_name = ''vg'', lv_size = ''4194304'', segtype = ''linear'', origin = ''''\<rparr>"

lemma normalize_volume_x: "normalizeLogicalVolume volume_x = volume_x"
  by code_simp

subsection \<open>Removing volumes and snapshots\<close>

text \<open>
  \<open>RemoveLVSInVG\<close> and \<open>DeleteSnapshot\<close> share one contract: look the volume up first; if it is absent,
  succeed without removing anything; if it is present, run one \<open>lvremove\<close> on exactly it.
\<close>

locale lv_removal =
  fixes remove :: "'w host \<Rightarrow> string \<Rightarrow> string \<Rightarrow> ('w, outerr) op"
    and valid :: "string \<Rightarrow> bool"
    and backend :: "string \<Rightarrow> string"
    and target :: "string \<Rightarrow> string \<Rightarrow> string"
  assumes on_error: "valid n \<Longrightarrow> run_state (getLogicalVolume H vg (backend n)) s = (Inl e, t) \<Longrightarrow>
      \<exists>e'. run_state (remove H vg n) s = (('''', Some e'), t)"
    and on_absent: "valid n \<Longrightarrow> run_state (getLogicalVolume H vg (backend n)) s = (Inr None, t) \<Longrightarrow>
      \<exists>m. run_state (remove H vg n) s = ((m, None), t)"
    and on_present: "valid n \<Longrightarrow> run_state (getLogicalVolume H vg (backend n)) s = (Inr (Some v), t) \<Longrightarrow>
      run_state (remove H vg n) s =
        ((fst (exec_of H (cmd_ex t) ''lvremove'' [''-q'', ''-y'', target vg n] t),
          map_option CmdErr (snd (exec_of H (cmd_ex t) ''lvremove'' [''-q'', ''-y'', target vg n] t))),
         after H (cmd_ex t) ''lvremove'' [''-q'', ''-y'', target vg n] t)"
begin

lemma removes_only_target:
  assumes "valid n"
  shows "logs (\<lambda>e. ran ''lvs'' e \<or> ran ''lvremove'' e \<and> ev_args e = [''-q'', ''-y'', target vg n]) s
           (snd (run_state (remove H vg n) s))" (is "logs ?E _ _")
proof -
  obtain r t where g: "run_state (getLogicalVolume H vg (backend n)) s = (r, t)" by force
  have l: "logs ?E s t" by (rule keepsD [OF _ g]) (intro op_intro, simp)
  show ?thesis
  proof (cases r)
    case (Inl e)
    with g on_error [OF assms, of H vg s e t] l show ?thesis by auto
  next
    case (Inr v)
    show ?thesis
    proof (cases v)
      case None
      with Inr g on_absent [OF assms, of H vg s t] l show ?thesis by auto
    next
      case (Some x)
      have "logs ?E t (after H ex ''lvremove'' [''-q'', ''-y'', target vg n] t)" for ex
        by (simp add: logs_def)
      with l have "logs ?E s (after H ex ''lvremove'' [''-q'', ''-y'', target vg n] t)" for ex
        using logs_trans [of ?E] by (blast dest: transpD)
      with Inr Some g on_present [OF assms, of H vg s x t] show ?thesis by simp
    qed
  qed
qed

lemma absent_is_success:
  assumes "valid n" and "lvs_reports H lvsOf" and "lookup_in vg (backend n) (lvsOf (s_world s)) = None"
    and "snd (exec_of H (cmd_ex s) ''lvs'' lvs_args s) = None"
  shows "\<exists>m. run_state (remove H vg n) s = ((m, None), after H (cmd_ex s) ''lvs'' lvs_args s)"
  using assms by (intro on_absent) (simp_all add: run_simps lvs_reportsD(3))

lemma present_is_removed:
  assumes "valid n" and "lvs_reports H lvsOf" and "lookup_in vg (backend n) (lvsOf (s_world s)) = Some v"
    and "snd (exec_of H (cmd_ex s) ''lvs'' lvs_args s) = None"
  shows "\<exists>r. run_state (remove H vg n) s = (r, after H (cmd_ex s) ''lvremove'' [''-q'', ''-y'', target vg n]
                                                   (after H (cmd_ex s) ''lvs'' lvs_args s))"
proof -
  have "run_state (getLogicalVolume H vg (backend n)) s =
      (Inr (Some v), after H (cmd_ex s) ''lvs'' lvs_args s)"
    using assms by (simp add: run_simps lvs_reportsD(3))
  from on_present [OF assms(1) this] show ?thesis by auto
qed

end

interpretation volume_removal: lv_removal RemoveLVSInVG "\<lambda>_. True" "\<lambda>n. n" lv_ref
  by unfold_locales (auto simp: RemoveLVSInVG_def run_simps case_prod_beta)

interpretation snapshot_removal: lv_removal "\<lambda>H vg n. DeleteSnapshot H n vg" "\<lambda>n. n \<noteq> ''''" backend_snapshot
  "\<lambda>vg n. device_path vg (backend_snapshot n)"
  by unfold_locales (auto simp: DeleteSnapshot_def run_simps case_prod_beta Let_def)

text \<open>
  Deleting a logical volume that is no longer in the inventory succeeds and
  runs nothing but the listing; deleting one that is there runs one \<open>lvremove\<close> of exactly
  \<open>vg/name\<close> after it.
\<close>

lemma RemoveLVSInVG_idempotent:
  assumes "lvs_reports H lvsOf" and "snd (exec_of H (cmd_ex s) ''lvs'' lvs_args s) = None"
  shows "(lookup_in vgName name (lvsOf (s_world s)) = None \<longrightarrow>
            (\<exists>m. run_state (RemoveLVSInVG H vgName name) s = ((m, None), after H (cmd_ex s) ''lvs'' lvs_args s)))
       \<and> (lookup_in vgName name (lvsOf (s_world s)) \<noteq> None \<longrightarrow>
            (\<exists>r. run_state (RemoveLVSInVG H vgName name) s =
               (r, after H (cmd_ex s) ''lvremove'' [''-q'', ''-y'', lv_ref vgName name]
                     (after H (cmd_ex s) ''lvs'' lvs_args s))))"
  using volume_removal.absent_is_success [OF TrueI assms(1) _ assms(2)]
    volume_removal.present_is_removed [OF TrueI assms(1) _ assms(2)] by auto

text \<open>
  Deleting a snapshot runs nothing but a listing and, at most, \<open>lvremove\<close> of the device
  \<open>/dev/<vg>/lvm-<snapshot>\<close>; and that is the volume a snapshot creation with the same name makes
  (\<open>-n lvm-<snapshot>\<close> in the same group), so create and delete agree on the backend name.
\<close>

lemma DeleteSnapshot_targets_created:
  assumes "snapshotName \<noteq> ''''"
    and "snapshot_args (backend_snapshot snapshotName) srcVolName vgName volSize lvType False = Some args"
  shows "logs (\<lambda>e. ran ''lvs'' e \<or> ran ''lvremove'' e \<and>
             ev_args e = [''-q'', ''-y'', ''/dev/'' @ vgName @ ''/'' @ (args ! 5)]) s
           (snd (run_state (DeleteSnapshot H snapshotName vgName) s))"
proof -
  have "args ! 5 = backend_snapshot snapshotName"
    using assms(2) by (auto simp: snapshot_args_def Let_def split: if_splits)
  with snapshot_removal.removes_only_target [of snapshotName vgName s H] assms(1) show ?thesis
    by (simp add: device_path_def)
qed

lemma DeleteSnapshot_targets_created_example:
  "logs (\<lambda>e. ran ''lvs'' e \<or> ran ''lvremove'' e \<and> ev_args e = [''-q'', ''-y'', ''/dev/vg/lvm-s1'']) (start [volume_x])
     (snd (run_state (DeleteSnapshot lvm_host ''s1'' ''vg'') (start [volume_x])))"
proof -
  have "snapshot_args (backend_snapshot ''s1'') ''pvc-1'' ''vg'' 4 DmThinType False =
      Some [''-s'', ''-y'', ''-a'', ''n'', ''-n'', ''lvm-s1'', ''vg/pvc-1'']"
    by (simp add: snapshot_args_def lvm_types backend_snapshot_def lv_ref_def)
  from DeleteSnapshot_targets_created [OF _ this, of "start [volume_x]" lvm_host] show ?thesis by simp
qed

subsection \<open>Creating volumes\<close>

definition compatible :: "logicalVolume \<Rightarrow> nat \<Rightarrow> string \<Rightarrow> bool" where
  "compatible volume sz lvmType \<longleftrightarrow>
     (\<exists>n. ParseUint (lv_size volume) = Inr n \<and> sz \<le> n)
   \<and> (lvmType = DmThinType \<and> segtype volume = ThinVolType
      \<or> lvmType = StripedType \<and> segtype volume \<in> {StripedType, LinearType})"

interpretation existing_volume: validator "\<lambda>(v, sz, ty). validateExistingVolume v sz ty"
  "\<lambda>(v, sz, ty). compatible v sz ty"
  by unfold_locales
    (auto simp: validateExistingVolume_def compatible_def parseLogicalVolumeSize_def Let_def
      split: sum.splits if_splits)

lemma validateExistingVolume_iff: "validateExistingVolume v sz ty = None \<longleftrightarrow> compatible v sz ty"
  using existing_volume.check_iff [of "(v, sz, ty)"] by simp

text \<open>
  When the volume is already in the inventory, a creation runs nothing but
  the listing; it succeeds, returning the name, exactly when the existing volume is at least as
  large as requested and of a matching segment type.
\<close>

lemma CreateLVS_existing:
  assumes "lvs_reports H lvsOf" and "snd (exec_of H (cmd_ex s) ''lvs'' lvs_args s) = None"
    and "lookup_in vg name (lvsOf (s_world s)) = Some volume"
    and "0 < sz" and "lvmType = StripedType \<or> lvmType = DmThinType"
  shows "\<exists>out err. run_state (CreateLVS H vg name sz lvmType) s =
            ((out, err), after H (cmd_ex s) ''lvs'' lvs_args s)
          \<and> (err = None \<longleftrightarrow> compatible volume sz lvmType) \<and> (err = None \<longrightarrow> out = name)"
  using assms validateExistingVolume_iff [of volume sz lvmType]
  by (auto simp: CreateLVS_def run_simps lvs_reportsD(3) split: option.splits)

subsection \<open>The thin pool\<close>

lemma run_rollback:
  "run_state (rollbackThinPoolCreate H vgName pool) s =
     (let s1 = after H (cmd_ex s) ''lvs'' lvs_args s;
          args = [''-q'', ''-y'', lv_ref vgName pool];
          e = exec_of H (cmd_ex s) ''lvremove'' args s1
      in case lvs_volumes (exec_of H (cmd_ex s) ''lvs'' lvs_args s) of
           Inl e \<Rightarrow> (Some (Errorf ''unable to inspect timed-out thin-pool creation: %w'' [] (Some e)), s1)
         | Inr vs \<Rightarrow>
             (case lookup_in vgName pool vs of
                None \<Rightarrow> (None, s1)
              | Some v \<Rightarrow>
                  if segtype v = ThinPoolType then (None, s1)
                  else if segtype v \<noteq> LinearType then
                    (Some (Errorf ''refusing to remove logical volume %q/%q with unexpected segment type %q''
                                             [vgName, pool, segtype v] None), s1)
                  else ((case snd e of
                      Some x \<Rightarrow> Some (Errorf ''unable to remove incomplete logical volume %q/%q: %w output:%s''
                                        [vgName, pool, fst e] (Some (CmdErr x)))
                    | None \<Rightarrow> None), after H (cmd_ex s) ''lvremove'' args s1)))"
  by (simp add: rollbackThinPoolCreate_def run_simps Let_def case_prod_beta
      split: sum.split option.split)

definition pool_ex :: "'w sys \<Rightarrow> executor" where
  "pool_ex s = \<lparr>cmdTimeout = s_poolTimeout s\<rparr>"

lemma run_createThinPool:
  "h_timed H \<Longrightarrow> run_state (createThinPool H vgName pool) s =
     (let args = thinPoolCreateArgs vgName pool;
          s1 = after H (pool_ex s) ''lvcreate'' args s
      in case snd (exec_of H (pool_ex s) ''lvcreate'' args s) of
           None \<Rightarrow> (None, s1)
         | Some e \<Rightarrow>
             if \<not> ce_timeout e then (Some (thinPoolCreateError vgName pool e), s1)
             else (case run_state (rollbackThinPoolCreate H vgName pool) s1 of
                     (None, s2) \<Rightarrow> (Some (thinPoolCreateError vgName pool e), s2)
                   | (Some e', s2) \<Rightarrow>
                       (Some (Errorf2 ''unable to create thin pool %q/%q: %w; rollback failed: %v'' [vgName, pool] (CmdErr e) e'), s2)))"
  by (simp add: createThinPool_def handleThinPoolCreateError_def run_simps Let_def case_prod_beta
      SetTimeout_def cmd_ex_def pool_ex_def split: option.split)

text \<open>
  C13 (safe rollback): the creation of a thin pool removes something only after its \<open>lvcreate\<close>
  timed out, only when the inventory then shows a volume of the pool's name whose segment type is
  still \<open>linear\<close>, and removes only that volume; and a failed creation is always reported.
\<close>

theorem createThinPool_rollback:
  assumes "lvs_reports H lvsOf" and "h_timed H"
    and "run_state (createThinPool H vgName pool) s = (r, t)"
  shows "\<exists>evs. s_log t = s_log s @ evs
    \<and> (r = None \<longleftrightarrow> snd (exec_of H (pool_ex s) ''lvcreate'' (thinPoolCreateArgs vgName pool) s) = None)
    \<and> (\<forall>e. e \<in> set evs \<and> ran ''lvremove'' e \<longrightarrow>
         ev_args e = [''-q'', ''-y'', lv_ref vgName pool]
         \<and> timed_out (snd (exec_of H (pool_ex s) ''lvcreate'' (thinPoolCreateArgs vgName pool) s))
         \<and> (\<exists>v. lookup_in vgName pool (lvsOf (s_world (after H (pool_ex s) ''lvcreate'' (thinPoolCreateArgs vgName pool) s))) = Some v
                \<and> segtype v = LinearType))"
proof -
  let ?args = "thinPoolCreateArgs vgName pool"
  let ?s1 = "after H (pool_ex s) ''lvcreate'' ?args s"
  note lvs = lvs_reportsD(2) [OF assms(1), of "cmd_ex s" ?s1, simplified]
  from assms(3) show ?thesis
    unfolding run_createThinPool [OF assms(2)] run_rollback Let_def
    by (auto simp: timed_out_def dest!: lvs split: option.splits if_splits sum.splits prod.splits)
qed

text \<open>A concrete LVM whose \<open>lvcreate\<close> hangs and leaves a half-made, linear volume behind.\<close>

definition pool_x :: logicalVolume where
  "pool_x = \<lparr>lv_name = ''vg-thinpool'', vg_name = ''vg'', lv_size = ''1'', segtype = ''linear'', origin = ''''\<rparr>"

definition slow_exec ::
  "int \<Rightarrow> string \<Rightarrow> string list \<Rightarrow> logicalVolume list \<Rightarrow> (string \<times> cmd_error option) \<times> logicalVolume list" where
  "slow_exec t c args w =
     (if c = ''lvcreate'' then (('''', Some timeout_error), pool_x # w) else lvm_exec t c args w)"

lemma slow_reports: "lvs_reports (quiet_host slow_exec) (map normalizeLogicalVolume)"
  by (auto simp: lvs_reports_def quiet_host_def slow_exec_def lvm_exec_def lvs_volumes_def decode_print_report)

lemma normalize_pool_x: "normalizeLogicalVolume pool_x = pool_x"
  by code_simp

theorem createThinPool_rollback_witness:
  "\<exists>r t evs. run_state (createThinPool (quiet_host slow_exec) ''vg'' ''vg-thinpool'') (start []) = (r, t)
     \<and> s_log t = evs \<and> r \<noteq> None \<and> length evs = 3
     \<and> ran ''lvremove'' (evs ! 2) \<and> ev_args (evs ! 2) = [''-q'', ''-y'', ''vg/vg-thinpool'']"
proof -
  let ?H = "quiet_host slow_exec"
  obtain r t where run: "run_state (createThinPool ?H ''vg'' ''vg-thinpool'') (start []) = (r, t)" by force
  have timed: "h_timed ?H" by (simp add: quiet_host_def)
  have ex: "h_exec ?H = slow_exec" by (simp add: quiet_host_def)
  have lvs: "lvs_volumes (print_report [[pool_x]], None) = Inr [pool_x]"
    by (simp add: lvs_volumes_def decode_print_report normalize_pool_x)
  have pool: "lv_name pool_x = ''vg-thinpool''" "vg_name pool_x = ''vg''" "segtype pool_x = LinearType"
    "LinearType \<noteq> ThinPoolType"
    by (simp_all add: pool_x_def lvm_types)
  from run have log: "length (s_log t) = 3 \<and> ran ''lvremove'' (s_log t ! 2)"
    unfolding run_createThinPool [OF timed] run_rollback Let_def
    by (simp add: ex exec_of_def slow_exec_def lvm_exec_def start_def lvs pool split: prod.splits)
      (auto split: option.splits)
  from createThinPool_rollback [OF slow_reports timed run]
  have "r \<noteq> None" and
    "\<forall>e. e \<in> set (s_log t) \<and> ran ''lvremove'' e \<longrightarrow> ev_args e = [''-q'', ''-y'', lv_ref ''vg'' ''vg-thinpool'']"
    by (auto simp: ex exec_of_def slow_exec_def)
  then show ?thesis using run log by (auto simp: lv_ref_def)
qed

text \<open>
  The pool of a volume group is removed only when the listing of thin pools gives a count for
  exactly \<open><vg>-thinpool\<close> in that group and the count is not positive; nothing else is ever removed.
\<close>

lemma RemoveThinPool_only_empty:
  assumes "run_state (RemoveThinPool H vgName) s = (r, t)"
  shows "\<exists>evs. s_log t = s_log s @ evs \<and>
    (\<forall>e. e \<in> set evs \<and> \<not> ran ''lvs'' e \<longrightarrow>
       ran ''lvremove'' e \<and> ev_args e = [''-q'', ''-y'', vgName @ ''/'' @ vgName @ ''-thinpool'']
       \<and> (\<exists>info c. thin_counts vgName Map.empty
              (split_on CHR 0x0A (fst (exec_of H (cmd_ex s) ''lvs'' [''--noheadings'', ''-o'', ''vg_name,segtype,name,thin_count''] s))) = Inr info
            \<and> info (vgName @ ''-thinpool'') = Some c \<and> c \<le> 0))"
proof -
  let ?args = "[''--noheadings'', ''-o'', ''vg_name,segtype,name,thin_count'']"
  let ?s1 = "after H (cmd_ex s) ''lvs'' ?args s"
  let ?pool = "thin_pool_name vgName"
  obtain out err where x: "exec_of H (cmd_ex s) ''lvs'' ?args s = (out, err)" by force
  show ?thesis
  proof (cases "\<exists>info c. err = None \<and> thin_counts vgName Map.empty (split_on CHR 0x0A out) = Inr info
            \<and> info ?pool = Some c \<and> c \<le> 0")
    case False
    then have "t = ?s1" using assms x
      by (auto simp: RemoveThinPool_def getThinPoolAndCounts_def run_simps Let_def
          split: option.splits sum.splits if_splits)
    then show ?thesis by simp
  next
    case True
    then obtain info c where i: "err = None" "thin_counts vgName Map.empty (split_on CHR 0x0A out) = Inr info"
        "info ?pool = Some c" "c \<le> 0" by blast
    then have t: "t = snd (run_state (RemoveLVSInVG H vgName ?pool) ?s1)" using assms x
      by (simp add: RemoveThinPool_def getThinPoolAndCounts_def run_simps Let_def case_prod_beta)
    then obtain evs where "s_log t = s_log ?s1 @ evs"
        "list_all (\<lambda>e. ran ''lvs'' e \<or> ran ''lvremove'' e \<and> ev_args e = [''-q'', ''-y'', lv_ref vgName ?pool]) evs"
      using volume_removal.removes_only_target [of vgName ?pool ?s1 H] by (auto simp: logs_def)
    with i x show ?thesis
      by (intro exI [of _ "ECmd ''lvs'' ?args (cmdTimeout (cmd_ex s)) out err # evs"])
        (auto simp: list_all_iff lv_ref_def thin_pool_name_def)
  qed
qed

lemma RemoveThinPool_only_empty_example:
  "\<exists>r t evs. run_state (RemoveThinPool lvm_host ''vg'') (start []) = (r, t) \<and> s_log t = evs
     \<and> (\<forall>e. e \<in> set evs \<and> \<not> ran ''lvs'' e \<longrightarrow> ran ''lvremove'' e)"
proof -
  obtain r t where run: "run_state (RemoveThinPool lvm_host ''vg'') (start []) = (r, t)" by force
  from RemoveThinPool_only_empty [OF run] have
    "\<forall>e. e \<in> set (s_log t) \<and> \<not> ran ''lvs'' e \<longrightarrow> ran ''lvremove'' e" by (auto simp: start_def)
  with run show ?thesis by blast
qed

subsection \<open>Extending\<close>

lemma unique_by_name_Some:
  "unique_by_name n (Some w) vs = Inr v \<longleftrightarrow> v = w \<and> filter (\<lambda>v. lv_name v = n) vs = []"
  by (induction vs arbitrary: w) auto

lemma unique_by_name_iff:
  "unique_by_name n None vs = Inr v \<longleftrightarrow> filter (\<lambda>v. lv_name v = n) vs = [v]"
  by (induction vs) (auto simp: unique_by_name_Some)

lemma resizeFilesystem_op:
  assumes "\<And>c a t out err. c \<in> {''blkid'', ''wipefs'', ''resize2fs'', ''xfs_growfs''} \<Longrightarrow> E (ECmd c a t out err)"
  shows "keeps (logs E) (resizeFilesystem H ex volume volumePath)"
  unfolding resizeFilesystem_def Let_def
  by (intro keeps_logs_bind getFilesystemType_op keeps_logs_sum keeps_logs_return assms)
    (auto simp: resize_command_def intro!: op_intro assms)

definition grows_only :: "logicalVolume list \<Rightarrow> string \<Rightarrow> nat \<Rightarrow> event \<Rightarrow> bool" where
  "grows_only vs name sz e \<longleftrightarrow> (ran ''lvextend'' e \<longrightarrow>
     (\<exists>v n. filter (\<lambda>v. lv_name v = name) vs = [v] \<and> ParseUint (lv_size v) = Inr n \<and> n < sz
        \<and> ev_args e = [''-L'', show_nat sz @ ''b'', ''-n'', vg_name v @ ''/'' @ name]))"

lemma grows_only_other [simp]: "\<not> ran ''lvextend'' e \<Longrightarrow> grows_only vs name sz e"
  by (simp add: grows_only_def)

lemma extendLVS_grows:
  assumes "lvs_reports H lvsOf" and "run_state (extendLVS H name sz isBlock volumePath) s = (r, t)"
  shows "logs (grows_only (lvsOf (s_world s)) name sz) s t"
proof -
  let ?s1 = "after H (cmd_ex s) ''lvs'' lvs_args s"
  let ?E = "grows_only (lvsOf (s_world s)) name sz"
  show ?thesis
  proof (cases "\<exists>v. fst (run_state (getLogicalVolumeByName H name) s) = Inr v")
    case False
    then have "t = ?s1" using assms(2)
      by (auto simp: extendLVS_def run_simps split: sum.splits)
    then show ?thesis by (simp add: logs_def)
  next
    case True
    then obtain v where v: "fst (run_state (getLogicalVolumeByName H name) s) = Inr v" by blast
    then obtain vs where "lvs_volumes (exec_of H (cmd_ex s) ''lvs'' lvs_args s) = Inr vs" "unique_by_name name None vs = Inr v"
      by (auto simp: run_simps split: sum.splits)
    then have u: "filter (\<lambda>v. lv_name v = name) (lvsOf (s_world s)) = [v]"
      using lvs_reportsD(2) [OF assms(1)] by (simp add: unique_by_name_iff)
    then have name: "lv_name v = name"
      by (metis (mono_tags, lifting) filter_eq_ConsD)
    have "keeps (logs ?E) (ensureLogicalVolumeSize H ex v sz)" for ex
      unfolding ensureLogicalVolumeSize_def
      using u name by (auto simp: parseLogicalVolumeSize_def buildLVExtendArgs_def bytes_arg_def lv_ref_def grows_only_def
          intro!: op_intro split: sum.splits)
    moreover have "keeps (logs ?E) (resizeFilesystem H ex v volumePath)" for ex
      by (intro resizeFilesystem_op) auto
    ultimately have "keeps (logs ?E) (do {
          ex \<leftarrow> newCommandExecutor;
          (lvOutput, err) \<leftarrow> ensureLogicalVolumeSize H ex v sz;
          (case err of
             Some e \<Rightarrow> State_Monad.return (lvOutput, Some e)
           | None \<Rightarrow>
               if isBlock then State_Monad.return (lvOutput, None)
               else do {
                 (fsOutput, err') \<leftarrow> resizeFilesystem H ex v volumePath;
                 State_Monad.return (combineCommandOutput [lvOutput, fsOutput], err')
               })
        })" (is "keeps _ ?m")
      by (intro op_intro)
    then have second: "logs ?E ?s1 (snd (run_state ?m ?s1))" by (rule keepsD')
    have first: "logs ?E s ?s1" by (simp add: logs_def)
    have "t = snd (run_state ?m ?s1)"
      using assms(2) v by (simp add: extendLVS_def run_getLogicalVolumeByName split: sum.splits)
    then show ?thesis using logs_transD [OF first second] by (simp only:)
  qed
qed

text \<open>
  An expansion runs \<open>lvextend\<close> only when exactly one logical volume of that name exists on the
  node, only on that volume, with the requested size, and only when the volume is smaller than
  that: a volume is never shrunk, and an ambiguous name never resized.
\<close>

lemma extendLVS_never_shrinks:
  assumes "lvs_reports H lvsOf" and "run_state (extendLVS H name sz isBlock volumePath) s = (r, t)"
  shows "\<exists>evs. s_log t = s_log s @ evs \<and>
    (\<forall>e. e \<in> set evs \<and> ran ''lvextend'' e \<longrightarrow>
       (\<exists>v n. filter (\<lambda>v. lv_name v = name) (lvsOf (s_world s)) = [v]
          \<and> ParseUint (lv_size v) = Inr n \<and> n < sz
          \<and> ev_args e = [''-L'', show_nat sz @ ''b'', ''-n'', vg_name v @ ''/'' @ name]))"
  using extendLVS_grows [OF assms] by (auto simp: logs_def list_all_iff grows_only_def)

lemma extendLVS_never_shrinks_example:
  "\<exists>r t. run_state (extendLVS lvm_host ''pvc-1'' 8388608 True '''') (start [volume_x]) = (r, t)
     \<and> length (s_log t) = 2 \<and> ran ''lvextend'' (s_log t ! 1)
     \<and> ev_args (s_log t ! 1) = [''-L'', ''8388608b'', ''-n'', ''vg/pvc-1'']"
proof -
  let ?s = "start [volume_x]"
  obtain r t where run: "run_state (extendLVS lvm_host ''pvc-1'' 8388608 True '''') ?s = (r, t)"
    by (rule prod.exhaust)
  have lvs: "lvs_volumes (print_report [[volume_x]], None) = Inr [volume_x]"
    by (simp add: lvs_volumes_def decode_print_report normalize_volume_x)
  have x: "lv_name volume_x = ''pvc-1''" "lv_size volume_x = ''4194304''" "vg_name volume_x = ''vg''"
    by (simp_all add: volume_x_def)
  have p: "ParseUint ''4194304'' = Inr 4194304"
    by (simp add: ParseUint_def is_digit_def digits_value_def digit_val_def max_uint64_def)
  from run have log: "length (s_log t) = 2 \<and> ran ''lvextend'' (s_log t ! 1)"
    by (simp add: extendLVS_def ensureLogicalVolumeSize_def parseLogicalVolumeSize_def run_simps
        exec_of_def lvm_exec_def lvs x p split: prod.splits) auto
  from extendLVS_never_shrinks [OF lvm_host_reports run]
  have "ev_args (s_log t ! 1) = [''-L'', ''8388608b'', ''-n'', ''vg/pvc-1'']"
    using log by (auto simp: normalize_volume_x x show_nat.simps digit_chars dest!: spec [of _ "s_log t ! 1"])
  then show ?thesis using run log by blast
qed

end
