(* ===== verification/Validation.thy ===== *)
theory Validation
  imports Volumes
begin

section \<open>Validation of requests and of stored metadata (\<open>validation.go\<close>)\<close>

text \<open>
  The messages of the CSI specification and the Kubernetes objects are modelled with the fields the
  driver reads; a nil-able pointer is an \<open>option\<close>.  The theory holds every function of
  \<open>validation.go\<close>, the contracts of the validators as instances of the locale \<open>validator\<close>, and
  the round trip from the parameters of a creation to the metadata that is read back from the
  persistent volume.
\<close>

subsection \<open>Messages\<close>

datatype access_mode =
    UNKNOWN | SINGLE_NODE_WRITER | SINGLE_NODE_READER_ONLY | MULTI_NODE_READER_ONLY
  | MULTI_NODE_SINGLE_WRITER | MULTI_NODE_MULTI_WRITER | SINGLE_NODE_SINGLE_WRITER
  | SINGLE_NODE_MULTI_WRITER | UNRECOGNIZED int

fun access_mode_name :: "access_mode \<Rightarrow> string" where
  "access_mode_name UNKNOWN = ''UNKNOWN''"
| "access_mode_name SINGLE_NODE_WRITER = ''SINGLE_NODE_WRITER''"
| "access_mode_name SINGLE_NODE_READER_ONLY = ''SINGLE_NODE_READER_ONLY''"
| "access_mode_name MULTI_NODE_READER_ONLY = ''MULTI_NODE_READER_ONLY''"
| "access_mode_name MULTI_NODE_SINGLE_WRITER = ''MULTI_NODE_SINGLE_WRITER''"
| "access_mode_name MULTI_NODE_MULTI_WRITER = ''MULTI_NODE_MULTI_WRITER''"
| "access_mode_name SINGLE_NODE_SINGLE_WRITER = ''SINGLE_NODE_SINGLE_WRITER''"
| "access_mode_name SINGLE_NODE_MULTI_WRITER = ''SINGLE_NODE_MULTI_WRITER''"
| "access_mode_name (UNRECOGNIZED n) = show_int n"

text \<open>The \<open>oneof access_type\<close> of a capability, and its two getters.\<close>

datatype access_type = BlockVolume | MountVolume (FsType: string) (MountFlags: "string list")

record volume_capability =
  cap_access :: "access_type option"
  cap_mode :: "access_mode option"

definition GetBlock :: "volume_capability \<Rightarrow> bool" where
  "GetBlock c \<longleftrightarrow> cap_access c = Some BlockVolume"

definition GetMount :: "volume_capability \<Rightarrow> (string \<times> string list) option" where
  "GetMount c = (case cap_access c of Some (MountVolume f fl) \<Rightarrow> Some (f, fl) | _ \<Rightarrow> None)"

record capacity_range =
  required_bytes :: int
  limit_bytes :: int

type_synonym topology = "strmap"

record topology_requirement =
  requisite :: "topology list"
  preferred :: "topology list"

record create_snapshot_request =
  cs_name :: string
  cs_source :: string

record node_publish_request =
  np_volumeId :: string
  np_target :: string
  np_capability :: "volume_capability option"
  np_readonly :: bool
  np_context :: strmap

record node_unpublish_request =
  nu_volumeId :: string
  nu_target :: string

record node_expand_request =
  ne_volumeId :: string
  ne_path :: string
  ne_range :: "capacity_range option"

datatype selector_op = OpIn | OpNotIn | OpExists | OpDoesNotExist | OpGt | OpLt

record selector_requirement =
  sr_key :: string
  sr_op :: selector_op
  sr_values :: "string list"

record csi_source =
  src_driver :: string
  src_handle :: string
  src_attributes :: strmap

record persistent_volume =
  pv_name :: string
  pv_csi :: "csi_source option"
  pv_affinity :: "(selector_requirement list list) option"

text \<open>
  \<open>pv_affinity\<close> is \<open>Spec.NodeAffinity.Required.NodeSelectorTerms\<close>: each term is its list of match
  expressions, and \<open>None\<close> stands for a missing affinity or a missing \<open>Required\<close>.
\<close>

record snapshot_status =
  st_handle :: "string option"
  st_restoreSize :: "int option"
  st_ready :: "bool option"

record snapshot_content =
  sc_name :: string
  sc_driver :: string
  sc_volumeHandle :: "string option"
  sc_snapshotHandle :: "string option"
  sc_status :: "snapshot_status option"
  sc_annotations :: strmap
  sc_snapshotRef :: "string \<times> string"

definition topologyKeyNode :: string where "topologyKeyNode = ''topology.lvm.csi/node''"

subsection \<open>Names, parameters, capacities\<close>

definition vg_char :: "char \<Rightarrow> bool" where
  "vg_char c \<longleftrightarrow> (let n = (of_char c :: nat) in
     (65 \<le> n \<and> n \<le> 90) \<or> (97 \<le> n \<and> n \<le> 122) \<or> (48 \<le> n \<and> n \<le> 57)
     \<or> c \<in> {CHR ''+'', CHR ''_'', CHR ''.'', CHR ''-''})"

definition validVGNamePattern :: "string \<Rightarrow> bool" where
  "validVGNamePattern s \<longleftrightarrow> s \<noteq> '''' \<and> list_all vg_char s"

definition validateVGName :: "string \<Rightarrow> check" where
  "validateVGName name =
     (if name = '''' then Some (msg ''volume group name is required'')
      else if name = ''.'' \<or> name = ''..'' then Some (Errorf ''volume group name %q is reserved'' [name] None)
      else if name ! 0 = CHR ''-'' then
        Some (Errorf ''volume group name %q must not begin with a hyphen'' [name] None)
      else if \<not> validVGNamePattern name then
        Some (Errorf ''volume group name %q contains invalid characters'' [name] None)
      else None)"

definition parseLVMParameters :: "strmap \<Rightarrow> (string \<times> string) res" where
  "parseLVMParameters parameters =
     (let lvmType = lookup parameters ''type'' in
      if lvmType \<noteq> StripedType \<and> lvmType \<noteq> DmThinType then
        Inl (Errorf ''lvmType is incorrect: %q'' [lvmType] None)
      else let vgName = lookup parameters ''vgName'' in
        if vgName = '''' then Inl (msg ''vgName is missing, please check the storage class'')
        else case validateVGName vgName of
               Some e \<Rightarrow> Inl e
             | None \<Rightarrow> Inr (lvmType, vgName))"

definition validateCapacityRange :: "capacity_range option \<Rightarrow> int res" where
  "validateCapacityRange capacityRange =
     (case capacityRange of
        None \<Rightarrow> Inl (msg ''capacity range with required bytes greater than zero is required'')
      | Some r \<Rightarrow>
          if required_bytes r \<le> 0 then
            Inl (msg ''capacity range with required bytes greater than zero is required'')
          else Inr (required_bytes r))"

definition validateCreateSnapshotRequest :: "create_snapshot_request \<Rightarrow> (string \<times> string) res" where
  "validateCreateSnapshotRequest req =
     (if cs_source req = '''' then Inl (msg ''source volume ID missing in request'')
      else if cs_name req = '''' then Inl (msg ''snapshot name missing in request'')
      else Inr (cs_name req, cs_source req))"

definition validateDeleteVolumeRequest :: "string \<Rightarrow> check" where
  "validateDeleteVolumeRequest volumeId =
     (if volumeId = '''' then Some (msg ''volume ID missing in request'') else None)"

definition buildVolumeContext :: "strmap \<Rightarrow> int \<Rightarrow> strmap" where
  "buildVolumeContext parameters requiredBytes =
     parameters(''RequiredBytes'' \<mapsto> show_int requiredBytes)"

subsection \<open>Capabilities\<close>

definition validateCapability :: "volume_capability option \<Rightarrow> check" where
  "validateCapability capability =
     (case capability of
        None \<Rightarrow> Some (msg ''volume capability must not be nil'')
      | Some c \<Rightarrow>
          if GetBlock c = (GetMount c \<noteq> None) then
            Some (msg ''volume capability must specify exactly one of block or mount access type'')
          else case cap_mode c of
                 None \<Rightarrow> Some (msg ''volume access mode is required'')
               | Some mode \<Rightarrow>
                   if mode \<in> {SINGLE_NODE_WRITER, SINGLE_NODE_READER_ONLY, SINGLE_NODE_SINGLE_WRITER}
                   then None else Some (Errorf ''unsupported access mode %q'' [access_mode_name mode] None))"

fun capability_loop :: "bool \<Rightarrow> bool \<Rightarrow> volume_capability option list \<Rightarrow> check" where
  "capability_loop hasBlock hasMount [] =
     (if hasBlock \<and> hasMount then Some (msg ''cannot combine block and mount access types'') else None)"
| "capability_loop hasBlock hasMount (c # cs) =
     (case validateCapability c of
        Some e \<Rightarrow> Some e
      | None \<Rightarrow> capability_loop (hasBlock \<or> GetBlock (the c)) (hasMount \<or> GetMount (the c) \<noteq> None) cs)"

definition validateVolumeCapabilities :: "volume_capability option list \<Rightarrow> check" where
  "validateVolumeCapabilities capabilities =
     (if capabilities = [] then Some (msg ''volume capabilities are required'')
      else capability_loop False False capabilities)"

definition validateNodePublishCapability :: "volume_capability option \<Rightarrow> bool \<Rightarrow> check" where
  "validateNodePublishCapability capability readOnly =
     (case validateVolumeCapabilities [capability] of
        Some e \<Rightarrow> Some e
      | None \<Rightarrow>
          if Option.bind capability cap_mode = Some SINGLE_NODE_READER_ONLY \<and> \<not> readOnly
          then Some (msg ''SINGLE_NODE_READER_ONLY requires readonly=true'') else None)"

subsection \<open>Node requests\<close>

definition validateNodePublishRequest :: "node_publish_request \<Rightarrow> string res" where
  "validateNodePublishRequest req =
     (if np_capability req = None then Inl (msg ''volume capability missing in request'')
      else if np_volumeId req = '''' then Inl (msg ''volume ID missing in request'')
      else if np_target req = '''' then Inl (msg ''target path missing in request'')
      else if \<not> IsAbs (np_target req) then Inl (msg ''target path must be absolute'')
      else case validateNodePublishCapability (np_capability req) (np_readonly req) of
             Some e \<Rightarrow> Inl e
           | None \<Rightarrow>
               let vgName = lookup (np_context req) ''vgName'' in
               if vgName = '''' then Inl (msg ''vgName is missing from volume context'')
               else case validateVGName vgName of
                      Some e \<Rightarrow> Inl e
                    | None \<Rightarrow> Inr vgName)"

definition validateNodeUnpublishRequest :: "node_unpublish_request \<Rightarrow> (string \<times> string) res" where
  "validateNodeUnpublishRequest req =
     (if nu_volumeId req = '''' then Inl (msg ''volume ID missing in request'')
      else if nu_target req = '''' then Inl (msg ''target path missing in request'')
      else if \<not> IsAbs (nu_target req) then Inl (msg ''target path must be absolute'')
      else Inr (nu_volumeId req, nu_target req))"

definition validateNodeExpandRequest :: "node_expand_request \<Rightarrow> (string \<times> string \<times> int) res" where
  "validateNodeExpandRequest req =
     (if ne_volumeId req = '''' then Inl (msg ''volume ID missing in request'')
      else if ne_path req = '''' then Inl (msg ''volume path not provided'')
      else case validateCapacityRange (ne_range req) of
             Inl e \<Rightarrow> Inl e
           | Inr capacity \<Rightarrow> Inr (ne_volumeId req, ne_path req, capacity))"

subsection \<open>Topology\<close>

text \<open>
  The sets of node names (Go maps with empty values) are duplicate-free lists; the code ranges
  over them only when they have one element.
\<close>

definition requisite_nodes :: "topology_requirement \<Rightarrow> string list" where
  "requisite_nodes requirement =
     remdups (filter (\<lambda>n. n \<noteq> '''') (map (\<lambda>t. lookup t topologyKeyNode) (requisite requirement)))"

fun preferred_loop :: "string list \<Rightarrow> topology list \<Rightarrow> string res option" where
  "preferred_loop requisiteNodes [] = None"
| "preferred_loop requisiteNodes (t # ts) =
     (let node = lookup t topologyKeyNode in
      if node = '''' then preferred_loop requisiteNodes ts
      else if requisiteNodes \<noteq> [] \<and> node \<notin> set requisiteNodes then
        Some (Inl (Errorf ''preferred node %q is not present in requisite topologies'' [node] None))
      else Some (Inr node))"

definition nodeFromAccessibility :: "topology_requirement option \<Rightarrow> string res" where
  "nodeFromAccessibility requirement =
     (case requirement of
        None \<Rightarrow> Inl (msg ''accessibility requirements are required for local LVM volumes'')
      | Some r \<Rightarrow>
          let requisiteNodes = requisite_nodes r in
          case preferred_loop requisiteNodes (preferred r) of
            Some res \<Rightarrow> res
          | None \<Rightarrow>
              (case requisiteNodes of
                 [] \<Rightarrow> Inl (Errorf ''accessibility requirements do not contain %q'' [topologyKeyNode] None)
               | [node] \<Rightarrow> Inr node
               | _ # _ # _ \<Rightarrow> Inl (msg ''multiple requisite nodes are unsupported without a preferred node'')))"

definition topologyFromAccessibility :: "topology_requirement option \<Rightarrow> (string \<times> topology list) res" where
  "topologyFromAccessibility requirement =
     (case nodeFromAccessibility requirement of
        Inl e \<Rightarrow> Inl e
      | Inr node \<Rightarrow> Inr (node, [[topologyKeyNode \<mapsto> node]]))"

subsection \<open>Persistent volumes\<close>

definition lvmAttributesFromPV :: "string \<Rightarrow> csi_source option \<Rightarrow> (string \<times> string) res" where
  "lvmAttributesFromPV name source =
     (case source of
        None \<Rightarrow> Inl (Errorf ''persistent volume %q has no CSI source'' [name] None)
      | Some s \<Rightarrow>
          let vgName = lookup (src_attributes s) ''vgName'' in
          if vgName = '''' then Inl (Errorf ''persistent volume %q has no vgName attribute'' [name] None)
          else case validateVGName vgName of
                 Some e \<Rightarrow> Inl (Errorf ''persistent volume %q has an invalid vgName attribute: %w'' [name] (Some e))
               | None \<Rightarrow>
                   let lvmType = lookup (src_attributes s) ''type'' in
                   if lvmType \<noteq> StripedType \<and> lvmType \<noteq> DmThinType then
                     Inl (Errorf ''persistent volume %q has invalid LVM type %q'' [name, lvmType] None)
                   else Inr (vgName, lvmType))"

definition matchExpressionsFromTerms :: "selector_requirement list list \<Rightarrow> selector_requirement list" where
  "matchExpressionsFromTerms terms = concat terms"

fun affinity_nodes :: "string \<Rightarrow> string list \<Rightarrow> selector_requirement list \<Rightarrow> string list res" where
  "affinity_nodes name nodes [] = Inr nodes"
| "affinity_nodes name nodes (expression # rest) =
     (if sr_key expression \<noteq> topologyKeyNode then affinity_nodes name nodes rest
      else if sr_op expression \<noteq> OpIn then
        Inl (Errorf ''persistent volume %q topology expression must use operator In'' [name] None)
      else affinity_nodes name
             (fold (\<lambda>node ns. if node = '''' then ns else List.insert node ns) (sr_values expression) nodes) rest)"

definition nodeFromPVAffinity :: "string \<Rightarrow> (selector_requirement list list) option \<Rightarrow> string res" where
  "nodeFromPVAffinity name affinity =
     (case affinity of
        None \<Rightarrow> Inl (Errorf ''persistent volume %q has no required node affinity'' [name] None)
      | Some terms \<Rightarrow>
          (case affinity_nodes name [] (matchExpressionsFromTerms terms) of
             Inl e \<Rightarrow> Inl e
           | Inr [node] \<Rightarrow> Inr node
           | Inr nodes \<Rightarrow>
               Inl (Errorf ''persistent volume %q must reference exactly one %q node, found %d''
                      [name, topologyKeyNode, show_nat (length nodes)] None)))"

definition metadataFromPV :: "persistent_volume option \<Rightarrow> (string \<times> string \<times> string) res" where
  "metadataFromPV volume =
     (case volume of
        None \<Rightarrow> Inl (msg ''persistent volume is nil'')
      | Some v \<Rightarrow>
          (case lvmAttributesFromPV (pv_name v) (pv_csi v) of
             Inl e \<Rightarrow> Inl e
           | Inr (vgName, lvmType) \<Rightarrow>
               (case nodeFromPVAffinity (pv_name v) (pv_affinity v) of
                  Inl e \<Rightarrow> Inl e
                | Inr nodeName \<Rightarrow> Inr (nodeName, vgName, lvmType))))"

definition requiredBytesFromPersistentVolume :: "persistent_volume option \<Rightarrow> int res" where
  "requiredBytesFromPersistentVolume volume =
     (case volume of
        None \<Rightarrow> Inl (msg ''persistent volume is nil'')
      | Some v \<Rightarrow>
          (case pv_csi v of
             None \<Rightarrow> Inl (Errorf ''persistent volume %q has no CSI source'' [pv_name v] None)
           | Some s \<Rightarrow>
               let val = lookup (src_attributes s) ''RequiredBytes'';
                   bad = Inl (Errorf ''persistent volume %q has invalid RequiredBytes attribute %q'' [pv_name v, val] None)
               in case ParseInt val of
                    Inl _ \<Rightarrow> bad
                  | Inr sz \<Rightarrow> if sz \<le> 0 then bad else Inr sz))"

subsection \<open>Snapshot contents\<close>

definition metadataFromSnapshotContent :: "snapshot_content option \<Rightarrow> (string \<times> string \<times> int) res" where
  "metadataFromSnapshotContent content =
     (case content of
        None \<Rightarrow> Inl (msg ''snapshot content is nil'')
      | Some c \<Rightarrow>
          (case sc_volumeHandle c of
             None \<Rightarrow> Inl (Errorf ''snapshot content %q has no source volume handle'' [sc_name c] None)
           | Some handle \<Rightarrow>
               if handle = '''' then
                 Inl (Errorf ''snapshot content %q has no source volume handle'' [sc_name c] None)
               else
                 (case sc_status c of
                    None \<Rightarrow> Inl (Errorf ''snapshot content %q is not ready to restore'' [sc_name c] None)
                  | Some st \<Rightarrow>
                      (case (st_restoreSize st, st_handle st) of
                         (Some sz, Some h) \<Rightarrow>
                           if h = '''' \<or> sz \<le> 0 then
                             Inl (Errorf ''snapshot content %q is not ready to restore'' [sc_name c] None)
                           else Inr (handle, h, sz)
                       | _ \<Rightarrow> Inl (Errorf ''snapshot content %q is not ready to restore'' [sc_name c] None)))))"

definition handle_of :: "string option \<Rightarrow> string" where
  "handle_of h = (case h of None \<Rightarrow> '''' | Some s \<Rightarrow> s)"

definition preProvisionedSnapshotMetadata :: "snapshot_content option \<Rightarrow> (string \<times> int) res" where
  "preProvisionedSnapshotMetadata content =
     (case content of
        None \<Rightarrow> Inl (msg ''snapshot content is nil'')
      | Some c \<Rightarrow>
          let statusHandle = handle_of (Option.bind (sc_status c) st_handle);
              sourceHandle = handle_of (sc_snapshotHandle c);
              snapshotID = (if statusHandle = '''' then sourceHandle else statusHandle)
          in if statusHandle \<noteq> '''' \<and> sourceHandle \<noteq> '''' \<and> statusHandle \<noteq> sourceHandle then
               Inl (Errorf ''pre-provisioned snapshot content %q has conflicting snapshot handles %q and %q''
                      [sc_name c, statusHandle, sourceHandle] None)
             else if snapshotID = '''' then
               Inl (Errorf ''pre-provisioned snapshot content %q has no snapshot handle'' [sc_name c] None)
             else case Option.bind (sc_status c) st_restoreSize of
                    None \<Rightarrow> Inr (snapshotID, 0)
                  | Some sz \<Rightarrow>
                      if sz < 0 then
                        Inl (Errorf ''pre-provisioned snapshot content %q has invalid restore size %d''
                               [sc_name c, show_int sz] None)
                      else Inr (snapshotID, sz))"


subsection \<open>What the validators accept\<close>

definition vg_name_ok :: "string \<Rightarrow> bool" where
  "vg_name_ok n \<longleftrightarrow> n \<noteq> '''' \<and> n \<noteq> ''.'' \<and> n \<noteq> ''..'' \<and> hd n \<noteq> CHR ''-'' \<and> list_all vg_char n"

interpretation vg_name: validator validateVGName vg_name_ok
  by unfold_locales (auto simp: validateVGName_def validVGNamePattern_def vg_name_ok_def hd_conv_nth)

lemma vg_char_no_slash: "vg_char c \<Longrightarrow> c \<noteq> CHR ''/'' \<and> c \<noteq> CHR '' ''"
  by (auto simp: vg_char_def)

lemma vg_name_no_slash: "vg_name_ok n \<Longrightarrow> CHR ''/'' \<notin> set n \<and> CHR '' '' \<notin> set n"
  using vg_char_no_slash by (auto simp: vg_name_ok_def list_all_iff)

lemma append_sep_inj:
  assumes "c \<notin> set xs" and "c \<notin> set ys" and "xs @ c # us = ys @ c # vs"
  shows "xs = ys \<and> us = vs"
  using assms by (induction xs arbitrary: ys) (auto simp: Cons_eq_append_conv append_eq_Cons_conv)

text \<open>
  C38: a volume group name that the driver accepts is one component of a path and no option of a
  command: it does not start with a hyphen, and the references \<open>vg/lv\<close> and the device paths
  \<open>/dev/vg/lv\<close> built from accepted names determine the volume group and the logical volume.
\<close>

theorem validateVGName_separates:
  assumes "validateVGName vg = None" and "validateVGName vg' = None"
  shows "(lv_ref vg n = lv_ref vg' n' \<longleftrightarrow> vg = vg' \<and> n = n')
    \<and> (device_path vg n = device_path vg' n' \<longleftrightarrow> vg = vg' \<and> n = n')
    \<and> hd (lv_ref vg n) \<noteq> CHR ''-''"
proof -
  have ok: "vg_name_ok vg" "vg_name_ok vg'" using assms by (simp_all add: vg_name.check_iff)
  then have "CHR ''/'' \<notin> set vg" "CHR ''/'' \<notin> set vg'" by (simp_all add: vg_name_no_slash)
  then have "vg @ CHR ''/'' # n = vg' @ CHR ''/'' # n' \<longleftrightarrow> vg = vg' \<and> n = n'"
    using append_sep_inj [of "CHR ''/''" vg vg' n n'] by auto
  moreover have "hd (vg @ r) \<noteq> CHR ''-''" for r using ok(1) by (simp add: vg_name_ok_def)
  ultimately show ?thesis by (simp add: lv_ref_def device_path_def)
qed

theorem validateVGName_separates_witness:
  "validateVGName ''vg01'' = None \<and> validateVGName ''vg-02'' = None
   \<and> lv_ref ''vg01'' ''pvc-1'' \<noteq> lv_ref ''vg-02'' ''pvc-1''
   \<and> validateVGName ''-vg'' \<noteq> None \<and> validateVGName ''a/b'' \<noteq> None"
proof -
  have ok: "validateVGName ''vg01'' = None" "validateVGName ''vg-02'' = None"
    "validateVGName ''-vg'' \<noteq> None" "validateVGName ''a/b'' \<noteq> None"
    by code_simp+
  with validateVGName_separates [OF ok(1,2), of "''pvc-1''" "''pvc-1''"] show ?thesis by simp
qed

subsection \<open>Capabilities\<close>

definition single_node :: "access_mode option \<Rightarrow> bool" where
  "single_node m \<longleftrightarrow> m \<in> Some ` {SINGLE_NODE_WRITER, SINGLE_NODE_READER_ONLY, SINGLE_NODE_SINGLE_WRITER}"

definition capability_ok :: "volume_capability option \<Rightarrow> bool" where
  "capability_ok c \<longleftrightarrow> (case c of None \<Rightarrow> False | Some v \<Rightarrow> cap_access v \<noteq> None \<and> single_node (cap_mode v))"

lemma block_mount_exclusive:
  "GetBlock c = (GetMount c \<noteq> None) \<longleftrightarrow> cap_access c = None"
  by (auto simp: GetBlock_def GetMount_def split: option.splits access_type.splits)

interpretation capability: validator validateCapability capability_ok
proof
  fix c
  show "validateCapability c = None \<longleftrightarrow> capability_ok c"
    unfolding validateCapability_def capability_ok_def block_mount_exclusive
    by (auto simp: single_node_def split: option.splits)
qed

lemma capability_ok_access:
  assumes "capability_ok c"
  shows "\<not> GetBlock (the c) \<Longrightarrow> \<exists>f fl. cap_access (the c) = Some (MountVolume f fl)"
    and "GetMount (the c) = None \<Longrightarrow> cap_access (the c) = Some BlockVolume"
  using assms by (auto simp: capability_ok_def GetBlock_def GetMount_def split: option.splits access_type.splits)
    (metis access_type.exhaust)

lemma capability_loop_iff:
  "capability_loop b m cs = None \<longleftrightarrow> (\<forall>c \<in> set cs. capability_ok c)
     \<and> \<not> ((b \<or> (\<exists>c \<in> set cs. GetBlock (the c))) \<and> (m \<or> (\<exists>c \<in> set cs. GetMount (the c) \<noteq> None)))"
proof (induction cs arbitrary: b m)
  case (Cons c cs)
  show ?case
    by (cases "validateCapability c") (auto simp: Cons.IH dest: capability.accepts simp flip: capability.check_iff)
qed simp

text \<open>
  C39: the capabilities of a volume are accepted exactly when there is one at least, each is
  present, names an access type and a single-node access mode, and all are block or all are mount.
\<close>

theorem validateVolumeCapabilities_iff:
  "validateVolumeCapabilities cs = None \<longleftrightarrow>
     (\<exists>vs. cs = map Some vs \<and> vs \<noteq> [] \<and> (\<forall>v \<in> set vs. single_node (cap_mode v))
        \<and> ((\<forall>v \<in> set vs. cap_access v = Some BlockVolume)
           \<or> (\<forall>v \<in> set vs. \<exists>f fl. cap_access v = Some (MountVolume f fl))))"
    (is "_ \<longleftrightarrow> ?rhs")
proof
  assume ok: "validateVolumeCapabilities cs = None"
  then have c: "cs \<noteq> []" "\<forall>c \<in> set cs. capability_ok c"
    "\<not> ((\<exists>c \<in> set cs. GetBlock (the c)) \<and> (\<exists>c \<in> set cs. GetMount (the c) \<noteq> None))"
    by (auto simp: validateVolumeCapabilities_def capability_loop_iff split: if_splits)
  then have some: "cs = map Some (map the cs)"
    by (auto simp: map_idI capability_ok_def split: option.splits intro!: map_idI [symmetric])
  moreover have "\<forall>v \<in> set (map the cs). single_node (cap_mode v)"
    using c(2) by (auto simp: capability_ok_def split: option.splits)
  moreover have "(\<forall>v \<in> set (map the cs). cap_access v = Some BlockVolume)
      \<or> (\<forall>v \<in> set (map the cs). \<exists>f fl. cap_access v = Some (MountVolume f fl))"
    using c(2,3) capability_ok_access by (metis (no_types, lifting) imageE list.set_map)
  ultimately show ?rhs using c(1) by (intro exI [of _ "map the cs"]) auto
next
  assume ?rhs
  then show "validateVolumeCapabilities cs = None"
    by (auto simp: validateVolumeCapabilities_def capability_loop_iff capability_ok_def GetBlock_def GetMount_def)
      force+
qed


theorem validateVolumeCapabilities_iff_witness:
  "validateVolumeCapabilities [Some \<lparr>cap_access = Some BlockVolume, cap_mode = Some SINGLE_NODE_WRITER\<rparr>] = None
   \<and> validateVolumeCapabilities [Some \<lparr>cap_access = Some BlockVolume, cap_mode = Some SINGLE_NODE_WRITER\<rparr>,
        Some \<lparr>cap_access = Some (MountVolume ''ext4'' []), cap_mode = Some SINGLE_NODE_WRITER\<rparr>] \<noteq> None"
  unfolding validateVolumeCapabilities_iff
  by (auto simp: single_node_def Cons_eq_map_conv intro!: exI [of _ "[_]"])

text \<open>
  A publication request passes validation exactly when it has a volume, an absolute target
  path, one valid capability (a reader-only one only with \<open>readonly\<close>) and a valid volume group name
  in its context, and the name is then the result.
\<close>

lemma validateNodePublishRequest_iff:
  "validateNodePublishRequest req = Inr vg \<longleftrightarrow>
     np_volumeId req \<noteq> '''' \<and> prefix ''/'' (np_target req)
     \<and> (\<exists>c. np_capability req = Some c \<and> cap_access c \<noteq> None \<and> single_node (cap_mode c)
          \<and> (cap_mode c = Some SINGLE_NODE_READER_ONLY \<longrightarrow> np_readonly req))
     \<and> np_context req ''vgName'' = Some vg \<and> vg_name_ok vg"
proof -
  have one: "validateVolumeCapabilities [Some c] = None \<longleftrightarrow> cap_access c \<noteq> None \<and> single_node (cap_mode c)" for c
    by (auto simp: validateVolumeCapabilities_def capability_loop_iff capability_ok_def GetBlock_def GetMount_def
        simp del: capability_loop.simps)
  have cap: "validateNodePublishCapability (Some c) ro = None \<longleftrightarrow>
      cap_access c \<noteq> None \<and> single_node (cap_mode c) \<and> (cap_mode c = Some SINGLE_NODE_READER_ONLY \<longrightarrow> ro)" for c ro
    using one [of c] unfolding validateNodePublishCapability_def
    by (cases "validateVolumeCapabilities [Some c]") auto
  have vg: "lookup m ''vgName'' = vg \<and> lookup m ''vgName'' \<noteq> '''' \<and> validateVGName (lookup m ''vgName'') = None
      \<longleftrightarrow> m ''vgName'' = Some vg \<and> vg_name_ok vg" for m :: strmap
    by (auto simp: vg_name.check_iff lookup_def vg_name_ok_def split: option.splits)
  show ?thesis
  proof (cases "np_capability req")
    case None
    then show ?thesis by (simp add: validateNodePublishRequest_def)
  next
    case (Some c)
    then show ?thesis unfolding validateNodePublishRequest_def IsAbs_def Let_def vg [symmetric]
      using cap [of c "np_readonly req"]
      by (cases "validateNodePublishCapability (Some c) (np_readonly req)") (auto split: option.split)
  qed
qed

subsection \<open>Topology\<close>

lemma requisite_nodes_iff:
  "n \<in> set (requisite_nodes r) \<longleftrightarrow> n \<noteq> '''' \<and> (\<exists>t \<in> set (requisite r). lookup t topologyKeyNode = n)"
  by (auto simp: requisite_nodes_def)

lemma preferred_loop_None:
  "preferred_loop ns ts = None \<longleftrightarrow> (\<forall>t \<in> set ts. lookup t topologyKeyNode = '''')"
  by (induction ts) (auto simp: Let_def)

lemma preferred_loop_Inr:
  "preferred_loop ns ts = Some (Inr n) \<Longrightarrow>
     n \<noteq> '''' \<and> (ns \<noteq> [] \<longrightarrow> n \<in> set ns) \<and> (\<exists>t \<in> set ts. lookup t topologyKeyNode = n)"
  by (induction ts) (auto simp: Let_def split: if_splits)

lemma node_chosen:
  assumes "nodeFromAccessibility (Some r) = Inr node"
  shows "preferred_loop (requisite_nodes r) (preferred r) = Some (Inr node)
    \<or> preferred_loop (requisite_nodes r) (preferred r) = None \<and> requisite_nodes r = [node]"
  using assms by (auto simp: nodeFromAccessibility_def Let_def split: list.splits option.splits)

lemma node_chosen_nonempty: "nodeFromAccessibility (Some r) = Inr node \<Longrightarrow> node \<noteq> ''''"
  using node_chosen [of r node] preferred_loop_Inr requisite_nodes_iff [of node r] by force

text \<open>
  The node chosen for a volume is named by the requirement, is one of the requisite nodes
  whenever there are any, and is never the empty name; with no preferred node it is the only
  requisite one.
\<close>

lemma nodeFromAccessibility_sound:
  assumes "nodeFromAccessibility (Some r) = Inr node"
  shows "node \<noteq> ''''
    \<and> (requisite_nodes r \<noteq> [] \<longrightarrow> node \<in> set (requisite_nodes r))
    \<and> (\<exists>t \<in> set (requisite r) \<union> set (preferred r). lookup t topologyKeyNode = node)
    \<and> ((\<forall>t \<in> set (preferred r). lookup t topologyKeyNode = '''') \<longrightarrow> requisite_nodes r = [node])"
  using node_chosen [OF assms]
proof
  assume p: "preferred_loop (requisite_nodes r) (preferred r) = Some (Inr node)"
  then have "\<not> (\<forall>t \<in> set (preferred r). lookup t topologyKeyNode = '''')"
    by (metis option.distinct(1) preferred_loop_None)
  with preferred_loop_Inr [OF p] show ?thesis by blast
next
  assume "preferred_loop (requisite_nodes r) (preferred r) = None \<and> requisite_nodes r = [node]"
  then show ?thesis using requisite_nodes_iff [of node r] by auto
qed

lemma nodeFromAccessibility_sound_example:
  "\<exists>r. nodeFromAccessibility (Some r) = Inr ''node1'' \<and> ''node1'' \<in> set (requisite_nodes r)"
proof -
  let ?r = "\<lparr>requisite = [[topologyKeyNode \<mapsto> ''node2''], [topologyKeyNode \<mapsto> ''node1'']],
             preferred = [[topologyKeyNode \<mapsto> ''node1'']]\<rparr>"
  have n: "nodeFromAccessibility (Some ?r) = Inr ''node1''" "requisite_nodes ?r = [''node2'', ''node1'']"
    by (simp_all add: nodeFromAccessibility_def requisite_nodes_def)
  from nodeFromAccessibility_sound [OF n(1)] n show ?thesis by (intro exI [of _ ?r]) simp
qed

subsection \<open>The round trip through a persistent volume\<close>

lemma parseLVMParameters_Inr:
  "parseLVMParameters p = Inr (ty, vg) \<longleftrightarrow>
     p ''type'' = Some ty \<and> (ty = StripedType \<or> ty = DmThinType) \<and> p ''vgName'' = Some vg \<and> vg_name_ok vg"
proof -
  have "StripedType \<noteq> ''''" "DmThinType \<noteq> ''''" by (simp_all add: lvm_types)
  moreover have "vg_name_ok vg \<Longrightarrow> vg \<noteq> ''''" by (simp add: vg_name_ok_def)
  ultimately show ?thesis
    by (auto simp: parseLVMParameters_def Let_def vg_name.check_iff lookup_def dest: vg_name.accepts
        split: option.splits if_splits)
qed

lemma nodeFromPVAffinity_single:
  "node \<noteq> '''' \<Longrightarrow>
     nodeFromPVAffinity name (Some [[\<lparr>sr_key = topologyKeyNode, sr_op = OpIn, sr_values = [node]\<rparr>]]) = Inr node"
  by (simp add: nodeFromPVAffinity_def matchExpressionsFromTerms_def)

text \<open>
  What a creation returns (the volume context and the topology) and what
  the driver later reads from the persistent volume agree.  The hypotheses on the volume are what
  the external provisioner documents: the attributes of its CSI source are the returned volume
  context, its node affinity has one \<open>In\<close> expression with the segment of the returned topology.
  The size is the one requested, as long as it is a positive 64-bit integer, as \<open>required_bytes\<close> is.
\<close>

lemma volume_metadata:
  assumes "parseLVMParameters params = Inr (lvmType, vgName)"
    and "topologyFromAccessibility req = Inr (node, topology)"
    and "validateCapacityRange (Some cr) = Inr n" and "n \<le> int max_int64"
    and "pv_csi pv = Some source" and "src_attributes source = buildVolumeContext params n"
    and "pv_affinity pv = Some [[\<lparr>sr_key = topologyKeyNode, sr_op = OpIn,
           sr_values = [lookup (hd topology) topologyKeyNode]\<rparr>]]"
  shows "metadataFromPV (Some pv) = Inr (node, vgName, lvmType)
    \<and> requiredBytesFromPersistentVolume (Some pv) = Inr (required_bytes cr)"
proof -
  from assms(2) obtain r where r: "req = Some r" "nodeFromAccessibility (Some r) = Inr node" "topology = [[topologyKeyNode \<mapsto> node]]"
    by (cases req) (auto simp: topologyFromAccessibility_def nodeFromAccessibility_def split: sum.splits)
  from r(2) have "node \<noteq> ''''" by (rule node_chosen_nonempty)
  then have "nodeFromPVAffinity (pv_name pv) (pv_affinity pv) = Inr node"
    using assms(7) r(3) by (simp add: nodeFromPVAffinity_single)
  moreover have n: "0 < n" "n = required_bytes cr" using assms(3)
    by (auto simp: validateCapacityRange_def split: if_splits)
  moreover have "ParseInt (show_int n) = Inr n" using n(1) assms(4) by (intro ParseInt_show_int) auto
  ultimately show ?thesis
    using assms(1,5,6) vg_name.accepts [of vgName]
    by (auto simp: metadataFromPV_def lvmAttributesFromPV_def requiredBytesFromPersistentVolume_def
        buildVolumeContext_def parseLVMParameters_Inr lookup_def vg_name_ok_def)
qed

text \<open>The errors of the metadata readers are plain messages, never a status or an API error.\<close>

lemma affinity_nodes_error: "affinity_nodes name ns es = Inl e \<Longrightarrow> \<exists>f a c. e = Errorf f a c"
  by (induction name ns es rule: affinity_nodes.induct) (auto split: if_splits)

lemma metadataFromPV_error: "metadataFromPV v = Inl e \<Longrightarrow> \<exists>f a c. e = Errorf f a c"
  by (auto simp: metadataFromPV_def lvmAttributesFromPV_def nodeFromPVAffinity_def Let_def
      split: option.splits sum.splits if_splits list.splits prod.splits dest!: affinity_nodes_error)

end
