(* ===== verification/Kube.thy ===== *)
theory Kube
  imports Validation
begin

section \<open>The Kubernetes API as the controller sees it\<close>

text \<open>
  The API server, the clock and the SHA-256 digest are not part of the repository: they are the
  parameter \<open>K\<close>, a record of operations over an arbitrary cluster \<open>'k\<close>.  Every call may change the
  cluster, as other clients act between two calls of the driver.  A read returns an error or the
  object, and a nil object is \<open>None\<close>.

  The request context is modelled by the number of polls after which it ends (any number) and the
  reason, cancellation or deadline; \<open>ctx.Err()\<close> between polls is asked of the cluster.  Writes are
  recorded in \<open>c_log\<close> with their results, oldest first.
\<close>

subsection \<open>Pods\<close>

record volume_mount =
  vm_name :: string
  vm_path :: string
  vm_propagation :: "string option"
  vm_readOnly :: bool

record host_volume =
  hv_name :: string
  hv_path :: string
  hv_type :: "string option"

record container =
  co_name :: string
  co_image :: string
  co_command :: "string list"
  co_args :: "string list"
  co_mounts :: "volume_mount list"
  co_terminationPath :: string
  co_terminationPolicy :: string
  co_pullPolicy :: string
  co_privileged :: "bool option"

record pod_spec =
  ps_automount :: "bool option"
  ps_restartPolicy :: string
  ps_nodeName :: string
  ps_activeDeadline :: "int option"
  ps_gracePeriod :: "int option"
  ps_tolerations :: "string list"
  ps_containers :: "container list"
  ps_volumes :: "host_volume list"

record terminated =
  te_exitCode :: int
  te_reason :: string
  te_message :: string

record container_status =
  cst_name :: string
  cst_terminated :: "terminated option"

record pod =
  p_name :: string
  p_labels :: strmap
  p_annotations :: strmap
  p_deletionTimestamp :: "int option"
  p_spec :: pod_spec
  p_phase :: string
  p_reason :: string
  p_message :: string
  p_containerStatuses :: "container_status list"

definition PodSucceeded :: string where "PodSucceeded = ''Succeeded''"
definition PodFailed :: string where "PodFailed = ''Failed''"

lemma phases_differ [simp]: "PodSucceeded \<noteq> PodFailed" "PodFailed \<noteq> PodSucceeded"
  by (simp_all add: PodSucceeded_def PodFailed_def)

record config_map =
  cm_name :: string
  cm_namespace :: string
  cm_labels :: strmap
  cm_data :: strmap
  cm_immutable :: bool

subsection \<open>The API\<close>

datatype ctx_error = CtxCanceled | CtxDeadlineExceeded

record 'k kube =
  k_getPod :: "string \<Rightarrow> string \<Rightarrow> 'k \<Rightarrow> (api_error + pod option) \<times> 'k"
  k_listPods :: "string \<Rightarrow> 'k \<Rightarrow> (api_error + pod list) \<times> 'k"
  k_createPod :: "string \<Rightarrow> pod \<Rightarrow> 'k \<Rightarrow> api_error option \<times> 'k"
  k_deletePod :: "string \<Rightarrow> string \<Rightarrow> int option \<Rightarrow> 'k \<Rightarrow> api_error option \<times> 'k"
  k_getPV :: "string \<Rightarrow> 'k \<Rightarrow> (api_error + persistent_volume option) \<times> 'k"
  k_getNode :: "string \<Rightarrow> 'k \<Rightarrow> api_error option \<times> 'k"
  k_listContents :: "'k \<Rightarrow> (api_error + snapshot_content list) \<times> 'k"
  k_createConfigMap :: "string \<Rightarrow> config_map \<Rightarrow> 'k \<Rightarrow> api_error option \<times> 'k"
  k_getConfigMap :: "string \<Rightarrow> string \<Rightarrow> 'k \<Rightarrow> (api_error + config_map option) \<times> 'k"
  k_deleteConfigMap :: "string \<Rightarrow> string \<Rightarrow> 'k \<Rightarrow> api_error option \<times> 'k"
  k_ctxErr :: "'k \<Rightarrow> ctx_error option"
  k_tick :: "'k \<Rightarrow> 'k"
  k_now :: "'k \<Rightarrow> int"
  k_derivative :: "pod_spec \<Rightarrow> pod_spec \<Rightarrow> bool"
  k_sha256hex :: "string \<Rightarrow> string"

datatype kevent =
    KCreatePod string pod "api_error option"
  | KDeletePod string string "int option" "api_error option"
  | KCreateConfigMap string config_map "api_error option"
  | KDeleteConfigMap string string "api_error option"

record 'k ctl =
  c_world :: 'k
  c_polls :: nat
  c_reason :: ctx_error
  c_log :: "kevent list"

type_synonym ('k, 'a) kop = "('k ctl, 'a) state"

text \<open>\<open>status.FromContextError(err).Err()\<close>\<close>

definition FromContextError :: "ctx_error \<Rightarrow> goerr" where
  "FromContextError e =
     (case e of
        CtxCanceled \<Rightarrow> Status Canceled (msg ''context canceled'')
      | CtxDeadlineExceeded \<Rightarrow> Status DeadlineExceeded (msg ''context deadline exceeded''))"

definition status_of :: "check \<Rightarrow> grpc_code option" where
  "status_of r = map_option status_code r"

lemma status_of_simps [simp]: "status_of None = None" "status_of (Some (Status c e)) = Some c"
  by (simp_all add: status_of_def)

definition k_read :: "('k \<Rightarrow> 'a \<times> 'k) \<Rightarrow> ('k, 'a) kop" where
  "k_read f = State (\<lambda>s. let (r, w) = f (c_world s) in (r, s\<lparr>c_world := w\<rparr>))"

definition k_write :: "(api_error option \<Rightarrow> kevent) \<Rightarrow> ('k \<Rightarrow> api_error option \<times> 'k) \<Rightarrow> ('k, api_error option) kop" where
  "k_write ev f = State (\<lambda>s. let (r, w) = f (c_world s) in (r, s\<lparr>c_world := w, c_log := c_log s @ [ev r]\<rparr>))"

definition k_ask :: "('k \<Rightarrow> 'a) \<Rightarrow> ('k, 'a) kop" where
  "k_ask f = State (\<lambda>s. (f (c_world s), s))"

definition getPod :: "'k kube \<Rightarrow> string \<Rightarrow> string \<Rightarrow> ('k, api_error + pod option) kop" where
  "getPod K ns name = k_read (k_getPod K ns name)"

definition listPods :: "'k kube \<Rightarrow> string \<Rightarrow> ('k, api_error + pod list) kop" where
  "listPods K ns = k_read (k_listPods K ns)"

definition createPod :: "'k kube \<Rightarrow> string \<Rightarrow> pod \<Rightarrow> ('k, api_error option) kop" where
  "createPod K ns p = k_write (KCreatePod ns p) (k_createPod K ns p)"

definition deletePod :: "'k kube \<Rightarrow> string \<Rightarrow> string \<Rightarrow> int option \<Rightarrow> ('k, api_error option) kop" where
  "deletePod K ns name grace = k_write (KDeletePod ns name grace) (k_deletePod K ns name grace)"

definition getPV :: "'k kube \<Rightarrow> string \<Rightarrow> ('k, api_error + persistent_volume option) kop" where
  "getPV K name = k_read (k_getPV K name)"

definition getNode :: "'k kube \<Rightarrow> string \<Rightarrow> ('k, api_error option) kop" where
  "getNode K name = k_read (k_getNode K name)"

definition listContents :: "'k kube \<Rightarrow> ('k, api_error + snapshot_content list) kop" where
  "listContents K = k_read (k_listContents K)"

definition createConfigMap :: "'k kube \<Rightarrow> string \<Rightarrow> config_map \<Rightarrow> ('k, api_error option) kop" where
  "createConfigMap K ns cm = k_write (KCreateConfigMap ns cm) (k_createConfigMap K ns cm)"

definition getConfigMap :: "'k kube \<Rightarrow> string \<Rightarrow> string \<Rightarrow> ('k, api_error + config_map option) kop" where
  "getConfigMap K ns name = k_read (k_getConfigMap K ns name)"

definition deleteConfigMap :: "'k kube \<Rightarrow> string \<Rightarrow> string \<Rightarrow> ('k, api_error option) kop" where
  "deleteConfigMap K ns name = k_write (KDeleteConfigMap ns name) (k_deleteConfigMap K ns name)"

lemmas api_calls = getPod_def listPods_def createPod_def deletePod_def getPV_def getNode_def listContents_def
  createConfigMap_def getConfigMap_def deleteConfigMap_def

lemma run_k_read [run_simps]:
  "run_state (k_read f) s = (fst (f (c_world s)), s\<lparr>c_world := snd (f (c_world s))\<rparr>)"
  by (simp add: k_read_def case_prod_beta)

lemma run_k_write [run_simps]:
  "run_state (k_write ev f) s =
     (fst (f (c_world s)), s\<lparr>c_world := snd (f (c_world s)), c_log := c_log s @ [ev (fst (f (c_world s)))]\<rparr>)"
  by (simp add: k_write_def case_prod_beta)

lemma run_k_ask [run_simps]: "run_state (k_ask f) s = (f (c_world s), s)"
  by (simp add: k_ask_def)

subsection \<open>What an operation may write\<close>

text \<open>\<open>writes E s t\<close>: from \<open>s\<close> to \<open>t\<close> the driver made only writes that satisfy \<open>E\<close>.\<close>

definition writes :: "(kevent \<Rightarrow> bool) \<Rightarrow> 'k ctl \<Rightarrow> 'k ctl \<Rightarrow> bool" where
  "writes E s t \<longleftrightarrow> (\<exists>evs. c_log t = c_log s @ evs \<and> list_all E evs)"

named_theorems kop_intro \<open>what the operations may write\<close>

lemma writes_refl: "reflp (writes E)"
  by (auto simp: reflp_def writes_def)

lemma writes_trans: "transp (writes E)"
  by (fastforce simp: transp_def writes_def)

lemma writes_transD: "writes E s t \<Longrightarrow> writes E t u \<Longrightarrow> writes E s u"
  using writes_trans [of E] by (auto dest: transpD)

lemma writes_log: "c_log s1 = c_log s \<Longrightarrow> writes E s1 t \<Longrightarrow> writes E s t"
  by (simp add: writes_def)

lemma writes_mono: "writes E s t \<Longrightarrow> (\<And>e. E e \<Longrightarrow> F e) \<Longrightarrow> writes F s t"
  by (auto simp: writes_def list_all_iff)

lemma keeps_writes_return [kop_intro]: "keeps (writes E) (State_Monad.return x)"
  by (rule keeps_return [OF writes_refl])

lemma keeps_writes_bind [kop_intro]:
  "keeps (writes E) m \<Longrightarrow> (\<And>a. keeps (writes E) (f a)) \<Longrightarrow> keeps (writes E) (m \<bind> f)"
  by (rule keeps_bind [OF writes_trans])

lemma keeps_writes_calls [kop_intro]:
  "keeps (writes E) (getPod K ns n)" "keeps (writes E) (listPods K ns)" "keeps (writes E) (getPV K n)"
  "keeps (writes E) (getNode K n)" "keeps (writes E) (listContents K)" "keeps (writes E) (getConfigMap K ns n)"
  "keeps (writes E) (k_ask f)"
  by (simp_all add: keeps_def api_calls run_simps writes_def)

lemma keeps_writes_writes [kop_intro]:
  "(\<And>r. E (KCreatePod ns p r)) \<Longrightarrow> keeps (writes E) (createPod K ns p)"
  "(\<And>r. E (KDeletePod ns n g r)) \<Longrightarrow> keeps (writes E) (deletePod K ns n g)"
  "(\<And>r. E (KCreateConfigMap ns cm r)) \<Longrightarrow> keeps (writes E) (createConfigMap K ns cm)"
  "(\<And>r. E (KDeleteConfigMap ns n r)) \<Longrightarrow> keeps (writes E) (deleteConfigMap K ns n)"
  by (simp_all add: keeps_def api_calls run_simps writes_def)

lemma keeps_writes_cases [kop_intro]:
  "(b \<Longrightarrow> keeps (writes E) m) \<Longrightarrow> (\<not> b \<Longrightarrow> keeps (writes E) n) \<Longrightarrow> keeps (writes E) (if b then m else n)"
  "(v = None \<Longrightarrow> keeps (writes E) m) \<Longrightarrow> (\<And>x. v = Some x \<Longrightarrow> keeps (writes E) (f x)) \<Longrightarrow>
     keeps (writes E) (case v of None \<Rightarrow> m | Some x \<Rightarrow> f x)"
  "(\<And>x. r = Inl x \<Longrightarrow> keeps (writes E) (g x)) \<Longrightarrow> (\<And>y. r = Inr y \<Longrightarrow> keeps (writes E) (h y)) \<Longrightarrow>
     keeps (writes E) (case r of Inl x \<Rightarrow> g x | Inr y \<Rightarrow> h y)"
  "(\<And>x y. p = (x, y) \<Longrightarrow> keeps (writes E) (k x y)) \<Longrightarrow> keeps (writes E) (case p of (x, y) \<Rightarrow> k x y)"
  by (auto split: option.split sum.split prod.split)

lemma keeps_writes_api_error [kop_intro]:
  "keeps (writes E) a \<Longrightarrow> keeps (writes E) b \<Longrightarrow> (\<And>x. keeps (writes E) (c x)) \<Longrightarrow>
     keeps (writes E) (case e of ApiNotFound \<Rightarrow> a | ApiAlreadyExists \<Rightarrow> b | ApiOther x \<Rightarrow> c x)"
  by (cases e) auto

subsection \<open>Reasoning with what was read\<close>

text \<open>
  \<open>yields P m\<close>: whatever the state, the result of \<open>m\<close> satisfies \<open>P\<close>.  The rules for reads give the
  continuation the answer of the API; \<open>answers f r\<close> says that the call \<open>f\<close> answered \<open>r\<close> in some world.
\<close>

definition answers :: "('k \<Rightarrow> 'a \<times> 'k) \<Rightarrow> 'a \<Rightarrow> bool" where
  "answers f r \<longleftrightarrow> (\<exists>w. fst (f w) = r)"

definition yields :: "('a \<Rightarrow> bool) \<Rightarrow> ('k, 'a) kop \<Rightarrow> bool" where
  "yields P m \<longleftrightarrow> (\<forall>s. P (fst (run_state m s)))"

named_theorems yields_intro \<open>results of the operations\<close>

lemma yieldsD: "yields P m \<Longrightarrow> run_state m s = (r, t) \<Longrightarrow> P r"
  by (metis fst_conv yields_def)

lemma yields_return [yields_intro]: "P x \<Longrightarrow> yields P (State_Monad.return x)"
  by (simp add: yields_def)

lemma yields_bind:
  assumes "yields Q m" and "\<And>a. Q a \<Longrightarrow> yields P (f a)"
  shows "yields P (m \<bind> f)"
  unfolding yields_def
proof
  fix s
  obtain a t where m: "run_state m s = (a, t)" by force
  then show "P (fst (run_state (m \<bind> f) s))" using assms yieldsD [OF assms(1) m] by (simp add: yields_def)
qed

lemma yields_read: "yields (answers f) (k_read f)"
  by (auto simp: yields_def answers_def run_simps)

lemmas yields_read_bind [yields_intro] = yields_bind [OF yields_read]

lemma keeps_writes_bind_yields:
  assumes "keeps (writes E) m" and "yields P m" and "\<And>a. P a \<Longrightarrow> keeps (writes E) (f a)"
  shows "keeps (writes E) (m \<bind> f)"
  unfolding keeps_def
proof
  fix s
  obtain a t where m: "run_state m s = (a, t)" by force
  have "writes E s t" using assms(1) m by (rule keepsD)
  moreover have "writes E t (snd (run_state (f a) t))" using assms(3) [OF yieldsD [OF assms(2) m]] by (rule keepsD')
  ultimately show "writes E s (snd (run_state (m \<bind> f) s))" using m by (auto intro: writes_transD)
qed

lemma keeps_writes_k_read: "keeps (writes E) (k_read f)"
  by (simp add: keeps_def run_simps writes_def)

lemmas keeps_writes_read = keeps_writes_bind_yields [OF keeps_writes_k_read yields_read]

lemma keeps_writes_mono: "keeps (writes E) m \<Longrightarrow> (\<And>ev. E ev \<Longrightarrow> F ev) \<Longrightarrow> keeps (writes F) m"
  by (auto simp: keeps_def intro: writes_mono)

subsection \<open>A concrete cluster\<close>

text \<open>
  For the examples: an API server that keeps lists of objects, in which a created pod has ended
  successfully when it is read next, and in which names stand for their digests.
\<close>

record cluster =
  cl_pods :: "pod list"
  cl_pvs :: "persistent_volume list"
  cl_nodes :: "string list"
  cl_contents :: "snapshot_content list"
  cl_maps :: "config_map list"

definition found :: "'a option \<Rightarrow> api_error + 'a option" where
  "found x = (case x of None \<Rightarrow> Inl ApiNotFound | Some a \<Rightarrow> Inr (Some a))"

definition cluster_kube :: "cluster kube" where
  "cluster_kube = \<lparr>
     k_getPod = (\<lambda>_ n w. (found (find (\<lambda>p. p_name p = n) (cl_pods w)), w)),
     k_listPods = (\<lambda>_ w. (Inr (cl_pods w), w)),
     k_createPod = (\<lambda>_ p w. if \<exists>q \<in> set (cl_pods w). p_name q = p_name p then (Some ApiAlreadyExists, w)
                        else (None, w\<lparr>cl_pods := p\<lparr>p_phase := PodSucceeded\<rparr> # cl_pods w\<rparr>)),
     k_deletePod = (\<lambda>_ n _ w. (None, w\<lparr>cl_pods := filter (\<lambda>p. p_name p \<noteq> n) (cl_pods w)\<rparr>)),
     k_getPV = (\<lambda>n w. (found (find (\<lambda>v. pv_name v = n) (cl_pvs w)), w)),
     k_getNode = (\<lambda>n w. (if n \<in> set (cl_nodes w) then None else Some ApiNotFound, w)),
     k_listContents = (\<lambda>w. (Inr (cl_contents w), w)),
     k_createConfigMap = (\<lambda>_ c w. if \<exists>d \<in> set (cl_maps w). cm_name d = cm_name c then (Some ApiAlreadyExists, w)
                        else (None, w\<lparr>cl_maps := c # cl_maps w\<rparr>)),
     k_getConfigMap = (\<lambda>_ n w. (found (find (\<lambda>c. cm_name c = n) (cl_maps w)), w)),
     k_deleteConfigMap = (\<lambda>_ n w. (None, w\<lparr>cl_maps := filter (\<lambda>c. cm_name c \<noteq> n) (cl_maps w)\<rparr>)),
     k_ctxErr = (\<lambda>_. None), k_tick = (\<lambda>w. w), k_now = (\<lambda>_. 0),
     k_derivative = (=), k_sha256hex = (\<lambda>s. s)\<rparr>"

lemma cluster_calls:
  "k_getPod cluster_kube ns n w = (found (find (\<lambda>p. p_name p = n) (cl_pods w)), w)"
  "k_listPods cluster_kube ns w = (Inr (cl_pods w), w)"
  "k_createPod cluster_kube ns p w =
     (if \<exists>q \<in> set (cl_pods w). p_name q = p_name p then (Some ApiAlreadyExists, w)
      else (None, w\<lparr>cl_pods := p\<lparr>p_phase := PodSucceeded\<rparr> # cl_pods w\<rparr>))"
  "k_deletePod cluster_kube ns n g w = (None, w\<lparr>cl_pods := filter (\<lambda>p. p_name p \<noteq> n) (cl_pods w)\<rparr>)"
  "k_getPV cluster_kube n w = (found (find (\<lambda>v. pv_name v = n) (cl_pvs w)), w)"
  "k_getNode cluster_kube n w = (if n \<in> set (cl_nodes w) then None else Some ApiNotFound, w)"
  "k_listContents cluster_kube w = (Inr (cl_contents w), w)"
  "k_createConfigMap cluster_kube ns c w =
     (if \<exists>d \<in> set (cl_maps w). cm_name d = cm_name c then (Some ApiAlreadyExists, w)
      else (None, w\<lparr>cl_maps := c # cl_maps w\<rparr>))"
  "k_getConfigMap cluster_kube ns n w = (found (find (\<lambda>c. cm_name c = n) (cl_maps w)), w)"
  "k_deleteConfigMap cluster_kube ns n w = (None, w\<lparr>cl_maps := filter (\<lambda>c. cm_name c \<noteq> n) (cl_maps w)\<rparr>)"
  "k_ctxErr cluster_kube w = None" "k_tick cluster_kube w = w" "k_derivative cluster_kube = (=)"
  "k_sha256hex cluster_kube = (\<lambda>s. s)"
  by (simp_all add: cluster_kube_def)

definition k_start :: "'k \<Rightarrow> 'k ctl" where
  "k_start w = \<lparr>c_world = w, c_polls = 10, c_reason = CtxDeadlineExceeded, c_log = []\<rparr>"

lemma k_start_simps [simp]: "c_world (k_start w) = w" "c_log (k_start w) = []" "c_polls (k_start w) = 10"
  by (simp_all add: k_start_def)

definition no_pods :: cluster where
  "no_pods = \<lparr>cl_pods = [], cl_pvs = [], cl_nodes = [''node1''], cl_contents = [], cl_maps = []\<rparr>"

end
