(* ===== verification/Snapshot_Location.thy ===== *)
theory Snapshot_Location
  imports Kube
begin

section \<open>Recorded snapshot locations (\<open>controllerserver.go\<close>)\<close>

text \<open>
  The controller keeps the node and the volume group of every snapshot in one immutable ConfigMap,
  named by the digest of the snapshot handle.  The theory models the record, its encoding, and the
  three operations on it.  The locale \<open>location_store\<close> is the contract the controller relies on, a
  map from handles to locations whose entries are written once; the locale \<open>config_maps\<close> is what
  the operations rely on, the documented behaviour of creating, reading and deleting a ConfigMap
  when nobody else writes the ConfigMaps of this prefix.  The second gives the first for the
  operations of the driver.
\<close>

subsection \<open>The record\<close>

definition snapshotLocationConfigMapPrefix :: string where
  "snapshotLocationConfigMapPrefix = ''csi-lvm-snapshot-location-''"
definition snapshotLocationLabel :: string where
  "snapshotLocationLabel = ''lvm.driver.harvesterhci.io/snapshot-location''"
definition snapshotLocationHandleKey :: string where "snapshotLocationHandleKey = ''snapshotHandle''"
definition snapshotLocationNodeKey :: string where "snapshotLocationNodeKey = ''nodeName''"
definition snapshotLocationVGKey :: string where "snapshotLocationVGKey = ''vgName''"

lemmas location_keys = snapshotLocationHandleKey_def snapshotLocationNodeKey_def snapshotLocationVGKey_def

definition snapshotLocationConfigMapName :: "'k kube \<Rightarrow> string \<Rightarrow> string" where
  "snapshotLocationConfigMapName K snapshotID = snapshotLocationConfigMapPrefix @ k_sha256hex K snapshotID"

record snapshotLocation =
  loc_handle :: string
  loc_nodeName :: string
  loc_vgName :: string

definition validate_location :: "snapshotLocation \<Rightarrow> check" where
  "validate_location location =
     (if loc_handle location = '''' \<or> loc_nodeName location = '''' \<or> loc_vgName location = '''' then
        Some (msg ''snapshot handle, node name, and volume group are required'')
      else case validateVGName (loc_vgName location) of
             Some e \<Rightarrow> Some e
           | None \<Rightarrow> None)"

definition configMap :: "'k kube \<Rightarrow> string \<Rightarrow> snapshotLocation \<Rightarrow> config_map" where
  "configMap K namespace location = \<lparr>
     cm_name = snapshotLocationConfigMapName K (loc_handle location),
     cm_namespace = namespace,
     cm_labels = [snapshotLocationLabel \<mapsto> ''true''],
     cm_data = [snapshotLocationHandleKey \<mapsto> loc_handle location,
                snapshotLocationNodeKey \<mapsto> loc_nodeName location,
                snapshotLocationVGKey \<mapsto> loc_vgName location],
     cm_immutable = True\<rparr>"

definition snapshotLocationFromConfigMap :: "config_map option \<Rightarrow> string \<Rightarrow> snapshotLocation res" where
  "snapshotLocationFromConfigMap cm snapshotID =
     (case cm of
        None \<Rightarrow> Inl (msg ''snapshot location ConfigMap is nil'')
      | Some c \<Rightarrow>
          if lookup (cm_labels c) snapshotLocationLabel \<noteq> ''true'' then
            Inl (Errorf ''ConfigMap %q is not a snapshot location record'' [cm_name c] None)
          else
            let recorded = \<lparr>loc_handle = lookup (cm_data c) snapshotLocationHandleKey,
                            loc_nodeName = lookup (cm_data c) snapshotLocationNodeKey,
                            loc_vgName = lookup (cm_data c) snapshotLocationVGKey\<rparr>
            in if loc_handle recorded \<noteq> snapshotID then
                 Inl (Errorf ''ConfigMap %q records snapshot handle %q, expected %q''
                        [cm_name c, loc_handle recorded, snapshotID] None)
               else case validate_location recorded of
                      Some e \<Rightarrow> Inl (Errorf ''ConfigMap %q has an invalid snapshot location: %w'' [cm_name c] (Some e))
                    | None \<Rightarrow> Inr recorded)"

subsection \<open>The operations\<close>

definition recordSnapshotLocation ::
  "'k kube \<Rightarrow> string \<Rightarrow> string \<Rightarrow> string \<Rightarrow> string \<Rightarrow> ('k, check) kop" where
  "recordSnapshotLocation K namespace snapshotID nodeName vgName =
     (let configMapName = snapshotLocationConfigMapName K snapshotID;
          desired = \<lparr>loc_handle = snapshotID, loc_nodeName = nodeName, loc_vgName = vgName\<rparr>
      in case validate_location desired of
           Some e \<Rightarrow> State_Monad.return (Some (Status FailedPrecondition
             (Errorf ''invalid location for snapshot %q (ConfigMap %q): %v'' [snapshotID, configMapName] (Some e))))
         | None \<Rightarrow> do {
             c \<leftarrow> createConfigMap K namespace (configMap K namespace desired);
             (case c of
                None \<Rightarrow> State_Monad.return None
              | Some err \<Rightarrow>
                  if err \<noteq> ApiAlreadyExists then
                    State_Monad.return (Some (Status Unavailable
                      (Errorf ''failed to create location ConfigMap %q for snapshot %q: %v''
                         [configMapName, snapshotID] (Some (ApiErr err)))))
                  else do {
                    g \<leftarrow> getConfigMap K namespace configMapName;
                    State_Monad.return
                      (case g of
                         Inl e \<Rightarrow> Some (Status Unavailable
                           (Errorf ''failed to get location ConfigMap %q for snapshot %q: %v''
                              [configMapName, snapshotID] (Some (ApiErr e))))
                       | Inr existing \<Rightarrow>
                           (case snapshotLocationFromConfigMap existing snapshotID of
                              Inl e \<Rightarrow> Some (Status FailedPrecondition
                                (Errorf ''invalid location ConfigMap %q for snapshot %q: %v''
                                   [configMapName, snapshotID] (Some e)))
                            | Inr actual \<Rightarrow>
                                if actual \<noteq> desired then
                                  Some (Status AlreadyExists
                                    (Errorf ''snapshot %q location ConfigMap %q already records %q/%q, requested %q/%q''
                                       [snapshotID, configMapName, loc_nodeName actual, loc_vgName actual,
                                        loc_nodeName desired, loc_vgName desired] None))
                                else None))
                  })
           })"

text \<open>The result is an error, or the node and volume group if a record was found.\<close>

definition lookupSnapshotLocation ::
  "'k kube \<Rightarrow> string \<Rightarrow> string \<Rightarrow> ('k, (string \<times> string) option res) kop" where
  "lookupSnapshotLocation K namespace snapshotID = do {
     g \<leftarrow> getConfigMap K namespace (snapshotLocationConfigMapName K snapshotID);
     State_Monad.return
       (case g of
          Inl e \<Rightarrow> if e = ApiNotFound then Inr None else Inl (ApiErr e)
        | Inr location \<Rightarrow>
            (case snapshotLocationFromConfigMap location snapshotID of
               Inl e \<Rightarrow> Inl e
             | Inr recorded \<Rightarrow> Inr (Some (loc_nodeName recorded, loc_vgName recorded))))
   }"

definition forgetSnapshotLocation :: "'k kube \<Rightarrow> string \<Rightarrow> string \<Rightarrow> ('k, check) kop" where
  "forgetSnapshotLocation K namespace snapshotID = do {
     err \<leftarrow> deleteConfigMap K namespace (snapshotLocationConfigMapName K snapshotID);
     State_Monad.return
       (case err of
          None \<Rightarrow> None
        | Some e \<Rightarrow> if e = ApiNotFound then None else Some (ApiErr e))
   }"

subsection \<open>Encoding\<close>

definition location_ok :: "snapshotLocation \<Rightarrow> bool" where
  "location_ok l \<longleftrightarrow> loc_handle l \<noteq> '''' \<and> loc_nodeName l \<noteq> '''' \<and> vg_name_ok (loc_vgName l)"

interpretation location: validator validate_location location_ok
proof
  fix l
  show "validate_location l = None \<longleftrightarrow> location_ok l"
    using vg_name.check_iff [of "loc_vgName l"]
    by (auto simp: validate_location_def location_ok_def vg_name_ok_def split: option.splits)
qed

lemma configMap_fields:
  "cm_name (configMap K ns l) = snapshotLocationConfigMapName K (loc_handle l)"
  "lookup (cm_labels (configMap K ns l)) snapshotLocationLabel = ''true''"
  "lookup (cm_data (configMap K ns l)) snapshotLocationHandleKey = loc_handle l"
  "lookup (cm_data (configMap K ns l)) snapshotLocationNodeKey = loc_nodeName l"
  "lookup (cm_data (configMap K ns l)) snapshotLocationVGKey = loc_vgName l"
  by (simp_all add: configMap_def location_keys)

lemma location_eta: "\<lparr>loc_handle = loc_handle l, loc_nodeName = loc_nodeName l, loc_vgName = loc_vgName l\<rparr> = l"
  by simp

lemma snapshotLocationFromConfigMap_sound:
  "snapshotLocationFromConfigMap cm h = Inr l \<Longrightarrow> loc_handle l = h \<and> location_ok l"
  by (auto simp: snapshotLocationFromConfigMap_def location.check_iff Let_def split: option.splits if_splits)

lemma snapshotLocationFromConfigMap_read:
  "snapshotLocationFromConfigMap (Some (configMap K ns l)) h = Inr l' \<longleftrightarrow>
     l' = l \<and> h = loc_handle l \<and> location_ok l"
proof -
  have "snapshotLocationFromConfigMap (Some (configMap K ns l)) h = Inr l' \<longleftrightarrow>
      loc_handle l = h \<and> validate_location l = None \<and> l' = l"
    by (auto simp: snapshotLocationFromConfigMap_def configMap_fields location_eta Let_def
        simp del: snapshotLocation.surjective split: option.splits)
  then show ?thesis by (auto simp: location.check_iff)
qed

text \<open>
  C28: a location that is written to a ConfigMap is read back from it unchanged, for the handle it
  was written for and for no other, exactly when its handle and node are not empty and its volume
  group has a valid name.
\<close>

theorem location_roundtrip:
  "snapshotLocationFromConfigMap (Some (configMap K ns l)) h = Inr l' \<longleftrightarrow>
     l' = l \<and> h = loc_handle l \<and> loc_handle l \<noteq> '''' \<and> loc_nodeName l \<noteq> '''' \<and> validateVGName (loc_vgName l) = None"
  by (simp add: snapshotLocationFromConfigMap_read location_ok_def vg_name.check_iff)

subsection \<open>Contracts\<close>

text \<open>
  The contract the controller relies on: a store of locations by snapshot handle.  A successful
  record leaves exactly one more entry or finds it there; a record, whether it succeeds or not, changes
  nothing but to add the entry of its handle where there was none; what a lookup finds is the entry.
\<close>

locale location_store =
  fixes rec :: "string \<Rightarrow> string \<Rightarrow> string \<Rightarrow> ('k, check) kop"
    and look :: "string \<Rightarrow> ('k, (string \<times> string) option res) kop"
    and forget :: "string \<Rightarrow> ('k, check) kop"
    and entries :: "'k \<Rightarrow> string \<rightharpoonup> string \<times> string"
  assumes rec_ok: "run_state (rec h n v) s = (None, t) \<Longrightarrow> entries (c_world t) = (entries (c_world s))(h \<mapsto> (n, v))"
    and rec_any: "run_state (rec h n v) s = (r, t) \<Longrightarrow> entries (c_world t) = entries (c_world s)
      \<or> entries (c_world s) h = None \<and> entries (c_world t) = (entries (c_world s))(h \<mapsto> (n, v))"
    and rec_agrees: "run_state (rec h n v) s = (None, t) \<Longrightarrow> entries (c_world s) h = Some l \<Longrightarrow> l = (n, v)"
    and look_ok: "run_state (look h) s = (q, t) \<Longrightarrow>
      entries (c_world t) = entries (c_world s) \<and> (\<forall>x. q = Inr x \<longrightarrow> x = entries (c_world s) h)"
    and forget_ok: "run_state (forget h) s = (None, t) \<Longrightarrow> entries (c_world t) h = None"
begin

lemma rec_look:
  assumes "run_state (rec h n v) s = (None, t)" and "run_state (look h) t = (Inr l, u)"
  shows "l = Some (n, v) \<and> entries (c_world u) = entries (c_world t)"
  using rec_ok [OF assms(1)] look_ok [OF assms(2)] by auto

lemma rec_kept:
  assumes "run_state (rec h n v) s = (r, t)" and "entries (c_world s) g = Some l"
  shows "entries (c_world t) g = Some l"
  using rec_any [OF assms(1)] assms(2) by auto

lemma rec_frame:
  assumes "run_state (rec h n v) s = (r, t)" and "g \<noteq> h"
  shows "entries (c_world t) g = entries (c_world s) g"
  using rec_any [OF assms(1)] assms(2) by auto

lemma look_found:
  assumes "run_state (look h) s = (Inr x, t)"
  shows "x = entries (c_world s) h \<and> entries (c_world t) = entries (c_world s)"
  using look_ok [OF assms] by simp

lemma forget_look:
  assumes "run_state (forget h) s = (None, t)" and "run_state (look h) t = (Inr l, u)"
  shows "l = None"
  using forget_ok [OF assms(1)] look_ok [OF assms(2)] by auto

end

text \<open>
  What the operations rely on: \<open>stored w\<close> are the ConfigMaps of the namespace.  A creation succeeds
  only for a name that is free, and reports \<open>AlreadyExists\<close> only for one that is taken; when it
  fails otherwise it may have taken effect.  A reading returns the stored object.
\<close>

locale config_maps =
  fixes K :: "'k kube"
    and ns :: string
    and stored :: "'k \<Rightarrow> string \<rightharpoonup> config_map"
  assumes create_none: "prefix snapshotLocationConfigMapPrefix (cm_name c) \<Longrightarrow> k_createConfigMap K ns c w = (None, w') \<Longrightarrow>
      stored w (cm_name c) = None \<and> stored w' = (stored w)(cm_name c \<mapsto> c)"
    and create_exists: "prefix snapshotLocationConfigMapPrefix (cm_name c) \<Longrightarrow>
      k_createConfigMap K ns c w = (Some ApiAlreadyExists, w') \<Longrightarrow> stored w (cm_name c) \<noteq> None \<and> stored w' = stored w"
    and create_other: "prefix snapshotLocationConfigMapPrefix (cm_name c) \<Longrightarrow> k_createConfigMap K ns c w = (Some e, w') \<Longrightarrow>
      stored w' = stored w \<or> stored w (cm_name c) = None \<and> stored w' = (stored w)(cm_name c \<mapsto> c)"
    and get_found: "prefix snapshotLocationConfigMapPrefix n \<Longrightarrow> k_getConfigMap K ns n w = (Inr x, w') \<Longrightarrow>
      x = stored w n \<and> x \<noteq> None \<and> stored w' = stored w"
    and get_error: "prefix snapshotLocationConfigMapPrefix n \<Longrightarrow> k_getConfigMap K ns n w = (Inl e, w') \<Longrightarrow>
      stored w' = stored w \<and> (e = ApiNotFound \<longrightarrow> stored w n = None)"
    and delete_ok: "prefix snapshotLocationConfigMapPrefix n \<Longrightarrow> k_deleteConfigMap K ns n w = (r, w') \<Longrightarrow>
      r = None \<or> r = Some ApiNotFound \<Longrightarrow> stored w' n = None"

definition recorded :: "'k kube \<Rightarrow> ('k \<Rightarrow> string \<rightharpoonup> config_map) \<Rightarrow> 'k \<Rightarrow> string \<rightharpoonup> string \<times> string" where
  "recorded K stored w h =
     (case snapshotLocationFromConfigMap (stored w (snapshotLocationConfigMapName K h)) h of
        Inl _ \<Rightarrow> None
      | Inr l \<Rightarrow> Some (loc_nodeName l, loc_vgName l))"

lemma prefix_configMapName [simp]: "prefix snapshotLocationConfigMapPrefix (snapshotLocationConfigMapName K h)"
  by (simp add: snapshotLocationConfigMapName_def)

lemma recorded_cong:
  "stored w' = stored w \<Longrightarrow> recorded K stored w' = recorded K stored w"
  by (simp add: recorded_def fun_eq_iff)

lemma recorded_create:
  assumes "stored w (snapshotLocationConfigMapName K h) = None" and "location_ok l" and "loc_handle l = h"
    and "stored w' = (stored w)(snapshotLocationConfigMapName K h \<mapsto> configMap K ns l)"
  shows "recorded K stored w' = (recorded K stored w)(h \<mapsto> (loc_nodeName l, loc_vgName l))"
proof
  fix h'
  have same: "snapshotLocationFromConfigMap (Some (configMap K ns l)) h = Inr l"
    using assms(2,3) by (simp add: snapshotLocationFromConfigMap_read)
  have other: "\<exists>e. snapshotLocationFromConfigMap (Some (configMap K ns l)) h' = Inl e" if "h' \<noteq> h"
    using that assms(3) snapshotLocationFromConfigMap_sound [of "Some (configMap K ns l)" h']
    by (cases "snapshotLocationFromConfigMap (Some (configMap K ns l)) h'") (auto simp: snapshotLocationFromConfigMap_read)
  have none: "\<exists>e. snapshotLocationFromConfigMap None h' = Inl e" by (simp add: snapshotLocationFromConfigMap_def)
  show "recorded K stored w' h' = ((recorded K stored w)(h \<mapsto> (loc_nodeName l, loc_vgName l))) h'"
    using assms(1,4) same other none by (auto simp: recorded_def)
qed

lemma run_recordSnapshotLocation:
  assumes "run_state (recordSnapshotLocation K ns h n v) s = (r, t)"
  obtains (invalid) "\<not> location_ok \<lparr>loc_handle = h, loc_nodeName = n, loc_vgName = v\<rparr>" "status_of r = Some FailedPrecondition" "t = s"
  | (created) "location_ok \<lparr>loc_handle = h, loc_nodeName = n, loc_vgName = v\<rparr>" "r = None"
      "k_createConfigMap K ns (configMap K ns \<lparr>loc_handle = h, loc_nodeName = n, loc_vgName = v\<rparr>) (c_world s) = (None, c_world t)"
      "c_log t = c_log s @ [KCreateConfigMap ns (configMap K ns \<lparr>loc_handle = h, loc_nodeName = n, loc_vgName = v\<rparr>) None]"
  | (failed) e where "location_ok \<lparr>loc_handle = h, loc_nodeName = n, loc_vgName = v\<rparr>" "e \<noteq> ApiAlreadyExists" "status_of r = Some Unavailable"
      "k_createConfigMap K ns (configMap K ns \<lparr>loc_handle = h, loc_nodeName = n, loc_vgName = v\<rparr>) (c_world s) = (Some e, c_world t)"
      "c_log t = c_log s @ [KCreateConfigMap ns (configMap K ns \<lparr>loc_handle = h, loc_nodeName = n, loc_vgName = v\<rparr>) (Some e)]"
  | (existing) w g where "location_ok \<lparr>loc_handle = h, loc_nodeName = n, loc_vgName = v\<rparr>"
      "k_createConfigMap K ns (configMap K ns \<lparr>loc_handle = h, loc_nodeName = n, loc_vgName = v\<rparr>) (c_world s) = (Some ApiAlreadyExists, w)"
      "k_getConfigMap K ns (snapshotLocationConfigMapName K h) w = (g, c_world t)"
      "c_log t = c_log s @ [KCreateConfigMap ns (configMap K ns \<lparr>loc_handle = h, loc_nodeName = n, loc_vgName = v\<rparr>) (Some ApiAlreadyExists)]"
      "r = None \<longleftrightarrow> (\<exists>c. g = Inr c \<and> snapshotLocationFromConfigMap c h = Inr \<lparr>loc_handle = h, loc_nodeName = n, loc_vgName = v\<rparr>)"
      "r \<noteq> None \<Longrightarrow> status_of r \<in> Some ` {Unavailable, FailedPrecondition, AlreadyExists}"
proof -
  let ?d = "\<lparr>loc_handle = h, loc_nodeName = n, loc_vgName = v\<rparr>"
  show thesis
  proof (cases "validate_location ?d")
    case (Some e)
    then have "\<not> location_ok ?d" using location.check_iff [of ?d] by simp
    then show ?thesis using assms Some by (intro that(1)) (auto simp: recordSnapshotLocation_def Let_def)
  next
    case None
    then have ok: "location_ok ?d" using location.check_iff [of ?d] by simp
    obtain c w where c: "k_createConfigMap K ns (configMap K ns ?d) (c_world s) = (c, w)" by (rule prod.exhaust)
    obtain g w' where g: "k_getConfigMap K ns (snapshotLocationConfigMapName K h) w = (g, w')" by (rule prod.exhaust)
    show ?thesis
    proof (cases c)
      case c0: None
      then show ?thesis using assms None c ok
        by (intro that(2)) (auto simp: recordSnapshotLocation_def Let_def api_calls run_simps)
    next
      case c1: (Some e)
      show ?thesis
      proof (cases "e = ApiAlreadyExists")
        case False
        then show ?thesis using assms None c c1 ok
          by (intro that(3)) (auto simp: recordSnapshotLocation_def Let_def api_calls run_simps)
      next
        case True
        have "t = s\<lparr>c_world := w', c_log := c_log s @ [KCreateConfigMap ns (configMap K ns ?d) (Some ApiAlreadyExists)]\<rparr>"
          using assms None c c1 g True by (auto simp: recordSnapshotLocation_def Let_def api_calls run_simps)
        moreover have "(r = None \<longleftrightarrow> (\<exists>c. g = Inr c \<and> snapshotLocationFromConfigMap c h = Inr ?d))
            \<and> (r \<noteq> None \<longrightarrow> status_of r \<in> Some ` {Unavailable, FailedPrecondition, AlreadyExists})"
          using assms None c c1 g True
          by (auto simp: recordSnapshotLocation_def Let_def api_calls run_simps split: sum.splits if_splits)
        ultimately show ?thesis using c c1 g True ok by (intro that(4)) auto
      qed
    qed
  qed
qed

sublocale config_maps \<subseteq> store: location_store "recordSnapshotLocation K ns" "lookupSnapshotLocation K ns"
  "forgetSnapshotLocation K ns" "recorded K stored"
proof
  fix h n v s r t l
  let ?d = "\<lparr>loc_handle = h, loc_nodeName = n, loc_vgName = v\<rparr>"
  show "recorded K stored (c_world t) = (recorded K stored (c_world s))(h \<mapsto> (n, v))"
    if run: "run_state (recordSnapshotLocation K ns h n v) s = (None, t)"
    using run
  proof (cases rule: run_recordSnapshotLocation)
    case created
    from create_none [OF _ created(3)] have "stored (c_world s) (snapshotLocationConfigMapName K h) = None"
      "stored (c_world t) = (stored (c_world s))(snapshotLocationConfigMapName K h \<mapsto> configMap K ns ?d)"
      by (simp_all add: configMap_fields)
    from recorded_create [OF this(1) created(1) _ this(2)] show ?thesis by simp
  next
    case (existing w g)
    then obtain c where c: "g = Inr c" "snapshotLocationFromConfigMap c h = Inr ?d" by auto
    have "stored w = stored (c_world s)" using create_exists [OF _ existing(2)] by (simp add: configMap_fields)
    moreover have "c = stored w (snapshotLocationConfigMapName K h)" "stored (c_world t) = stored w"
      using get_found [OF _ existing(3) [unfolded c]] by simp_all
    ultimately show ?thesis using c(2) by (auto simp: recorded_def fun_eq_iff)
  qed simp_all
  show "recorded K stored (c_world t) = recorded K stored (c_world s)
      \<or> recorded K stored (c_world s) h = None
        \<and> recorded K stored (c_world t) = (recorded K stored (c_world s))(h \<mapsto> (n, v))"
    if run: "run_state (recordSnapshotLocation K ns h n v) s = (r, t)"
  proof -
    have new: ?thesis if "location_ok ?d" "stored (c_world s) (snapshotLocationConfigMapName K h) = None"
      "stored (c_world t) = (stored (c_world s))(snapshotLocationConfigMapName K h \<mapsto> configMap K ns ?d)"
      using recorded_create [OF that(2,1) _ that(3)] that(2) by (simp add: recorded_def snapshotLocationFromConfigMap_def)
    have same: ?thesis if "stored (c_world t) = stored (c_world s)" using recorded_cong [of stored, OF that] by simp
    from run show ?thesis
    proof (cases rule: run_recordSnapshotLocation)
      case created
      then show ?thesis using create_none [OF _ created(3)] new by (simp add: configMap_fields)
    next
      case (failed e)
      then show ?thesis using create_other [OF _ failed(4)] new same by (auto simp: configMap_fields)
    next
      case (existing w g)
      have "stored w = stored (c_world s)" using create_exists [OF _ existing(2)] by (simp add: configMap_fields)
      moreover have "stored (c_world t) = stored w" using existing(3) get_found get_error by (cases g) (metis prefix_configMapName)+
      ultimately show ?thesis using same by simp
    qed simp
  qed
  show "l = (n, v)"
    if run: "run_state (recordSnapshotLocation K ns h n v) s = (None, t)" and l: "recorded K stored (c_world s) h = Some l"
  proof -
    have taken: "stored (c_world s) (snapshotLocationConfigMapName K h) \<noteq> None"
      using l by (auto simp: recorded_def snapshotLocationFromConfigMap_def split: option.splits)
    from run show ?thesis
    proof (cases rule: run_recordSnapshotLocation)
      case created
      then show ?thesis using create_none [OF _ created(3)] taken by (simp add: configMap_fields)
    next
      case (existing w g)
      have s: "stored w = stored (c_world s)" using create_exists [OF _ existing(2)] by (simp add: configMap_fields)
      obtain c where c: "g = Inr c" "snapshotLocationFromConfigMap c h = Inr ?d" using existing(5) by auto
      then have "c = stored (c_world s) (snapshotLocationConfigMapName K h)"
        using get_found [OF _ existing(3) [unfolded c(1)]] s by simp
      then show ?thesis using c(2) l by (simp add: recorded_def)
    qed simp_all
  qed
next
  fix h s q t
  assume run: "run_state (lookupSnapshotLocation K ns h) s = (q, t)"
  obtain g where g: "k_getConfigMap K ns (snapshotLocationConfigMapName K h) (c_world s) = (g, c_world t)"
    using run by (cases "k_getConfigMap K ns (snapshotLocationConfigMapName K h) (c_world s)")
      (auto simp: lookupSnapshotLocation_def api_calls run_simps)
  have "stored (c_world t) = stored (c_world s)" using g get_found get_error by (cases g) (metis prefix_configMapName)+
  moreover have "x = recorded K stored (c_world s) h" if "q = Inr x" for x
  proof (cases g)
    case (Inl e)
    then show ?thesis using run that g get_error [OF _ g [unfolded Inl]]
      by (auto simp: lookupSnapshotLocation_def api_calls run_simps recorded_def snapshotLocationFromConfigMap_def split: if_splits)
  next
    case (Inr c)
    then show ?thesis using run that g get_found [OF _ g [unfolded Inr]]
      by (auto simp: lookupSnapshotLocation_def api_calls run_simps recorded_def split: sum.splits)
  qed
  ultimately show "recorded K stored (c_world t) = recorded K stored (c_world s)
      \<and> (\<forall>x. q = Inr x \<longrightarrow> x = recorded K stored (c_world s) h)" by (auto intro: recorded_cong)
next
  fix h s t
  assume run: "run_state (forgetSnapshotLocation K ns h) s = (None, t)"
  obtain r w where d: "k_deleteConfigMap K ns (snapshotLocationConfigMapName K h) (c_world s) = (r, w)" by (rule prod.exhaust)
  with run have "w = c_world t" "r = None \<or> r = Some ApiNotFound"
    by (auto simp: forgetSnapshotLocation_def api_calls run_simps split: option.splits if_splits)
  with delete_ok [OF _ d] show "recorded K stored (c_world t) h = None"
    by (simp add: recorded_def snapshotLocationFromConfigMap_def)
qed

context config_maps
begin

lemmas recorded_found = store.rec_look
lemmas recorded_once = store.rec_agrees
lemmas recorded_forgotten = store.forget_look
lemmas recorded_kept = store.rec_kept
lemmas recorded_frame = store.rec_frame
lemmas recorded_read = store.look_found

end

subsection \<open>Record, look up, forget\<close>

text \<open>The concrete cluster keeps its ConfigMaps as the contract asks.\<close>

definition cluster_maps :: "cluster \<Rightarrow> string \<rightharpoonup> config_map" where
  "cluster_maps w n = find (\<lambda>c. cm_name c = n) (cl_maps w)"

lemma find_filter_other: "find (\<lambda>c. f c = n) (filter (\<lambda>c. f c \<noteq> n) cs) = None"
  by (induction cs) auto

interpretation cluster: config_maps cluster_kube ns cluster_maps
proof
qed (auto simp: cluster_calls cluster_maps_def found_def find_None_iff find_filter_other
    split: if_splits option.splits dest: find_Some_set sym [of "Some _"])

text \<open>
  C27 (a write-once map): let \<open>recorded\<close> be the map from handles to locations that the ConfigMaps hold.  When
  the API server behaves as documented, a lookup answers the entry of its handle and changes nothing,
  so that it finds what a successful record has left.  A later record, of whatever handle and whether
  it succeeds or not, changes no entry that is there and none of another handle; it succeeds for a
  handle that has an entry only with that very entry.  After a successful removal no location is found.
\<close>

theorem recordSnapshotLocation_lookup:
  assumes "config_maps K ns stored"
    and "run_state (recordSnapshotLocation K ns h n v) s = (None, t)"
    and "run_state (lookupSnapshotLocation K ns h) t = (Inr l, u)"
  shows "l = Some (n, v) \<and> recorded K stored (c_world u) h = Some (n, v)
    \<and> (\<forall>h' n' v' r x. run_state (recordSnapshotLocation K ns h' n' v') u = (r, x) \<longrightarrow>
         (\<forall>g k. recorded K stored (c_world u) g = Some k \<longrightarrow> recorded K stored (c_world x) g = Some k)
         \<and> (\<forall>g. g \<noteq> h' \<longrightarrow> recorded K stored (c_world x) g = recorded K stored (c_world u) g)
         \<and> (h' = h \<and> r = None \<longrightarrow> n' = n \<and> v' = v)
         \<and> (\<forall>l' y. run_state (lookupSnapshotLocation K ns h) x = (Inr l', y) \<longrightarrow> l' = Some (n, v)))
    \<and> (\<forall>x y l'. run_state (forgetSnapshotLocation K ns h) u = (None, x) \<and>
         run_state (lookupSnapshotLocation K ns h) x = (Inr l', y) \<longrightarrow> l' = None)"
proof -
  note found = config_maps.recorded_found [OF assms] and kept = config_maps.recorded_kept [OF assms(1)]
    and frame = config_maps.recorded_frame [OF assms(1)] and once = config_maps.recorded_once [OF assms(1)]
    and read = config_maps.recorded_read [OF assms(1)]
  have entry: "recorded K stored (c_world u) h = Some (n, v)" using found read [OF assms(3)] by simp
  have "(\<forall>g k. recorded K stored (c_world u) g = Some k \<longrightarrow> recorded K stored (c_world x) g = Some k)
      \<and> (\<forall>g. g \<noteq> h' \<longrightarrow> recorded K stored (c_world x) g = recorded K stored (c_world u) g)
      \<and> (h' = h \<and> r = None \<longrightarrow> n' = n \<and> v' = v)
      \<and> (\<forall>l' y. run_state (lookupSnapshotLocation K ns h) x = (Inr l', y) \<longrightarrow> l' = Some (n, v))"
    if r: "run_state (recordSnapshotLocation K ns h' n' v') u = (r, x)" for h' n' v' r x
    using kept [OF r] frame [OF r] once [of h n' v' u x] r entry read [of h x] by auto
  moreover have "l' = None" if "run_state (forgetSnapshotLocation K ns h) u = (None, x)"
    "run_state (lookupSnapshotLocation K ns h) x = (Inr l', y)" for x y l'
    using config_maps.recorded_forgotten [OF assms(1) that] .
  ultimately show ?thesis using found entry by blast
qed


theorem recordSnapshotLocation_lookup_witness:
  "\<exists>t u. run_state (recordSnapshotLocation cluster_kube ''ns'' ''snap-1'' ''node1'' ''vg1'') (k_start no_pods) = (None, t)
     \<and> run_state (lookupSnapshotLocation cluster_kube ''ns'' ''snap-1'') t = (Inr (Some (''node1'', ''vg1'')), u)"
proof -
  obtain r t where run: "run_state (recordSnapshotLocation cluster_kube ''ns'' ''snap-1'' ''node1'' ''vg1'') (k_start no_pods) = (r, t)"
    by (rule prod.exhaust)
  obtain q u where look: "run_state (lookupSnapshotLocation cluster_kube ''ns'' ''snap-1'') t = (q, u)" by (rule prod.exhaust)
  let ?d = "\<lparr>loc_handle = ''snap-1'', loc_nodeName = ''node1'', loc_vgName = ''vg1''\<rparr>"
  have "validateVGName ''vg1'' = None" by code_simp
  then have ok: "validate_location ?d = None" "location_ok ?d" by (simp_all add: validate_location_def flip: location.check_iff)
  then have r: "r = None" "c_world t = no_pods\<lparr>cl_maps := [configMap cluster_kube ''ns'' ?d]\<rparr>" using run
    by (auto simp: recordSnapshotLocation_def api_calls run_simps cluster_calls no_pods_def Let_def)
  have "snapshotLocationFromConfigMap (Some (configMap cluster_kube ''ns'' ?d)) ''snap-1'' = Inr ?d"
    using ok by (simp add: snapshotLocationFromConfigMap_read)
  then obtain l where "q = Inr l" using look r(2)
    by (auto simp: lookupSnapshotLocation_def api_calls run_simps cluster_calls configMap_fields found_def)
  with recordSnapshotLocation_lookup [OF cluster.config_maps_axioms run [unfolded r(1)]] look run r(1) show ?thesis by simp
qed

end
