(* ===== verification/Helper_Pod.thy ===== *)
theory Helper_Pod
  imports Kube "HOL-Library.Char_ord" "HOL-Library.List_Lexorder"
begin

section \<open>Helper pods (\<open>helper_config.go\<close>, \<open>helper_pod.go\<close>)\<close>

text \<open>
  The controller runs every LVM operation in a pod on the node that owns the volume group.  The
  theory holds the configuration with its validation, the construction of the pod, the admission
  of at most \<open>MaxActive\<close> helpers per node and volume group, the reuse and retirement of existing
  pods, and the loop that waits for the pod to end.
\<close>

subsection \<open>Configuration\<close>

record HelperConfig =
  CommandTimeout :: int
  PodTimeout :: int
  ThinPoolCreateTimeout :: int
  ThinPoolPodTimeout :: int
  MaxActive :: int

definition DefaultHelperCommandTimeout :: int where [simp]: "DefaultHelperCommandTimeout = 3 * minute"
definition DefaultHelperPodTimeout :: int where [simp]: "DefaultHelperPodTimeout = 3 * minute + 30 * second"
definition DefaultThinPoolCreateTimeout :: int where [simp]: "DefaultThinPoolCreateTimeout = 15 * minute"
definition DefaultThinPoolPodTimeout :: int where [simp]: "DefaultThinPoolPodTimeout = 18 * minute"
definition DefaultMaxActiveHelpers :: int where [simp]: "DefaultMaxActiveHelpers = 3"

definition DefaultHelperConfig :: HelperConfig where
  "DefaultHelperConfig = \<lparr>
     CommandTimeout = DefaultHelperCommandTimeout,
     PodTimeout = DefaultHelperPodTimeout,
     ThinPoolCreateTimeout = DefaultThinPoolCreateTimeout,
     ThinPoolPodTimeout = DefaultThinPoolPodTimeout,
     MaxActive = DefaultMaxActiveHelpers\<rparr>"

definition validate_config :: "HelperConfig \<Rightarrow> check" where
  "validate_config c =
     (if CommandTimeout c \<le> 0 then Some (msg ''helper command timeout must be greater than zero'')
      else if PodTimeout c \<le> CommandTimeout c then
        Some (Errorf ''helper pod timeout %s must be greater than command timeout %s''
                [Duration_String (PodTimeout c), Duration_String (CommandTimeout c)] None)
      else if ThinPoolCreateTimeout c \<le> 0 then
        Some (msg ''thin-pool creation timeout must be greater than zero'')
      else if ThinPoolPodTimeout c \<le> ThinPoolCreateTimeout c then
        Some (Errorf ''thin-pool helper pod timeout %s must be greater than creation timeout %s''
                [Duration_String (ThinPoolPodTimeout c), Duration_String (ThinPoolCreateTimeout c)] None)
      else if MaxActive c \<le> 0 then Some (msg ''maximum active helpers must be greater than zero'')
      else None)"

subsection \<open>Actions\<close>

type_synonym actionType = string

definition actionTypeCreate :: actionType where "actionTypeCreate = ''create''"
definition actionTypeDelete :: actionType where "actionTypeDelete = ''delete''"
definition actionTypeClone :: actionType where "actionTypeClone = ''clone''"

lemmas action_types = actionTypeCreate_def actionTypeDelete_def actionTypeClone_def

record srcInfo =
  srcLVName :: string
  srcVGName :: string
  srcType :: string

record volumeAction =
  va_action :: actionType
  va_name :: string
  va_nodeName :: string
  va_size :: int
  va_lvmType :: string
  va_provisionerImage :: string
  va_pullPolicy :: string
  va_namespace :: string
  va_vgName :: string
  va_hostWritePath :: string
  va_srcInfo :: "srcInfo option"
  va_helperConfig :: HelperConfig

record snapshotAction =
  sa_action :: actionType
  sa_srcVolName :: string
  sa_nodeName :: string
  sa_snapshotName :: string
  sa_snapSize :: int
  sa_provisionerImage :: string
  sa_pullPolicy :: string
  sa_namespace :: string
  sa_vgName :: string
  sa_lvType :: string
  sa_hostWritePath :: string
  sa_helperConfig :: HelperConfig

record helperParams =
  hp_name :: string
  hp_resource :: string
  hp_action :: actionType
  hp_nodeName :: string
  hp_vgName :: string
  hp_lvmType :: string
  hp_hostWritePath :: string
  hp_provisionerImage :: string
  hp_pullPolicy :: string
  hp_config :: HelperConfig

definition snapshot_helperParams :: "snapshotAction \<Rightarrow> helperParams" where
  "snapshot_helperParams sa = \<lparr>
     hp_name = sa_snapshotName sa, hp_resource = ''snapshot'', hp_action = sa_action sa,
     hp_nodeName = sa_nodeName sa, hp_vgName = sa_vgName sa, hp_lvmType = '''',
     hp_hostWritePath = sa_hostWritePath sa, hp_provisionerImage = sa_provisionerImage sa,
     hp_pullPolicy = sa_pullPolicy sa, hp_config = sa_helperConfig sa\<rparr>"

definition volume_helperParams :: "volumeAction \<Rightarrow> helperParams" where
  "volume_helperParams va = \<lparr>
     hp_name = va_name va, hp_resource = ''volume'', hp_action = va_action va,
     hp_nodeName = va_nodeName va, hp_vgName = va_vgName va, hp_lvmType = va_lvmType va,
     hp_hostWritePath = va_hostWritePath va, hp_provisionerImage = va_provisionerImage va,
     hp_pullPolicy = va_pullPolicy va, hp_config = va_helperConfig va\<rparr>"

definition snapshotHelperArgs :: "snapshotAction \<Rightarrow> string list res" where
  "snapshotHelperArgs action =
     (if sa_snapshotName action = '''' \<or> sa_nodeName action = '''' then
        Inl (msg ''invalid empty name or path or node'')
      else if sa_action action = actionTypeCreate \<and> sa_srcVolName action = '''' then
        Inl (msg ''createlv without srcVolName'')
      else if sa_action action = actionTypeCreate then
        Inr [''createsnap'', ''--snapname'', sa_snapshotName action, ''--lvname'', sa_srcVolName action,
             ''--vgname'', sa_vgName action, ''--lvsize'', show_int (sa_snapSize action),
             ''--lvmtype'', sa_lvType action]
      else if sa_action action = actionTypeDelete then
        Inr [''deletesnap'', ''--snapname'', sa_snapshotName action, ''--vgname'', sa_vgName action]
      else Inl (Errorf ''invalid action %q'' [sa_action action] None))"

definition volumeHelperArgs :: "volumeAction \<Rightarrow> string list res" where
  "volumeHelperArgs action =
     (if va_name action = '''' \<or> va_nodeName action = '''' then
        Inl (msg ''invalid empty name or path or node'')
      else if va_action action = actionTypeCreate \<and> va_lvmType action = '''' then
        Inl (msg ''createlv without lvm type'')
      else if va_action action = actionTypeCreate then
        Inr [''createlv'', ''--lvsize'', show_int (va_size action), ''--lvmtype'', va_lvmType action,
             ''--vgname'', va_vgName action, ''--lvname'', va_name action]
      else if va_action action = actionTypeDelete then
        (case va_srcInfo action of
           None \<Rightarrow> Inl (msg ''deletelv without source volume information'')
         | Some i \<Rightarrow>
             Inr [''deletelv'', ''--srcvgname'', srcVGName i, ''--srctype'', srcType i, ''--lvname'', va_name action])
      else if va_action action = actionTypeClone then
        (case va_srcInfo action of
           None \<Rightarrow> Inl (msg ''clonelv without source volume information'')
         | Some i \<Rightarrow>
             Inr [''clonelv'', ''--srclvname'', srcLVName i, ''--srcvgname'', srcVGName i, ''--srctype'', srcType i,
                  ''--lvsize'', show_int (va_size action), ''--vgname'', va_vgName action,
                  ''--lvmtype'', va_lvmType action, ''--lvname'', va_name action])
      else Inl (Errorf ''invalid action %q'' [va_action action] None))"

subsection \<open>The pod\<close>

definition helperPodLabel :: string where "helperPodLabel = ''lvm.driver.harvesterhci.io/helper''"
definition helperResourceLabel :: string where "helperResourceLabel = ''lvm.driver.harvesterhci.io/resource''"
definition helperOperationLabel :: string where "helperOperationLabel = ''lvm.driver.harvesterhci.io/operation''"
definition helperVGAnnotation :: string where "helperVGAnnotation = ''lvm.driver.harvesterhci.io/volume-group''"

lemmas helper_labels = helperPodLabel_def helperResourceLabel_def helperOperationLabel_def helperVGAnnotation_def

definition helperOperation :: "helperParams \<Rightarrow> string" where
  "helperOperation params =
     (if hp_resource params = ''snapshot'' then ''snap'' else ''lvm'') @ ''-'' @ hp_action params"

definition helperPodTimeout :: "helperParams \<Rightarrow> int" where
  "helperPodTimeout params =
     (if hp_action params = actionTypeCreate \<and> hp_lvmType params = DmThinType
      then ThinPoolPodTimeout (hp_config params) else PodTimeout (hp_config params))"

text \<open>Go's integer division and remainder truncate towards zero.\<close>

definition durationSeconds :: "int \<Rightarrow> int" where
  "durationSeconds duration =
     (let seconds = sgn duration * (\<bar>duration\<bar> div second);
          rest = sgn duration * (\<bar>duration\<bar> mod second)
      in if rest \<noteq> 0 then seconds + 1 else seconds)"

definition Bidirectional :: string where "Bidirectional = ''Bidirectional''"
definition Directory :: string where "Directory = ''Directory''"
definition DirectoryOrCreate :: string where "DirectoryOrCreate = ''DirectoryOrCreate''"

definition mount_entry :: "string \<Rightarrow> string \<Rightarrow> string option \<Rightarrow> bool \<Rightarrow> volume_mount" where
  "mount_entry n p prop ro = \<lparr>vm_name = n, vm_path = p, vm_propagation = prop, vm_readOnly = ro\<rparr>"

definition helperMounts :: "volume_mount list" where
  "helperMounts = [
     mount_entry ''devices'' ''/dev'' (Some Bidirectional) False,
     mount_entry ''modules'' ''/lib/modules'' None False,
     mount_entry ''lvmbackup'' ''/etc/lvm/backup'' (Some Bidirectional) False,
     mount_entry ''lvmcache'' ''/etc/lvm/cache'' (Some Bidirectional) False,
     mount_entry ''lvmlock'' ''/run/lock/lvm'' (Some Bidirectional) False,
     mount_entry ''host-lvm-conf'' ''/etc/lvm/lvm.conf'' None True,
     mount_entry ''host-run-udev'' ''/run/udev'' None True]"

definition hostVolume :: "string \<Rightarrow> string \<Rightarrow> string option \<Rightarrow> host_volume" where
  "hostVolume name path pathType = \<lparr>hv_name = name, hv_path = path, hv_type = pathType\<rparr>"

definition helperVolumes :: "string \<Rightarrow> host_volume list" where
  "helperVolumes hostWritePath = [
     hostVolume ''devices'' ''/dev'' (Some DirectoryOrCreate),
     hostVolume ''modules'' ''/lib/modules'' (Some DirectoryOrCreate),
     hostVolume ''lvmbackup'' (Join [hostWritePath, ''backup'']) (Some DirectoryOrCreate),
     hostVolume ''lvmcache'' (Join [hostWritePath, ''cache'']) (Some DirectoryOrCreate),
     hostVolume ''lvmlock'' (Join [hostWritePath, ''lock'']) (Some DirectoryOrCreate),
     hostVolume ''host-lvm-conf'' ''/etc/lvm/lvm.conf'' None,
     hostVolume ''host-run-udev'' ''/run/udev'' (Some Directory)]"

definition newHelperContainer :: "helperParams \<Rightarrow> string \<Rightarrow> string list \<Rightarrow> container" where
  "newHelperContainer params operation args = \<lparr>
     co_name = ''csi-lvmplugin-'' @ operation,
     co_image = hp_provisionerImage params,
     co_command = [''csi-lvmplugin-provisioner''],
     co_args = [''--command-timeout='' @ Duration_String (CommandTimeout (hp_config params)),
                ''--thin-pool-create-timeout='' @ Duration_String (ThinPoolCreateTimeout (hp_config params))] @ args,
     co_mounts = helperMounts,
     co_terminationPath = ''/termination.log'',
     co_terminationPolicy = ''FallbackToLogsOnError'',
     co_pullPolicy = hp_pullPolicy params,
     co_privileged = Some True\<rparr>"

definition helperMetadata :: "helperParams \<Rightarrow> string \<Rightarrow> string \<times> strmap \<times> strmap" where
  "helperMetadata params operation =
     (operation @ ''-'' @ hp_name params,
      [helperPodLabel \<mapsto> ''true'', helperResourceLabel \<mapsto> hp_resource params, helperOperationLabel \<mapsto> hp_action params],
      [helperVGAnnotation \<mapsto> hp_vgName params])"

definition helperSpec :: "helperParams \<Rightarrow> string \<Rightarrow> string list \<Rightarrow> pod_spec" where
  "helperSpec params operation args = \<lparr>
     ps_automount = Some False,
     ps_restartPolicy = ''Never'',
     ps_nodeName = hp_nodeName params,
     ps_activeDeadline = Some (durationSeconds (helperPodTimeout params)),
     ps_gracePeriod = Some 10,
     ps_tolerations = [''Exists''],
     ps_containers = [newHelperContainer params operation args],
     ps_volumes = helperVolumes (hp_hostWritePath params)\<rparr>"

definition newHelperPod :: "helperParams \<Rightarrow> string list \<Rightarrow> pod" where
  "newHelperPod params args =
     (let operation = helperOperation params; (name, labels, annotations) = helperMetadata params operation
      in \<lparr>p_name = name, p_labels = labels, p_annotations = annotations, p_deletionTimestamp = None,
          p_spec = helperSpec params operation args,
          p_phase = '''', p_reason = '''', p_message = '''', p_containerStatuses = []\<rparr>)"

subsection \<open>Admission\<close>

definition podTerminal :: "pod \<Rightarrow> bool" where
  "podTerminal p \<longleftrightarrow> p_phase p = PodSucceeded \<or> p_phase p = PodFailed"

definition isHelper :: "pod \<Rightarrow> bool" where
  "isHelper p \<longleftrightarrow> lookup (p_labels p) helperPodLabel = ''true''
     \<or> list_ex (\<lambda>c. co_command c \<noteq> [] \<and> Base (co_command c ! 0) = ''csi-lvmplugin-provisioner'') (ps_containers (p_spec p))"

definition activeHelper :: "pod \<Rightarrow> bool" where
  "activeHelper p \<longleftrightarrow> isHelper p \<and> \<not> podTerminal p"

definition flag_value :: "string \<Rightarrow> string \<Rightarrow> string list" where
  "flag_value arg pre = (let v = trim_prefix arg pre in if v \<noteq> arg \<and> v \<noteq> '''' then [v] else [])"

fun addVGArgs :: "string list \<Rightarrow> string list" where
  "addVGArgs [] = []"
| "addVGArgs (arg # rest) =
     (if arg = ''--vgname'' \<or> arg = ''--srcvgname'' then
        (case rest of v # _ \<Rightarrow> (if v \<noteq> '''' then [v] else []) | [] \<Rightarrow> [])
      else flag_value arg ''--vgname='' @ flag_value arg ''--srcvgname='') @ addVGArgs rest"

definition helperVGs :: "pod \<Rightarrow> string list" where
  "helperVGs p =
     sort (remdups
       ((let vg = lookup (p_annotations p) helperVGAnnotation in if vg \<noteq> '''' then [vg] else [])
        @ concat (map (\<lambda>c. addVGArgs (co_args c)) (ps_containers (p_spec p)))))"

definition helperUsesVG :: "pod \<Rightarrow> string \<Rightarrow> bool" where
  "helperUsesVG p vgName \<longleftrightarrow> vgName \<in> set (helperVGs p)"

definition countActiveHelpers :: "pod list \<Rightarrow> pod \<Rightarrow> string \<Rightarrow> int" where
  "countActiveHelpers pods desired vgName =
     int (length (filter (\<lambda>p. \<not> (p_name p = p_name desired \<or> ps_nodeName (p_spec p) \<noteq> ps_nodeName (p_spec desired))
                              \<and> activeHelper p \<and> helperUsesVG p vgName) pods))"

definition vg_admission :: "pod list \<Rightarrow> pod \<Rightarrow> int \<Rightarrow> string \<Rightarrow> check" where
  "vg_admission pods desired maxActive vgName =
     (let active = countActiveHelpers pods desired vgName in
      if active < maxActive then None
      else Some (Status Aborted (Errorf ''node %q volume group %q has %d active helpers; limit is %d''
                   [ps_nodeName (p_spec desired), vgName, show_int active, show_int maxActive] None)))"

definition admitHelper :: "'k kube \<Rightarrow> string \<Rightarrow> pod \<Rightarrow> int \<Rightarrow> ('k, check) kop" where
  "admitHelper K ns desired maxActive =
     (if maxActive \<le> 0 then State_Monad.return (Some (Status Internal (msg ''maximum active helper limit is not configured'')))
      else do {
        l \<leftarrow> listPods K ns;
        State_Monad.return
          (case l of
             Inl e \<Rightarrow> Some (Status Unavailable (Errorf ''failed to list LVM helpers: %v'' [] (Some (ApiErr e))))
           | Inr items \<Rightarrow>
               let groups = helperVGs desired in
               if groups = [] then Some (Status Internal (Errorf ''helper pod %q has no volume group'' [p_name desired] None))
               else first_error (vg_admission items desired maxActive) groups)
      })"

subsection \<open>Existing pods\<close>

definition valueOrUnknown :: "string \<Rightarrow> string" where
  "valueOrUnknown val = (if val = '''' then ''unknown'' else val)"

definition not_found :: "api_error \<Rightarrow> bool" where
  "not_found e \<longleftrightarrow> e = ApiNotFound"

definition forceDeleteHelper :: "'k kube \<Rightarrow> string \<Rightarrow> string \<Rightarrow> ('k, check) kop" where
  "forceDeleteHelper K ns podName = do {
     err \<leftarrow> deletePod K ns podName (Some 0);
     State_Monad.return
       (case err of
          Some e \<Rightarrow>
            if \<not> not_found e then
              Some (Status Unavailable (Errorf ''failed to force-delete helper pod %q: %v'' [podName] (Some (ApiErr e))))
            else Some (Status Unavailable (Errorf ''force-deleted helper pod %q; retry'' [podName] None))
        | None \<Rightarrow> Some (Status Unavailable (Errorf ''force-deleted helper pod %q; retry'' [podName] None)))
   }"

definition retireHelper :: "'k kube \<Rightarrow> string \<Rightarrow> pod \<Rightarrow> ('k, check) kop" where
  "retireHelper K ns p =
     (if \<not> podTerminal p then
        State_Monad.return (Some (Status Unavailable
          (Errorf ''helper pod %q belongs to another request and is still %q'' [p_name p, valueOrUnknown (p_phase p)] None)))
      else do {
        err \<leftarrow> deletePod K ns (p_name p) None;
        State_Monad.return
          (case err of
             Some e \<Rightarrow>
               if \<not> not_found e then
                 Some (Status Unavailable (Errorf ''failed to delete stale helper pod %q: %v'' [p_name p] (Some (ApiErr e))))
               else Some (Status Unavailable (Errorf ''removed stale helper pod %q; retry'' [p_name p] None))
           | None \<Rightarrow> Some (Status Unavailable (Errorf ''removed stale helper pod %q; retry'' [p_name p] None)))
      })"

definition useExistingHelper :: "'k kube \<Rightarrow> string \<Rightarrow> pod \<Rightarrow> pod option \<Rightarrow> ('k, check) kop" where
  "useExistingHelper K ns desired existing =
     (case existing of
        None \<Rightarrow> State_Monad.return (Some (Status Unavailable
                  (Errorf ''Kubernetes API returned an empty helper pod %q'' [p_name desired] None)))
      | Some p \<Rightarrow>
          if p_deletionTimestamp p \<noteq> None then forceDeleteHelper K ns (p_name p)
          else if k_derivative K (p_spec desired) (p_spec p) then State_Monad.return None
          else retireHelper K ns p)"

definition reuseHelper :: "'k kube \<Rightarrow> string \<Rightarrow> pod \<Rightarrow> ('k, check) kop" where
  "reuseHelper K ns desired = do {
     r \<leftarrow> getPod K ns (p_name desired);
     (case r of
        Inl e \<Rightarrow> State_Monad.return (Some (Status Unavailable
                   (Errorf ''failed to get helper pod %q: %v'' [p_name desired] (Some (ApiErr e)))))
      | Inr existing \<Rightarrow> useExistingHelper K ns desired existing)
   }"

definition ensureHelper :: "'k kube \<Rightarrow> string \<Rightarrow> pod \<Rightarrow> int \<Rightarrow> ('k, check) kop" where
  "ensureHelper K ns desired maxActive = do {
     r \<leftarrow> getPod K ns (p_name desired);
     (case r of
        Inr existing \<Rightarrow> useExistingHelper K ns desired existing
      | Inl e \<Rightarrow>
          if \<not> not_found e then
            State_Monad.return (Some (Status Unavailable
              (Errorf ''failed to check for helper pod %q: %v'' [p_name desired] (Some (ApiErr e)))))
          else do {
            a \<leftarrow> admitHelper K ns desired maxActive;
            (case a of
               Some e' \<Rightarrow> State_Monad.return (Some e')
             | None \<Rightarrow> do {
                 c \<leftarrow> createPod K ns desired;
                 (case c of
                    None \<Rightarrow> State_Monad.return None
                  | Some e' \<Rightarrow>
                      if e' \<noteq> ApiAlreadyExists then State_Monad.return (Some (ApiErr e'))
                      else reuseHelper K ns desired)
               })
          })
   }"

subsection \<open>Waiting\<close>

definition maxLength :: nat where "maxLength = 1024"

definition compactErrorMessage :: "string \<Rightarrow> string" where
  "compactErrorMessage message =
     (let m = join '' '' (Fields message); rs = to_runes m
      in if length rs \<le> maxLength then m else from_runes (take maxLength rs) @ ''...'')"

definition status_detail :: "container_status \<Rightarrow> string list" where
  "status_detail st =
     (case cst_terminated st of
        None \<Rightarrow> []
      | Some te \<Rightarrow>
          let detail = ''container '' @ cst_name st @ '' exited with code '' @ show_int (te_exitCode te)
                         @ '' reason='' @ valueOrUnknown (te_reason te);
              message = compactErrorMessage (te_message te)
          in [if message \<noteq> '''' then detail @ '' message='' @ message else detail])"

definition helperFailure :: "pod \<Rightarrow> string \<Rightarrow> actionType \<Rightarrow> goerr" where
  "helperFailure p resource action =
     (let details =
            (if p_reason p \<noteq> '''' \<or> p_message p \<noteq> '''' then
               [''pod reason='' @ valueOrUnknown (p_reason p) @ '' message=''
                  @ valueOrUnknown (compactErrorMessage (p_message p))]
             else [])
            @ concat (map status_detail (p_containerStatuses p));
          message = resource @ '' '' @ action @ '' helper pod '' @ p_name p @ '' failed''
      in Status Internal (msg (if details \<noteq> [] then message @ '': '' @ join ''; '' details else message)))"

definition helperResult ::
  "'k kube \<Rightarrow> api_error + pod option \<Rightarrow> string \<Rightarrow> string \<Rightarrow> actionType \<Rightarrow> ('k, bool \<times> check) kop" where
  "helperResult K r podName resource action = do {
     ctxErr \<leftarrow> k_ask (k_ctxErr K);
     State_Monad.return
       (case r of
          Inl readErr \<Rightarrow>
            (case ctxErr of
               Some e \<Rightarrow> (False, Some (FromContextError e))
             | None \<Rightarrow>
                 if not_found readErr then
                   (False, Some (Status Unavailable
                      (Errorf ''%s %s helper pod %q disappeared; retry'' [resource, action, podName] None)))
                 else (False, None))
        | Inr None \<Rightarrow> (False, Some (Status Internal (msg ''Kubernetes API returned an empty helper pod'')))
        | Inr (Some p) \<Rightarrow>
            if p_phase p = PodFailed then (True, Some (helperFailure p resource action))
            else if p_phase p = PodSucceeded then (True, None)
            else (False, None))
   }"

definition waitForRetry :: "'k kube \<Rightarrow> ('k, check) kop" where
  "waitForRetry K = State (\<lambda>s.
     case c_polls s of
       0 \<Rightarrow> (Some (FromContextError (c_reason s)), s)
     | Suc n \<Rightarrow> (None, s\<lparr>c_polls := n, c_world := k_tick K (c_world s)\<rparr>))"

text \<open>
  The loop of \<open>waitForHelper\<close>.  It ends because each retry uses up one of the polls that are left
  before the context ends.
\<close>

function wait_loop ::
  "'k kube \<Rightarrow> string \<Rightarrow> string \<Rightarrow> string \<Rightarrow> actionType \<Rightarrow> 'k ctl \<Rightarrow> (bool \<times> check) \<times> 'k ctl" where
  "wait_loop K ns podName resource action s =
     (let (r, s1) = run_state (getPod K ns podName) s;
          (result, s2) = run_state (helperResult K r podName resource action) s1
      in if fst result \<or> snd result \<noteq> None then (result, s2)
         else let (err, s3) = run_state (waitForRetry K) s2
              in case err of
                   Some e \<Rightarrow> ((False, Some e), s3)
                 | None \<Rightarrow> wait_loop K ns podName resource action s3)"
  by pat_completeness auto

lemma helperResult_same [simp]: "snd (run_state (helperResult K r podName resource action) s) = s"
  by (simp add: helperResult_def run_simps)

lemma getPod_polls [simp]: "c_polls (snd (run_state (getPod K ns n) s)) = c_polls s"
  by (simp add: getPod_def run_simps)

lemma waitForRetry_polls: "run_state (waitForRetry K) s = (None, t) \<Longrightarrow> c_polls s = Suc (c_polls t)"
  by (auto simp: waitForRetry_def split: nat.splits)

termination wait_loop
proof (relation "measure (\<lambda>(K, ns, podName, resource, action, s). c_polls s)", goal_cases)
  case (2 K ns podName resource action s x r s1 y z s2 u err s3)
  then have "s1 = snd (run_state (getPod K ns podName) s)" by (metis snd_conv)
  moreover have "s2 = s1" using 2 by (metis helperResult_same snd_conv)
  ultimately show ?case using waitForRetry_polls [of K s2 s3] 2 by simp
qed simp

declare wait_loop.simps [simp del]

definition waitForHelper ::
  "'k kube \<Rightarrow> string \<Rightarrow> string \<Rightarrow> string \<Rightarrow> actionType \<Rightarrow> ('k, bool \<times> check) kop" where
  "waitForHelper K ns podName resource action = State (wait_loop K ns podName resource action)"

definition deleteHelper :: "'k kube \<Rightarrow> string \<Rightarrow> string \<Rightarrow> ('k, unit) kop" where
  "deleteHelper K ns podName = do {
     _ \<leftarrow> deletePod K ns podName None;
     State_Monad.return ()
   }"

definition runHelper :: "'k kube \<Rightarrow> string \<Rightarrow> pod \<Rightarrow> helperParams \<Rightarrow> ('k, check) kop" where
  "runHelper K ns p params = do {
     e \<leftarrow> ensureHelper K ns p (MaxActive (hp_config params));
     (case e of
        Some err \<Rightarrow> State_Monad.return (Some err)
      | None \<Rightarrow> do {
          (terminal, err) \<leftarrow> waitForHelper K ns (p_name p) (hp_resource params) (hp_action params);
          (if \<not> terminal then State_Monad.return err
           else do {
             _ \<leftarrow> deleteHelper K ns (p_name p);
             State_Monad.return err
           })
        })
   }"

definition createSnapshotHelper :: "'k kube \<Rightarrow> snapshotAction \<Rightarrow> ('k, check) kop" where
  "createSnapshotHelper K action =
     (case snapshotHelperArgs action of
        Inl e \<Rightarrow> State_Monad.return (Some e)
      | Inr args \<Rightarrow>
          let params = snapshot_helperParams action
          in runHelper K (sa_namespace action) (newHelperPod params args) params)"

definition createVolumeHelper :: "'k kube \<Rightarrow> volumeAction \<Rightarrow> ('k, check) kop" where
  "createVolumeHelper K action =
     (case volumeHelperArgs action of
        Inl e \<Rightarrow> State_Monad.return (Some e)
      | Inr args \<Rightarrow>
          let params = volume_helperParams action
          in runHelper K (va_namespace action) (newHelperPod params args) params)"


subsection \<open>Deadlines\<close>

definition config_ok :: "HelperConfig \<Rightarrow> bool" where
  "config_ok c \<longleftrightarrow> 0 < CommandTimeout c \<and> CommandTimeout c < PodTimeout c
     \<and> 0 < ThinPoolCreateTimeout c \<and> ThinPoolCreateTimeout c < ThinPoolPodTimeout c \<and> 0 < MaxActive c"

interpretation config: validator validate_config config_ok
  by unfold_locales (auto simp: validate_config_def config_ok_def)

lemma durationSeconds_ceiling:
  assumes "0 \<le> d"
  shows "d \<le> durationSeconds d * second" and "durationSeconds d * second < d + second"
proof -
  have d: "durationSeconds d = (if d mod second \<noteq> 0 then d div second + 1 else d div second)"
    using assms by (cases "d = 0") (auto simp: durationSeconds_def Let_def)
  obtain q r where qr: "q = d div second" "r = d mod second" by blast
  have "d = second * q + r" "0 \<le> r" "r < second" unfolding qr by (simp_all add: second_def)
  then have "d \<le> durationSeconds d * second \<and> durationSeconds d * second < d + second"
    unfolding d qr [symmetric] by (auto simp: algebra_simps)
  then show "d \<le> durationSeconds d * second" "durationSeconds d * second < d + second" by auto
qed

lemma newHelperPod_deadline:
  "ps_activeDeadline (p_spec (newHelperPod params args)) = Some (durationSeconds (helperPodTimeout params))"
  by (simp add: newHelperPod_def helperMetadata_def helperSpec_def Let_def)

text \<open>
  C33 (deadlines): with a configuration that the driver accepts, the pod that creates a \<open>dm-thin\<close> volume
  is given more whole seconds than the creation of a thin pool may take, and every other helper pod
  more than a single LVM command may take; and none a full second more than the pod timeout configured
  for it.  This says nothing of a clone onto \<open>dm-thin\<close> that has to create the thin pool: its pod counts
  among the others (\<open>clone_deadline_before_pool_timeout\<close> below).  The default configuration is accepted.
\<close>

theorem helper_deadline_bounds:
  assumes "validate_config (hp_config params) = None"
    and "ps_activeDeadline (p_spec (newHelperPod params args)) = Some d"
  shows "(if hp_action params = actionTypeCreate \<and> hp_lvmType params = DmThinType
          then ThinPoolCreateTimeout (hp_config params) else CommandTimeout (hp_config params)) < d * second
    \<and> d * second < helperPodTimeout params + second
    \<and> validate_config DefaultHelperConfig = None"
proof -
  let ?T = "helperPodTimeout params"
  have ok: "config_ok (hp_config params)" using assms(1) by (simp add: config.check_iff)
  have d: "d = durationSeconds ?T" using assms(2) by (simp add: newHelperPod_deadline)
  have "0 < ?T" using ok by (auto simp: helperPodTimeout_def config_ok_def)
  then have "?T \<le> d * second" "d * second < ?T + second" using durationSeconds_ceiling d by simp_all
  moreover have "(if hp_action params = actionTypeCreate \<and> hp_lvmType params = DmThinType
      then ThinPoolCreateTimeout (hp_config params) else CommandTimeout (hp_config params)) < ?T"
    using ok by (simp add: helperPodTimeout_def config_ok_def)
  moreover have "config_ok DefaultHelperConfig"
    by (simp add: config_ok_def DefaultHelperConfig_def minute_def second_def)
  ultimately show ?thesis by (simp add: config.check_iff)
qed

definition thin_params :: helperParams where
  "thin_params = \<lparr>hp_name = ''pvc-1'', hp_resource = ''volume'', hp_action = actionTypeCreate, hp_nodeName = ''node1'',
     hp_vgName = ''vg'', hp_lvmType = DmThinType, hp_hostWritePath = ''/etc/lvm'', hp_provisionerImage = ''img'',
     hp_pullPolicy = ''Always'', hp_config = DefaultHelperConfig\<rparr>"

theorem helper_deadline_bounds_witness:
  "\<exists>d. ps_activeDeadline (p_spec (newHelperPod thin_params [])) = Some d \<and> 15 * minute < d * second"
proof -
  have ok: "validate_config (hp_config thin_params) = None"
    by (simp add: config.check_iff config_ok_def DefaultHelperConfig_def minute_def second_def thin_params_def)
  from helper_deadline_bounds [OF ok newHelperPod_deadline] show ?thesis
    by (simp add: newHelperPod_deadline) (simp add: thin_params_def DefaultHelperConfig_def)
qed

text \<open>
  A clone onto a \<open>dm-thin\<close> volume may have to create the thin pool,
  which may take \<open>ThinPoolCreateTimeout\<close>, but its pod gets the ordinary \<open>PodTimeout\<close>.  With the
  default configuration the pod is ended before the creation can time out, and with it the
  provisioner that would have rolled the pool back.
\<close>

lemma clone_deadline_before_pool_timeout:
  "\<exists>d. ps_activeDeadline (p_spec (newHelperPod
          (thin_params\<lparr>hp_action := actionTypeClone\<rparr>) args)) = Some d
     \<and> d * second < ThinPoolCreateTimeout DefaultHelperConfig"
  unfolding newHelperPod_deadline
  by (simp add: helperPodTimeout_def thin_params_def action_types DefaultHelperConfig_def durationSeconds_def
      minute_def second_def)

subsection \<open>Error messages\<close>

lemma fields_acc_no_newline:
  assumes "CHR 0x0A \<notin> set cur" and "f \<in> set (fields_acc cur s)"
  shows "CHR 0x0A \<notin> set f"
  using assms
proof (induction cur s arbitrary: f rule: fields_acc.induct)
  case (1 cur s)
  show ?case
  proof (cases "strip_space space_seqs s")
    case (Some r)
    then show ?thesis using 1 by (auto simp: fields_acc.simps [of cur s] split: if_splits)
  next
    case None
    have nl: "hd s \<noteq> CHR 0x0A" if "s \<noteq> []"
    proof
      assume "hd s = CHR 0x0A"
      then have "prefix [CHR 0x0A] s" using that by (cases s) auto
      moreover have "[CHR 0x0A] \<in> set space_seqs" by (simp add: space_seqs_def)
      ultimately show False using None by (auto simp: strip_space_def find_None_iff)
    qed
    show ?thesis
    proof (cases s)
      case Nil
      then show ?thesis using "1.prems" by (auto simp: fields_acc.simps [of cur "[]"] split: if_splits)
    next
      case (Cons c t)
      have "f \<in> set (fields_acc (cur @ [c]) t)" using "1.prems"(2) None Cons by (simp add: fields_acc.simps [of cur "c # t"])
      moreover have "CHR 0x0A \<notin> set (cur @ [c])" using "1.prems"(1) nl Cons by simp
      ultimately show ?thesis using "1.IH"(1) [OF None Cons] by blast
    qed
  qed
qed

lemma join_chars: "c \<in> set (join sep xs) \<Longrightarrow> c \<in> set sep \<or> (\<exists>x \<in> set xs. c \<in> set x)"
  by (induction sep xs rule: join.induct) auto

text \<open>
  Bounds: whatever a failed container wrote, the message that is put into an error is at most
  1024 runes and an ellipsis, that is at most 4099 bytes, and has no line break.
\<close>

lemma compactErrorMessage_bounded:
  "length (compactErrorMessage m) \<le> 4 * maxLength + 3 \<and> CHR 0x0A \<notin> set (compactErrorMessage m)"
proof -
  let ?j = "join '' '' (Fields m)"
  have nl: "CHR 0x0A \<notin> set ?j"
    using join_chars [of "CHR 0x0A" "'' ''" "Fields m"] fields_acc_no_newline [of "''''" _ m]
    by (auto simp: Fields_def)
  show ?thesis
  proof (cases "length (to_runes ?j) \<le> maxLength")
    case True
    then have "length ?j \<le> 4 * maxLength" using length_runes_of [of "map of_char ?j"] by (simp add: to_runes_def)
    then show ?thesis using True nl by (simp add: compactErrorMessage_def Let_def)
  next
    case False
    let ?cut = "from_runes (take maxLength (to_runes ?j))"
    have "CHR 0x0A \<notin> set ?cut" using cut_ascii [of "CHR 0x0A" maxLength ?j] nl by auto
    moreover have "length ?cut \<le> 4 * maxLength" using length_from_runes [of "take maxLength (to_runes ?j)"] by simp
    ultimately show ?thesis using False by (simp add: compactErrorMessage_def Let_def)
  qed
qed


subsection \<open>Waiting for a helper\<close>

text \<open>\<open>seen K ns n t ph\<close>: the last pod read before the state \<open>t\<close> was the pod \<open>n\<close> in phase \<open>ph\<close>.\<close>

definition seen :: "'k kube \<Rightarrow> string \<Rightarrow> string \<Rightarrow> 'k ctl \<Rightarrow> string \<Rightarrow> bool" where
  "seen K ns n t ph \<longleftrightarrow> (\<exists>w p. k_getPod K ns n w = (Inr (Some p), c_world t) \<and> p_phase p = ph)"

lemma wait_loop_outcome:
  assumes "wait_loop K ns n resource action s = ((terminal, err), t)"
  shows "c_log t = c_log s \<and> c_polls t \<le> c_polls s
    \<and> (if terminal then (err = None \<and> seen K ns n t PodSucceeded) \<or> (status_of err = Some Internal \<and> seen K ns n t PodFailed)
       else err \<noteq> None)"
  using assms
proof (induction K ns n resource action s rule: wait_loop.induct)
  case (1 K ns n resource action s)
  obtain r s1 where g: "run_state (getPod K ns n) s = (r, s1)" by (rule prod.exhaust)
  obtain res where h: "run_state (helperResult K r n resource action) s1 = (res, s1)"
    by (metis helperResult_same prod.collapse)
  have s1: "c_log s1 = c_log s" "c_polls s1 = c_polls s" "k_getPod K ns n (c_world s) = (r, c_world s1)"
    using g by (auto simp: getPod_def run_simps)
  show ?case
  proof (cases "fst res \<or> snd res \<noteq> None")
    case True
    then have "res = (terminal, err)" "t = s1"
      using "1.prems" g h by (auto simp: wait_loop.simps [of K ns n resource action s])
    moreover have "(if fst res then (snd res = None \<and> seen K ns n s1 PodSucceeded)
        \<or> (status_of (snd res) = Some Internal \<and> seen K ns n s1 PodFailed) else snd res \<noteq> None)"
      using True h s1(3)
      by (auto simp: helperResult_def run_simps seen_def helperFailure_def Let_def split: sum.splits option.splits if_splits)
    ultimately show ?thesis using s1 by auto
  next
    case False
    obtain e s2 where w: "run_state (waitForRetry K) s1 = (e, s2)" by (rule prod.exhaust)
    show ?thesis
    proof (cases e)
      case (Some x)
      then have "terminal = False" "err = Some x" "t = s2" "s2 = s1"
        using "1.prems" g h w False
        by (auto simp: wait_loop.simps [of K ns n resource action s] waitForRetry_def split: nat.splits)
      then show ?thesis using s1 by simp
    next
      case None
      then have loop: "wait_loop K ns n resource action s2 = ((terminal, err), t)"
        using "1.prems" g h w False by (auto simp: wait_loop.simps [of K ns n resource action s])
      have "c_log s2 = c_log s1" "c_polls s2 \<le> c_polls s1" using w None
        by (auto simp: waitForRetry_def split: nat.splits)
      moreover have "c_log t = c_log s2 \<and> c_polls t \<le> c_polls s2
        \<and> (if terminal then (err = None \<and> seen K ns n t PodSucceeded) \<or> (status_of err = Some Internal \<and> seen K ns n t PodFailed)
           else err \<noteq> None)"
        using "1.IH" [OF g [symmetric] refl h [symmetric] refl _ w [symmetric] refl None loop] False by simp
      ultimately show ?thesis using s1 by auto
    qed
  qed
qed


subsection \<open>Admission and retirement\<close>

definition admitted :: "pod list \<Rightarrow> pod \<Rightarrow> int \<Rightarrow> bool" where
  "admitted items desired maxActive \<longleftrightarrow> helperVGs desired \<noteq> []
     \<and> (\<forall>vg \<in> set (helperVGs desired). countActiveHelpers items desired vg < maxActive)"

interpretation vg_limit: validator "vg_admission items desired maxActive"
  "\<lambda>vg. countActiveHelpers items desired vg < maxActive"
  by unfold_locales (simp add: vg_admission_def Let_def)

lemma admitHelper_None:
  assumes "run_state (admitHelper K ns desired maxActive) s = (None, t)"
  shows "\<exists>items. k_listPods K ns (c_world s) = (Inr items, c_world t) \<and> admitted items desired maxActive"
proof -
  obtain l w where l: "k_listPods K ns (c_world s) = (l, w)" by (rule prod.exhaust)
  with assms show ?thesis
    by (cases l) (auto simp: admitHelper_def listPods_def run_simps admitted_def vg_limit.check_iff Let_def
        split: if_splits)
qed

text \<open>The two reasons for which an existing pod \<open>q\<close> of the same name is deleted.\<close>

definition may_delete :: "'k kube \<Rightarrow> string \<Rightarrow> pod \<Rightarrow> string \<Rightarrow> int option \<Rightarrow> bool" where
  "may_delete K ns desired n g \<longleftrightarrow>
     (\<exists>w q w'. k_getPod K ns (p_name desired) w = (Inr (Some q), w') \<and> n = p_name q \<and>
        (if p_deletionTimestamp q \<noteq> None then g = Some 0
         else podTerminal q \<and> \<not> k_derivative K (p_spec desired) (p_spec q) \<and> g = None))"

definition ensure_ok :: "'k kube \<Rightarrow> string \<Rightarrow> pod \<Rightarrow> int \<Rightarrow> kevent \<Rightarrow> bool" where
  "ensure_ok K ns desired maxActive ev \<longleftrightarrow>
     (case ev of
        KCreatePod ns' d _ \<Rightarrow> ns' = ns \<and> d = desired
          \<and> (\<exists>w items w'. k_listPods K ns w = (Inr items, w') \<and> admitted items desired maxActive)
      | KDeletePod ns' n g _ \<Rightarrow> ns' = ns \<and> may_delete K ns desired n g
      | _ \<Rightarrow> False)"

lemma useExistingHelper_ok:
  assumes "k_getPod K ns (p_name desired) w = (Inr existing, w')"
  shows "keeps (writes (ensure_ok K ns desired maxActive)) (useExistingHelper K ns desired existing)"
proof (cases existing)
  case None
  then show ?thesis by (simp add: useExistingHelper_def keeps_writes_return)
next
  case (Some q)
  then have *: "may_delete K ns desired (p_name q) g"
    if "if p_deletionTimestamp q \<noteq> None then g = Some 0
        else podTerminal q \<and> \<not> k_derivative K (p_spec desired) (p_spec q) \<and> g = None" for g
    using assms that unfolding may_delete_def Some by blast
  show ?thesis unfolding Some
    by (auto simp: useExistingHelper_def forceDeleteHelper_def retireHelper_def ensure_ok_def intro!: kop_intro *)
qed

lemma reuseHelper_ok: "keeps (writes (ensure_ok K ns desired maxActive)) (reuseHelper K ns desired)"
  unfolding keeps_def
proof
  fix s
  obtain r s1 where g: "run_state (getPod K ns (p_name desired)) s = (r, s1)" by (rule prod.exhaust)
  have w: "k_getPod K ns (p_name desired) (c_world s) = (r, c_world s1)" "c_log s1 = c_log s"
    using g by (auto simp: getPod_def run_simps)
  show "writes (ensure_ok K ns desired maxActive) s (snd (run_state (reuseHelper K ns desired) s))"
  proof (cases r)
    case (Inl e)
    then show ?thesis using g w by (simp add: reuseHelper_def writes_def)
  next
    case (Inr existing)
    with w keepsD' [OF useExistingHelper_ok [of K ns desired "c_world s" existing "c_world s1" maxActive], of s1]
    show ?thesis using g by (auto simp: reuseHelper_def elim: writes_log)
  qed
qed

lemma run_ensureHelper_ok:
  "writes (ensure_ok K ns desired maxActive) s (snd (run_state (ensureHelper K ns desired maxActive) s))"
proof -
  let ?W = "writes (ensure_ok K ns desired maxActive)"
  obtain r s1 where g: "run_state (getPod K ns (p_name desired)) s = (r, s1)" by (rule prod.exhaust)
  have w: "k_getPod K ns (p_name desired) (c_world s) = (r, c_world s1)" "c_log s1 = c_log s"
    using g by (auto simp: getPod_def run_simps)
  show ?thesis
  proof (cases r)
    case (Inr existing)
    with w keepsD' [OF useExistingHelper_ok [of K ns desired "c_world s" existing "c_world s1" maxActive], of s1]
    show ?thesis using g by (auto simp: ensureHelper_def elim: writes_log)
  next
    case (Inl e)
    obtain a s2 where adm: "run_state (admitHelper K ns desired maxActive) s1 = (a, s2)" by (rule prod.exhaust)
    have log: "c_log s2 = c_log s1" using adm
      by (auto simp: admitHelper_def listPods_def run_simps split: if_splits)
    show ?thesis
    proof (cases "not_found e \<and> a = None")
      case False
      then show ?thesis using g w log Inl adm
        by (auto simp: ensureHelper_def writes_def split: option.splits)
    next
      case True
      then have "\<exists>w items w'. k_listPods K ns w = (Inr items, w') \<and> admitted items desired maxActive"
        using adm admitHelper_None by blast
      then have "keeps ?W (createPod K ns desired \<bind> (\<lambda>c. case c of None \<Rightarrow> State_Monad.return None
          | Some e' \<Rightarrow> if e' \<noteq> ApiAlreadyExists then State_Monad.return (Some (ApiErr e'))
                      else reuseHelper K ns desired))" (is "keeps _ ?m")
        by (intro kop_intro reuseHelper_ok) (simp add: ensure_ok_def)
      then have "?W s2 (snd (run_state ?m s2))" by (rule keepsD')
      moreover have "snd (run_state (ensureHelper K ns desired maxActive) s) = snd (run_state ?m s2)"
        using True g adm Inl by (simp add: ensureHelper_def)
      ultimately show ?thesis using log w(2) by (simp add: writes_def)
    qed
  qed
qed

text \<open>
  C20 (admission): a helper pod is created only after a listing of the pods in which, for every
  volume group the helper uses, fewer than \<open>maxActive\<close> other helpers were active on its node; an
  existing pod is deleted only if it is already being deleted, or ended and belongs to another
  request; nothing else is written.
\<close>

theorem ensureHelper_writes:
  "writes (ensure_ok K ns desired maxActive) s (snd (run_state (ensureHelper K ns desired maxActive) s))"
  by (rule run_ensureHelper_ok)


text \<open>
  What a helper run writes, and what its success means, as the controller uses it: the writes of
  \<open>ensureHelper\<close>, and the deletion of the helper pod once it was read in a terminal phase.
\<close>

definition ended :: "'k kube \<Rightarrow> string \<Rightarrow> string \<Rightarrow> bool" where
  "ended K ns n \<longleftrightarrow> (\<exists>w p w'. k_getPod K ns n w = (Inr (Some p), w') \<and> podTerminal p)"

definition helper_event :: "'k kube \<Rightarrow> string \<Rightarrow> pod \<Rightarrow> int \<Rightarrow> kevent \<Rightarrow> bool" where
  "helper_event K ns d maxActive ev \<longleftrightarrow> ensure_ok K ns d maxActive ev
     \<or> ended K ns (p_name d) \<and> (\<exists>x. ev = KDeletePod ns (p_name d) None x)"

text \<open>
  With an API that answers a pod of the name it is asked for, the only pod that is created or deleted
  is the one of the action.
\<close>

definition pods_by_name :: "'k kube \<Rightarrow> string \<Rightarrow> bool" where
  "pods_by_name K ns \<longleftrightarrow> (\<forall>n w q w'. k_getPod K ns n w = (Inr (Some q), w') \<longrightarrow> p_name q = n)"

definition pod_write :: "string \<Rightarrow> string \<Rightarrow> kevent \<Rightarrow> bool" where
  "pod_write ns n ev \<longleftrightarrow> (\<exists>d x. ev = KCreatePod ns d x \<and> p_name d = n) \<or> (\<exists>g x. ev = KDeletePod ns n g x)"

lemma helper_event_named:
  "helper_event K ns d m ev \<Longrightarrow> pods_by_name K ns \<Longrightarrow> pod_write ns (p_name d) ev"
  by (cases ev) (auto simp: helper_event_def ensure_ok_def may_delete_def pods_by_name_def pod_write_def)

lemma runHelper_cases:
  assumes "run_state (runHelper K ns p params) s = (r, t)"
  obtains e s1 where "run_state (ensureHelper K ns p (MaxActive (hp_config params))) s = (Some e, s1)" "r = Some e" "t = s1"
  | s1 terminal u where "run_state (ensureHelper K ns p (MaxActive (hp_config params))) s = (None, s1)"
      "wait_loop K ns (p_name p) (hp_resource params) (hp_action params) s1 = ((terminal, r), u)"
      "t = (if terminal then snd (run_state (deletePod K ns (p_name p) None) u) else u)"
proof -
  obtain e s1 where en: "run_state (ensureHelper K ns p (MaxActive (hp_config params))) s = (e, s1)" by (rule prod.exhaust)
  obtain terminal err u where w: "wait_loop K ns (p_name p) (hp_resource params) (hp_action params) s1 = ((terminal, err), u)"
    by (metis prod.exhaust)
  show thesis
  proof (cases e)
    case (Some x)
    then show ?thesis using assms en that(1) by (auto simp: runHelper_def)
  next
    case None
    then have "r = err" "t = (if terminal then snd (run_state (deletePod K ns (p_name p) None) u) else u)"
      using assms en w
      by (auto simp: runHelper_def waitForHelper_def deleteHelper_def run_simps split: if_splits prod.splits)
    then show ?thesis using that(2) en w None by simp
  qed
qed

lemma runHelper_writes: "keeps (writes (helper_event K ns p (MaxActive (hp_config params)))) (runHelper K ns p params)"
  unfolding keeps_def
proof
  fix s
  let ?m = "MaxActive (hp_config params)"
  obtain r t where run: "run_state (runHelper K ns p params) s = (r, t)" by (rule prod.exhaust)
  obtain e s1 where en: "run_state (ensureHelper K ns p ?m) s = (e, s1)" by (rule prod.exhaust)
  have s1: "writes (helper_event K ns p ?m) s s1"
    using run_ensureHelper_ok [of K ns p ?m s] en by (auto simp: helper_event_def elim: writes_mono)
  from run show "writes (helper_event K ns p ?m) s (snd (run_state (runHelper K ns p params) s))"
  proof (cases rule: runHelper_cases)
    case 1
    then show ?thesis using s1 en run by simp
  next
    case (2 s2 terminal u)
    note out = wait_loop_outcome [OF 2(2)]
    have "ended K ns (p_name p)" if terminal
      using out that by (auto simp: ended_def seen_def podTerminal_def)
    moreover have "writes (helper_event K ns p ?m) s u" using out s1 en 2(1) by (simp add: writes_def)
    ultimately show ?thesis using 2(3) run
      by (auto simp: deletePod_def run_simps helper_event_def writes_def)
  qed
qed

lemma runHelper_success:
  assumes "run_state (runHelper K ns p params) s = (None, t)"
  shows "\<exists>u x. seen K ns (p_name p) u PodSucceeded \<and> c_log t = c_log u @ [KDeletePod ns (p_name p) None x]"
  using assms
proof (cases rule: runHelper_cases)
  case (2 s2 terminal u)
  then show ?thesis using wait_loop_outcome [OF 2(2)]
    by (intro exI [of _ u]) (auto simp: deletePod_def run_simps split: if_splits)
qed simp

subsection \<open>The volume groups of a helper\<close>

lemma helperVGs_iff:
  "vg \<in> set (helperVGs p) \<longleftrightarrow> (vg \<noteq> '''' \<and> vg = lookup (p_annotations p) helperVGAnnotation)
     \<or> (\<exists>c \<in> set (ps_containers (p_spec p)). vg \<in> set (addVGArgs (co_args c)))"
  by (auto simp: helperVGs_def Let_def)

definition plain :: "string \<Rightarrow> bool" where
  "plain x \<longleftrightarrow> \<not> prefix ''--'' x"

lemma addVGArgs_plain: "plain arg \<Longrightarrow> addVGArgs (arg # rest) = addVGArgs rest"
  by (auto simp: plain_def flag_value_def trim_prefix_def prefix_def Let_def)

lemma addVGArgs_flags:
  "plain v \<Longrightarrow> addVGArgs (''--vgname'' # v # rest) = (if v \<noteq> '''' then [v] else []) @ addVGArgs rest"
  "plain v \<Longrightarrow> addVGArgs (''--srcvgname'' # v # rest) = (if v \<noteq> '''' then [v] else []) @ addVGArgs rest"
  "addVGArgs (''--lvsize'' # rest) = addVGArgs rest" "addVGArgs (''--lvmtype'' # rest) = addVGArgs rest"
  "addVGArgs (''--lvname'' # rest) = addVGArgs rest" "addVGArgs (''--srctype'' # rest) = addVGArgs rest"
  "addVGArgs (''--srclvname'' # rest) = addVGArgs rest"
  using addVGArgs_plain [of v rest] by (simp_all add: flag_value_def trim_prefix_def)

lemma plain_commands: "plain ''createlv''" "plain ''deletelv''" "plain ''clonelv''"
  by (simp_all add: plain_def)

lemma plain_show_int: "plain (show_int n)"
proof -
  have "\<not> prefix ''--'' (show_nat k)" "\<not> prefix ''-'' (show_nat k)" for k
    using show_nat_hd_digit [of k] by (auto simp: prefix_def is_digit_def)
  then show ?thesis by (auto simp: plain_def show_int_def)
qed

lemma newHelperPod_groups:
  "vg \<in> set (helperVGs (newHelperPod params args)) \<longleftrightarrow> (vg \<noteq> '''' \<and> vg = hp_vgName params) \<or> vg \<in> set (addVGArgs args)"
  by (simp add: helperVGs_iff newHelperPod_def helperMetadata_def helperSpec_def newHelperContainer_def Let_def
      flag_value_def trim_prefix_def)

text \<open>
  The admission counts a volume helper against every volume group it works on: the group of
  the volume and, for a clone or a deletion, the group of the source; no other group.  (The
  values of the flags are names, which do not start with two hyphens.)
\<close>

lemma volume_helper_groups:
  assumes "volumeHelperArgs action = Inr args"
    and "\<forall>i. va_srcInfo action = Some i \<longrightarrow> plain (srcLVName i) \<and> plain (srcVGName i) \<and> plain (srcType i)"
    and "plain (va_name action)" and "plain (va_vgName action)" and "plain (va_lvmType action)"
  shows "set (helperVGs (newHelperPod (volume_helperParams action) args)) =
    {vg. vg \<noteq> '''' \<and> (vg = va_vgName action
        \<or> va_action action \<noteq> actionTypeCreate \<and> (\<exists>i. va_srcInfo action = Some i \<and> vg = srcVGName i))}"
proof -
  have params: "hp_vgName (volume_helperParams action) = va_vgName action" by (simp add: volume_helperParams_def)
  note calc = addVGArgs_flags addVGArgs_plain plain_show_int plain_commands assms(3-5)
  consider (create) "va_action action = actionTypeCreate" "args = [''createlv'', ''--lvsize'', show_int (va_size action),
        ''--lvmtype'', va_lvmType action, ''--vgname'', va_vgName action, ''--lvname'', va_name action]"
    | (delete) i where "va_action action \<noteq> actionTypeCreate" "va_srcInfo action = Some i"
        "args = [''deletelv'', ''--srcvgname'', srcVGName i, ''--srctype'', srcType i, ''--lvname'', va_name action]"
    | (clone) i where "va_action action \<noteq> actionTypeCreate" "va_srcInfo action = Some i"
        "args = [''clonelv'', ''--srclvname'', srcLVName i, ''--srcvgname'', srcVGName i, ''--srctype'', srcType i,
           ''--lvsize'', show_int (va_size action), ''--vgname'', va_vgName action,
           ''--lvmtype'', va_lvmType action, ''--lvname'', va_name action]"
    using assms(1) unfolding volumeHelperArgs_def by (auto split: if_splits option.splits)
  then have "(vg \<noteq> '''' \<and> vg = va_vgName action) \<or> vg \<in> set (addVGArgs args) \<longleftrightarrow> vg \<noteq> '''' \<and> (vg = va_vgName action
        \<or> va_action action \<noteq> actionTypeCreate \<and> (\<exists>i. va_srcInfo action = Some i \<and> vg = srcVGName i))" for vg
  proof cases
    case create
    then show ?thesis by (auto simp: calc simp del: addVGArgs.simps(2))
  next
    case delete
    moreover have "plain (srcVGName i)" "plain (srcType i)" using assms(2) delete(2) by simp_all
    ultimately show ?thesis by (auto simp: calc simp del: addVGArgs.simps(2))
  next
    case clone
    moreover have "plain (srcVGName i)" "plain (srcType i)" "plain (srcLVName i)" using assms(2) clone(2) by simp_all
    ultimately show ?thesis by (auto simp: calc simp del: addVGArgs.simps(2))
  qed
  then show ?thesis unfolding set_eq_iff newHelperPod_groups params mem_Collect_eq by (intro allI)
qed

definition clone_action :: volumeAction where
  "clone_action = \<lparr>va_action = actionTypeClone, va_name = ''pvc-2'', va_nodeName = ''node1'', va_size = 4096,
     va_lvmType = DmThinType, va_provisionerImage = ''img'', va_pullPolicy = ''Always'', va_namespace = ''ns'',
     va_vgName = ''vg1'', va_hostWritePath = ''/etc/lvm'',
     va_srcInfo = Some \<lparr>srcLVName = ''pvc-1'', srcVGName = ''vg2'', srcType = DmThinType\<rparr>,
     va_helperConfig = DefaultHelperConfig\<rparr>"

lemma volume_helper_groups_example:
  "\<exists>args. volumeHelperArgs clone_action = Inr args
     \<and> set (helperVGs (newHelperPod (volume_helperParams clone_action) args)) = {''vg1'', ''vg2''}"
proof -
  obtain args where a: "volumeHelperArgs clone_action = Inr args"
    by (simp add: volumeHelperArgs_def clone_action_def action_types)
  from volume_helper_groups [OF a] a show ?thesis
    by (auto simp: clone_action_def plain_def action_types lvm_types)
qed

subsection \<open>Helpers that succeed\<close>

lemma wait_loop_succeeds:
  assumes "\<forall>i < j. k_getPod K ns n ((k_tick K ^^ i) (c_world s)) = (Inr (Some (p i)), (k_tick K ^^ i) (c_world s))
      \<and> \<not> podTerminal (p i)"
    and "k_getPod K ns n ((k_tick K ^^ j) (c_world s)) = (Inr (Some q), (k_tick K ^^ j) (c_world s))"
    and "p_phase q = PodSucceeded" and "j \<le> c_polls s"
  shows "wait_loop K ns n resource action s = ((True, None), s\<lparr>c_world := (k_tick K ^^ j) (c_world s), c_polls := c_polls s - j\<rparr>)"
  using assms
proof (induction j arbitrary: s p)
  case 0
  then show ?case by (simp add: wait_loop.simps [of _ _ _ _ _ s] getPod_def helperResult_def run_simps)
next
  case (Suc j)
  let ?s = "s\<lparr>c_polls := c_polls s - 1, c_world := k_tick K (c_world s)\<rparr>"
  have first: "k_getPod K ns n (c_world s) = (Inr (Some (p 0)), c_world s)" "\<not> podTerminal (p 0)"
    using Suc.prems(1) by (auto dest: spec [of _ 0])
  have polls: "c_polls s = Suc (c_polls s - 1)" using Suc.prems(4) by simp
  have shift: "(k_tick K ^^ i) (k_tick K w) = (k_tick K ^^ Suc i) w" for i w by (simp add: funpow_swap1)
  have "wait_loop K ns n resource action s = wait_loop K ns n resource action ?s"
    using first polls
    by (simp add: wait_loop.simps [of _ _ _ _ _ s] getPod_def helperResult_def run_simps waitForRetry_def podTerminal_def
        split: nat.splits)
  also have "\<dots> = ((True, None), ?s\<lparr>c_world := (k_tick K ^^ j) (c_world ?s), c_polls := c_polls ?s - j\<rparr>)"
    using Suc.prems by (intro Suc.IH [of ?s "\<lambda>i. p (Suc i)"]) (auto simp: shift simp del: funpow.simps(2))
  finally show ?case by (simp add: shift del: funpow.simps(2))
qed

text \<open>
  C31 (liveness): when every read of the pod is answered, the pod is not ended for the first \<open>j\<close>
  polls and is read as succeeded at the next, and the context leaves at least \<open>j\<close> retries, then the
  wait ends with success.
\<close>

theorem waitForHelper_live:
  assumes "\<forall>i < j. k_getPod K ns n ((k_tick K ^^ i) (c_world s)) = (Inr (Some (p i)), (k_tick K ^^ i) (c_world s))
      \<and> \<not> podTerminal (p i)"
    and "k_getPod K ns n ((k_tick K ^^ j) (c_world s)) = (Inr (Some q), (k_tick K ^^ j) (c_world s))"
    and "p_phase q = PodSucceeded" and "j \<le> c_polls s"
  shows "\<exists>t. run_state (waitForHelper K ns n resource action) s = ((True, None), t) \<and> c_log t = c_log s"
  using wait_loop_succeeds [OF assms] by (simp add: waitForHelper_def)

lemma wait_loop_runs_out:
  assumes "\<And>w. \<exists>p w'. k_getPod K ns n w = (Inr (Some p), w') \<and> \<not> podTerminal p"
  shows "\<exists>t. wait_loop K ns n resource action s = ((False, Some (FromContextError (c_reason s))), t) \<and> c_polls t = 0"
proof (induction "c_polls s" arbitrary: s)
  case 0
  obtain p w where "k_getPod K ns n (c_world s) = (Inr (Some p), w)" "\<not> podTerminal p" using assms by blast
  then show ?case using 0
    by (simp add: wait_loop.simps [of _ _ _ _ _ s] getPod_def helperResult_def run_simps waitForRetry_def podTerminal_def)
next
  case (Suc k)
  obtain p w where p: "k_getPod K ns n (c_world s) = (Inr (Some p), w)" "\<not> podTerminal p" using assms by blast
  let ?s = "s\<lparr>c_polls := k, c_world := k_tick K w\<rparr>"
  have "wait_loop K ns n resource action s = wait_loop K ns n resource action ?s"
    using p Suc(2) [symmetric]
    by (simp add: wait_loop.simps [of _ _ _ _ _ s] getPod_def helperResult_def run_simps waitForRetry_def podTerminal_def)
  then show ?case using Suc(1) [of ?s] by simp
qed

text \<open>
  C30 (termination): whatever the API answers, the wait for a helper ends, within the retries that the
  context leaves, with a terminal pod or an error, and writes nothing; for a pod that never ends the
  error is that of the context, once all retries are used.
\<close>

theorem waitForHelper_ends:
  "(\<exists>terminal err t. run_state (waitForHelper K ns n resource action) s = ((terminal, err), t)
      \<and> (terminal \<or> err \<noteq> None) \<and> c_polls t \<le> c_polls s \<and> c_log t = c_log s)
   \<and> ((\<forall>w. \<exists>p w'. k_getPod K ns n w = (Inr (Some p), w') \<and> \<not> podTerminal p) \<longrightarrow>
       (\<exists>t. run_state (waitForHelper K ns n resource action) s = ((False, Some (FromContextError (c_reason s))), t) \<and> c_polls t = 0))"
proof (intro conjI impI)
  obtain terminal err t where w: "wait_loop K ns n resource action s = ((terminal, err), t)" by (metis prod.exhaust)
  from wait_loop_outcome [OF w] w
  show "\<exists>terminal err t. run_state (waitForHelper K ns n resource action) s = ((terminal, err), t)
      \<and> (terminal \<or> err \<noteq> None) \<and> c_polls t \<le> c_polls s \<and> c_log t = c_log s"
    by (auto simp: waitForHelper_def split: if_splits)
  assume "\<forall>w. \<exists>p w'. k_getPod K ns n w = (Inr (Some p), w') \<and> \<not> podTerminal p"
  with wait_loop_runs_out [of K ns n resource action s]
  show "\<exists>t. run_state (waitForHelper K ns n resource action) s = ((False, Some (FromContextError (c_reason s))), t) \<and> c_polls t = 0"
    by (simp add: waitForHelper_def)
qed

text \<open>In the cluster of the examples a helper runs to its end when no other pod is there.\<close>

lemma cluster_runHelper:
  assumes "helperVGs p \<noteq> []" and "0 < MaxActive (hp_config params)" and "cl_pods (c_world s) = []"
  shows "run_state (runHelper cluster_kube ns p params) s =
    (None, s\<lparr>c_log := c_log s @ [KCreatePod ns p None, KDeletePod ns (p_name p) None None]\<rparr>)"
proof -
  let ?s1 = "s\<lparr>c_world := (c_world s)\<lparr>cl_pods := [p\<lparr>p_phase := PodSucceeded\<rparr>]\<rparr>, c_log := c_log s @ [KCreatePod ns p None]\<rparr>"
  have adm: "first_error (vg_admission [] p (MaxActive (hp_config params))) (helperVGs p) = None"
    using assms(2) by (simp add: vg_limit.check_iff countActiveHelpers_def)
  have en: "run_state (ensureHelper cluster_kube ns p (MaxActive (hp_config params))) s = (None, ?s1)"
    using assms by (simp add: adm ensureHelper_def admitHelper_def api_calls run_simps cluster_calls found_def not_found_def Let_def)
  have "wait_loop cluster_kube ns (p_name p) (hp_resource params) (hp_action params) ?s1 = ((True, None), ?s1)"
    using wait_loop_succeeds [of 0 cluster_kube ns "p_name p" ?s1 _ "p\<lparr>p_phase := PodSucceeded\<rparr>"]
    by (simp add: cluster_calls found_def)
  moreover have "(c_world s)\<lparr>cl_pods := []\<rparr> = c_world s" using assms(3) by simp
  ultimately show ?thesis using en
    by (simp add: runHelper_def waitForHelper_def deleteHelper_def api_calls run_simps cluster_calls)
qed

definition pod_x :: pod where
  "pod_x = newHelperPod thin_params [''createlv'', ''--vgname'', ''vg'']"

lemma pod_x_groups: "helperVGs pod_x \<noteq> []"
  using newHelperPod_groups [of "''vg''" thin_params "[''createlv'', ''--vgname'', ''vg'']"]
  by (auto simp: pod_x_def thin_params_def)


text \<open>A cluster in which the next tick ends every pod.\<close>

definition slow_kube :: "cluster kube" where
  "slow_kube = cluster_kube\<lparr>k_tick := (\<lambda>w. w\<lparr>cl_pods := map (\<lambda>p. p\<lparr>p_phase := PodSucceeded\<rparr>) (cl_pods w)\<rparr>)\<rparr>"

theorem waitForHelper_live_witness:
  "\<exists>t. run_state (waitForHelper slow_kube ''ns'' (p_name pod_x) ''volume'' ''create'')
       (k_start (no_pods\<lparr>cl_pods := [pod_x\<lparr>p_phase := ''Running''\<rparr>]\<rparr>)) = ((True, None), t)"
  using waitForHelper_live [of 1 slow_kube "''ns''" "p_name pod_x"
      "k_start (no_pods\<lparr>cl_pods := [pod_x\<lparr>p_phase := ''Running''\<rparr>]\<rparr>)" "\<lambda>_. pod_x\<lparr>p_phase := ''Running''\<rparr>"
      "pod_x\<lparr>p_phase := PodSucceeded\<rparr>" "''volume''" "''create''"]
  by (auto simp: slow_kube_def cluster_kube_def found_def podTerminal_def PodSucceeded_def PodFailed_def)


theorem waitForHelper_ends_witness:
  "\<exists>t. run_state (waitForHelper (cluster_kube\<lparr>k_getPod := (\<lambda>_ _ w. (Inr (Some pod_x), w))\<rparr>) ''ns'' ''p'' ''volume'' ''create'')
       (k_start no_pods) = ((False, Some (FromContextError CtxDeadlineExceeded)), t) \<and> c_polls t = 0"
  using waitForHelper_ends [of "cluster_kube\<lparr>k_getPod := (\<lambda>_ _ w. (Inr (Some pod_x), w))\<rparr>" "''ns''" "''p''" "''volume''" "''create''"
      "k_start no_pods"]
  by (simp add: k_start_def pod_x_def newHelperPod_def helperMetadata_def podTerminal_def PodSucceeded_def PodFailed_def Let_def)

end
