(* ===== verification/Controller.thy ===== *)
theory Controller
  imports Snapshot_Location Helper_Pod
begin

section \<open>The controller service (\<open>controllerserver.go\<close>)\<close>

text \<open>
  The handlers of the controller decide on which node and in which volume group a volume or a
  snapshot lives, and run a helper pod there.  The clients for Kubernetes and for snapshots are the
  parameter \<open>K\<close> of theory \<open>Kube\<close>; the rest of the server's struct is a record.  A handler that
  returns a response or an error is a state-passing program with a sum as its result.
\<close>

subsection \<open>Messages and the server\<close>

datatype controller_rpc =
    RPC_UNKNOWN | RPC_CREATE_DELETE_VOLUME | RPC_PUBLISH_UNPUBLISH_VOLUME | RPC_LIST_VOLUMES | RPC_GET_CAPACITY
  | RPC_CREATE_DELETE_SNAPSHOT | RPC_LIST_SNAPSHOTS | RPC_CLONE_VOLUME | RPC_PUBLISH_READONLY | RPC_EXPAND_VOLUME
  | RPC_LIST_VOLUMES_PUBLISHED_NODES | RPC_VOLUME_CONDITION | RPC_GET_VOLUME | RPC_SINGLE_NODE_MULTI_WRITER
  | RPC_MODIFY_VOLUME

fun rpc_name :: "controller_rpc \<Rightarrow> string" where
  "rpc_name RPC_UNKNOWN = ''UNKNOWN''"
| "rpc_name RPC_CREATE_DELETE_VOLUME = ''CREATE_DELETE_VOLUME''"
| "rpc_name RPC_PUBLISH_UNPUBLISH_VOLUME = ''PUBLISH_UNPUBLISH_VOLUME''"
| "rpc_name RPC_LIST_VOLUMES = ''LIST_VOLUMES''"
| "rpc_name RPC_GET_CAPACITY = ''GET_CAPACITY''"
| "rpc_name RPC_CREATE_DELETE_SNAPSHOT = ''CREATE_DELETE_SNAPSHOT''"
| "rpc_name RPC_LIST_SNAPSHOTS = ''LIST_SNAPSHOTS''"
| "rpc_name RPC_CLONE_VOLUME = ''CLONE_VOLUME''"
| "rpc_name RPC_PUBLISH_READONLY = ''PUBLISH_READONLY''"
| "rpc_name RPC_EXPAND_VOLUME = ''EXPAND_VOLUME''"
| "rpc_name RPC_LIST_VOLUMES_PUBLISHED_NODES = ''LIST_VOLUMES_PUBLISHED_NODES''"
| "rpc_name RPC_VOLUME_CONDITION = ''VOLUME_CONDITION''"
| "rpc_name RPC_GET_VOLUME = ''GET_VOLUME''"
| "rpc_name RPC_SINGLE_NODE_MULTI_WRITER = ''SINGLE_NODE_MULTI_WRITER''"
| "rpc_name RPC_MODIFY_VOLUME = ''MODIFY_VOLUME''"

record controller_capability =
  rpc_type :: controller_rpc

text \<open>
  A content source whose \<open>Type\<close> is neither of the two kinds has \<open>None\<close>; the identifiers are those
  the nil-safe getters return.
\<close>

datatype content_kind = SnapshotSource string | VolumeSource string

record content_source =
  vcs_type :: "content_kind option"

record create_volume_request =
  cv_name :: string
  cv_capabilities :: "volume_capability option list"
  cv_parameters :: strmap
  cv_range :: "capacity_range option"
  cv_source :: "content_source option"
  cv_topology :: "topology_requirement option"

record csi_volume =
  vol_id :: string
  vol_capacity :: int
  vol_context :: strmap
  vol_source :: "content_source option"
  vol_topology :: "topology list"

record csi_snapshot =
  sn_id :: string
  sn_sourceVolume :: string
  sn_size :: int
  sn_creationTime :: int
  sn_ready :: bool

record validate_request =
  vr_volumeId :: string
  vr_capabilities :: "volume_capability option list"
  vr_context :: strmap
  vr_parameters :: strmap

datatype validate_response = Unconfirmed goerr | Confirmed strmap "volume_capability option list" strmap

record controllerServer =
  srv_caps :: "controller_capability list"
  srv_nodeID :: string
  srv_hostWritePath :: string
  srv_provisionerImage :: string
  srv_pullPolicy :: string
  srv_namespace :: string
  srv_helperConfig :: HelperConfig

definition snapshotNodeAnnotation :: string where "snapshotNodeAnnotation = ''lvm.driver.harvesterhci.io/nodeName''"
definition snapshotVGAnnotation :: string where "snapshotVGAnnotation = ''lvm.driver.harvesterhci.io/vgName''"

definition getControllerServiceCapabilities :: "controller_rpc list \<Rightarrow> controller_capability list" where
  "getControllerServiceCapabilities cl = map (\<lambda>c. \<lparr>rpc_type = c\<rparr>) cl"

text \<open>
  The three constructors of clients are code of the Kubernetes libraries: their errors are the
  first three arguments.
\<close>

definition newControllerServer ::
  "check \<Rightarrow> check \<Rightarrow> check \<Rightarrow> string \<Rightarrow> string \<Rightarrow> string \<Rightarrow> string \<Rightarrow> string \<Rightarrow> HelperConfig \<Rightarrow> controllerServer res" where
  "newControllerServer inClusterConfig newKubeClient newSnapClient nodeID hostWritePath namespace provisionerImage
     pullPolicy helperConfig =
     (case inClusterConfig of Some e \<Rightarrow> Inl e | None \<Rightarrow>
      case newKubeClient of Some e \<Rightarrow> Inl e | None \<Rightarrow>
      case newSnapClient of Some e \<Rightarrow> Inl e | None \<Rightarrow>
        Inr \<lparr>srv_caps = getControllerServiceCapabilities
                 [RPC_CREATE_DELETE_VOLUME, RPC_CREATE_DELETE_SNAPSHOT, RPC_CLONE_VOLUME],
             srv_nodeID = nodeID, srv_hostWritePath = hostWritePath, srv_provisionerImage = provisionerImage,
             srv_pullPolicy = pullPolicy, srv_namespace = namespace, srv_helperConfig = helperConfig\<rparr>)"

definition validateControllerServiceRequest :: "controllerServer \<Rightarrow> controller_rpc \<Rightarrow> check" where
  "validateControllerServiceRequest cs c =
     (if c = RPC_UNKNOWN then None
      else if \<exists>p \<in> set (srv_caps cs). c = rpc_type p then None
      else Some (Status InvalidArgument (Errorf ''unsupported capability %s'' [rpc_name c] None)))"

definition ControllerGetCapabilities :: "controllerServer \<Rightarrow> controller_capability list" where
  "ControllerGetCapabilities cs = srv_caps cs"

definition ValidateVolumeCapabilities :: "validate_request \<Rightarrow> validate_response res" where
  "ValidateVolumeCapabilities req =
     (if vr_volumeId req = '''' then Inl (Status InvalidArgument (msg ''Volume ID cannot be empty''))
      else if vr_capabilities req = [] then Inl (Status InvalidArgument (msg (vr_volumeId req)))
      else case validateVolumeCapabilities (vr_capabilities req) of
             Some err \<Rightarrow> Inr (Unconfirmed err)
           | None \<Rightarrow> Inr (Confirmed (vr_context req) (vr_capabilities req) (vr_parameters req)))"

subsection \<open>Actions\<close>

definition newCreateVolumeAction ::
  "controllerServer \<Rightarrow> string \<Rightarrow> string \<Rightarrow> string \<Rightarrow> string \<Rightarrow> int \<Rightarrow> volumeAction" where
  "newCreateVolumeAction cs name node lvmType vgName sz = \<lparr>
     va_action = actionTypeCreate, va_name = name, va_nodeName = node, va_size = sz, va_lvmType = lvmType,
     va_provisionerImage = srv_provisionerImage cs, va_pullPolicy = srv_pullPolicy cs,
     va_namespace = srv_namespace cs, va_vgName = vgName, va_hostWritePath = srv_hostWritePath cs,
     va_srcInfo = None, va_helperConfig = srv_helperConfig cs\<rparr>"

definition newDeleteVolumeAction ::
  "controllerServer \<Rightarrow> string \<Rightarrow> string \<Rightarrow> string \<Rightarrow> string \<Rightarrow> volumeAction" where
  "newDeleteVolumeAction cs volumeID nodeName vgName lvmType = \<lparr>
     va_action = actionTypeDelete, va_name = volumeID, va_nodeName = nodeName, va_size = 0, va_lvmType = '''',
     va_provisionerImage = srv_provisionerImage cs, va_pullPolicy = srv_pullPolicy cs,
     va_namespace = srv_namespace cs, va_vgName = vgName, va_hostWritePath = srv_hostWritePath cs,
     va_srcInfo = Some \<lparr>srcLVName = volumeID, srcVGName = vgName, srcType = lvmType\<rparr>,
     va_helperConfig = srv_helperConfig cs\<rparr>"

definition newCloneVolumeAction ::
  "controllerServer \<Rightarrow> srcInfo option \<Rightarrow> string \<Rightarrow> string \<Rightarrow> string \<Rightarrow> string \<Rightarrow> string \<Rightarrow> int \<Rightarrow> int \<Rightarrow> volumeAction res" where
  "newCloneVolumeAction cs source srcNode dstName dstNode dstLVType dstVGName srcSize dstSize =
     (case source of
        None \<Rightarrow> Inl (Status FailedPrecondition (msg ''clone source is nil''))
      | Some src \<Rightarrow>
          if srcSize > dstSize then
            Inl (Status InvalidArgument
              (Errorf ''source/snapshot volume size(%v) is larger than destination volume size(%v)''
                 [show_int srcSize, show_int dstSize] None))
          else if srcNode \<noteq> dstNode then
            Inl (Status InvalidArgument
              (Errorf ''source node %q and destination node %q are different (not supported)'' [srcNode, dstNode] None))
          else Inr \<lparr>
            va_action = actionTypeClone, va_name = dstName, va_nodeName = dstNode, va_size = dstSize,
            va_lvmType = dstLVType, va_provisionerImage = srv_provisionerImage cs, va_pullPolicy = srv_pullPolicy cs,
            va_namespace = srv_namespace cs, va_vgName = dstVGName, va_hostWritePath = srv_hostWritePath cs,
            va_srcInfo = Some src, va_helperConfig = srv_helperConfig cs\<rparr>)"

definition generateVolumeActionForClone ::
  "controllerServer \<Rightarrow> persistent_volume option \<Rightarrow> string \<Rightarrow> string \<Rightarrow> string \<Rightarrow> string \<Rightarrow> string \<Rightarrow> int \<Rightarrow> int \<Rightarrow> volumeAction res" where
  "generateVolumeActionForClone cs srcVol lvName dstName dstNode dstLVType dstVGName srcSize dstSize =
     (case metadataFromPV srcVol of
        Inl e \<Rightarrow> Inl (Status FailedPrecondition e)
      | Inr (srcNode, vg, lvmType) \<Rightarrow>
          newCloneVolumeAction cs (Some \<lparr>srcLVName = lvName, srcVGName = vg, srcType = lvmType\<rparr>)
            srcNode dstName dstNode dstLVType dstVGName srcSize dstSize)"

definition newCreateSnapshotAction ::
  "controllerServer \<Rightarrow> string \<Rightarrow> string \<Rightarrow> string \<Rightarrow> string \<Rightarrow> string \<Rightarrow> int \<Rightarrow> snapshotAction" where
  "newCreateSnapshotAction cs snapshotName volumeID nodeName vgName lvmType sz = \<lparr>
     sa_action = actionTypeCreate, sa_srcVolName = volumeID, sa_nodeName = nodeName, sa_snapshotName = snapshotName,
     sa_snapSize = sz, sa_provisionerImage = srv_provisionerImage cs, sa_pullPolicy = srv_pullPolicy cs,
     sa_namespace = srv_namespace cs, sa_vgName = vgName, sa_lvType = lvmType,
     sa_hostWritePath = srv_hostWritePath cs, sa_helperConfig = srv_helperConfig cs\<rparr>"

definition newDeleteSnapshotAction :: "controllerServer \<Rightarrow> string \<Rightarrow> string \<Rightarrow> string \<Rightarrow> snapshotAction" where
  "newDeleteSnapshotAction cs snapshotID nodeName vgName = \<lparr>
     sa_action = actionTypeDelete, sa_srcVolName = '''', sa_nodeName = nodeName, sa_snapshotName = snapshotID,
     sa_snapSize = 0, sa_provisionerImage = srv_provisionerImage cs, sa_pullPolicy = srv_pullPolicy cs,
     sa_namespace = srv_namespace cs, sa_vgName = vgName, sa_lvType = '''',
     sa_hostWritePath = srv_hostWritePath cs, sa_helperConfig = srv_helperConfig cs\<rparr>"

subsection \<open>Where a snapshot is\<close>

definition has_handle :: "string \<Rightarrow> snapshot_content \<Rightarrow> bool" where
  "has_handle snapshotID content \<longleftrightarrow>
     (case sc_status content of None \<Rightarrow> False | Some st \<Rightarrow> st_handle st = Some snapshotID)
     \<or> sc_snapshotHandle content = Some snapshotID"

definition getSnapshotContent :: "'k kube \<Rightarrow> string \<Rightarrow> ('k, snapshot_content option res) kop" where
  "getSnapshotContent K snapshotID = do {
     l \<leftarrow> listContents K;
     State_Monad.return
       (case l of
          Inl e \<Rightarrow> Inl (Status Unavailable (Errorf ''failed to list snapshot contents: %v'' [] (Some (ApiErr e))))
        | Inr items \<Rightarrow> Inr (find (has_handle snapshotID) items))
   }"

definition resolvePreExistingSnapshotLocation ::
  "'k kube \<Rightarrow> controllerServer \<Rightarrow> string \<Rightarrow> snapshot_content \<Rightarrow> ('k, snapshotLocation res) kop" where
  "resolvePreExistingSnapshotLocation K cs snapshotID content =
     (let nodeName = lookup (sc_annotations content) snapshotNodeAnnotation;
          vgName = lookup (sc_annotations content) snapshotVGAnnotation
      in if (nodeName = '''') \<noteq> (vgName = '''') then
           State_Monad.return (Inl (Status FailedPrecondition
             (Errorf ''pre-existing snapshot %q has incomplete location annotations; both %q and %q are required''
                [snapshotID, snapshotNodeAnnotation, snapshotVGAnnotation] None)))
         else if nodeName \<noteq> '''' then
           State_Monad.return
             (case validateVGName vgName of
                Some err \<Rightarrow> Inl (Status FailedPrecondition
                  (Errorf ''pre-existing snapshot %q has an invalid volume group: %v'' [snapshotID] (Some err)))
              | None \<Rightarrow> Inr \<lparr>loc_handle = snapshotID, loc_nodeName = nodeName, loc_vgName = vgName\<rparr>)
         else do {
           r \<leftarrow> lookupSnapshotLocation K (srv_namespace cs) snapshotID;
           State_Monad.return
             (case r of
                Inl err \<Rightarrow> Inl (Status Unavailable
                  (Errorf ''failed to look up location for snapshot %q: %v'' [snapshotID] (Some err)))
              | Inr None \<Rightarrow> Inl (Status FailedPrecondition
                  (Errorf ''pre-existing snapshot %q has no recorded location; add annotations %q and %q''
                     [snapshotID, snapshotNodeAnnotation, snapshotVGAnnotation] None))
              | Inr (Some (node, vg)) \<Rightarrow> Inr \<lparr>loc_handle = snapshotID, loc_nodeName = node, loc_vgName = vg\<rparr>)
         })"

definition pvLocation :: "'k kube \<Rightarrow> string \<Rightarrow> string \<Rightarrow> ('k, snapshotLocation res) kop" where
  "pvLocation K snapshotID volumeID = do {
     r \<leftarrow> getPV K volumeID;
     State_Monad.return
       (case r of
          Inl e \<Rightarrow>
            if e = ApiNotFound then Inl (ApiErr e)
            else Inl (Status Unavailable (Errorf ''failed to get source volume %q: %v'' [volumeID] (Some (ApiErr e))))
        | Inr volume \<Rightarrow>
            (case metadataFromPV volume of
               Inl err \<Rightarrow> Inl err
             | Inr (nodeName, vgName, _) \<Rightarrow> Inr \<lparr>loc_handle = snapshotID, loc_nodeName = nodeName, loc_vgName = vgName\<rparr>))
   }"

definition recordedLocation :: "'k kube \<Rightarrow> controllerServer \<Rightarrow> string \<Rightarrow> ('k, snapshotLocation option res) kop" where
  "recordedLocation K cs snapshotID = do {
     r \<leftarrow> lookupSnapshotLocation K (srv_namespace cs) snapshotID;
     State_Monad.return
       (case r of
          Inl err \<Rightarrow> Inl (Status Unavailable
            (Errorf ''failed to look up recorded location for snapshot %q: %v'' [snapshotID] (Some err)))
        | Inr None \<Rightarrow> Inr None
        | Inr (Some (node, vg)) \<Rightarrow> Inr (Some \<lparr>loc_handle = snapshotID, loc_nodeName = node, loc_vgName = vg\<rparr>))
   }"

definition dynamicSnapshotLocation ::
  "'k kube \<Rightarrow> controllerServer \<Rightarrow> string \<Rightarrow> string \<Rightarrow> ('k, snapshotLocation option res) kop" where
  "dynamicSnapshotLocation K cs snapshotID volumeID = do {
     p \<leftarrow> pvLocation K snapshotID volumeID;
     (case p of
        Inr location \<Rightarrow> State_Monad.return (Inr (Some location))
      | Inl pvErr \<Rightarrow>
          if status_code pvErr = Unavailable then State_Monad.return (Inl pvErr)
          else do {
            r \<leftarrow> recordedLocation K cs snapshotID;
            State_Monad.return
              (case r of
                 Inl err \<Rightarrow> Inl err
               | Inr (Some location) \<Rightarrow> Inr (Some location)
               | Inr None \<Rightarrow>
                   if is_not_found pvErr then Inr None
                   else Inl (Status FailedPrecondition
                          (Errorf ''%v; snapshot %q has no recorded location'' [snapshotID] (Some pvErr))))
          })
   }"

subsection \<open>Clones\<close>

text \<open>\<open>createVolumeHelper\<close> for an action that may have failed to be built.\<close>

definition run_action :: "'k kube \<Rightarrow> volumeAction res \<Rightarrow> ('k, check) kop" where
  "run_action K va =
     (case va of
        Inl err \<Rightarrow> State_Monad.return (Some err)
      | Inr action \<Rightarrow> createVolumeHelper K action)"

definition cloneFromDynamicSnapshot ::
  "'k kube \<Rightarrow> controllerServer \<Rightarrow> snapshot_content option \<Rightarrow> string \<Rightarrow> string \<Rightarrow> string \<Rightarrow> string \<Rightarrow> int \<Rightarrow> ('k, check) kop" where
  "cloneFromDynamicSnapshot K cs snapContent dstName dstNode dstLVType dstVGName dstSize =
     (case metadataFromSnapshotContent snapContent of
        Inl err \<Rightarrow> State_Monad.return (Some (Status FailedPrecondition err))
      | Inr (sourceVolumeID, snapshotID, restoreSize) \<Rightarrow> do {
          r \<leftarrow> getPV K sourceVolumeID;
          (case r of
             Inl e \<Rightarrow>
               State_Monad.return (Some
                 (if e = ApiNotFound then
                    Status NotFound (Errorf ''source volume %q not found'' [sourceVolumeID] None)
                  else Status Unavailable
                    (Errorf ''failed to get source volume %q: %v'' [sourceVolumeID] (Some (ApiErr e)))))
           | Inr srcVol \<Rightarrow>
               let snapshotLVName = ''lvm-'' @ snapshotID
               in run_action K (generateVolumeActionForClone cs srcVol snapshotLVName dstName dstNode dstLVType
                    dstVGName restoreSize dstSize))
        })"

definition preProvisionedSnapshotCloneAction ::
  "'k kube \<Rightarrow> controllerServer \<Rightarrow> snapshot_content option \<Rightarrow> string \<Rightarrow> string \<Rightarrow> string \<Rightarrow> string \<Rightarrow> int
    \<Rightarrow> ('k, volumeAction res) kop" where
  "preProvisionedSnapshotCloneAction K cs snapContent dstName dstNode dstLVType dstVGName dstSize =
     (case preProvisionedSnapshotMetadata snapContent of
        Inl err \<Rightarrow> State_Monad.return (Inl (Status FailedPrecondition err))
      | Inr (snapshotID, restoreSize) \<Rightarrow> do {
          l \<leftarrow> resolvePreExistingSnapshotLocation K cs snapshotID (the snapContent);
          State_Monad.return
            (case l of
               Inl err \<Rightarrow> Inl err
             | Inr location \<Rightarrow>
                 let restoreSize = (if restoreSize = 0 then dstSize else restoreSize);
                     source = \<lparr>srcLVName = ''lvm-'' @ snapshotID, srcVGName = loc_vgName location, srcType = dstLVType\<rparr>
                 in newCloneVolumeAction cs (Some source) (loc_nodeName location) dstName dstNode dstLVType dstVGName
                      restoreSize dstSize)
        })"

definition cloneFromPreProvisionedSnapshot ::
  "'k kube \<Rightarrow> controllerServer \<Rightarrow> snapshot_content option \<Rightarrow> string \<Rightarrow> string \<Rightarrow> string \<Rightarrow> string \<Rightarrow> int \<Rightarrow> ('k, check) kop" where
  "cloneFromPreProvisionedSnapshot K cs snapContent dstName dstNode dstLVType dstVGName dstSize = do {
     a \<leftarrow> preProvisionedSnapshotCloneAction K cs snapContent dstName dstNode dstLVType dstVGName dstSize;
     run_action K a
   }"

definition cloneFromSnapshot ::
  "'k kube \<Rightarrow> controllerServer \<Rightarrow> snapshot_content option \<Rightarrow> string \<Rightarrow> string \<Rightarrow> string \<Rightarrow> string \<Rightarrow> int \<Rightarrow> ('k, check) kop" where
  "cloneFromSnapshot K cs snapContent dstName dstNode dstLVType dstVGName dstSize =
     (case snapContent of
        None \<Rightarrow> State_Monad.return (Some (Status FailedPrecondition (msg ''snapshot content is nil'')))
      | Some content \<Rightarrow>
          if sc_volumeHandle content = None then
            cloneFromPreProvisionedSnapshot K cs snapContent dstName dstNode dstLVType dstVGName dstSize
          else cloneFromDynamicSnapshot K cs snapContent dstName dstNode dstLVType dstVGName dstSize)"

definition cloneFromVolume ::
  "'k kube \<Rightarrow> controllerServer \<Rightarrow> persistent_volume option \<Rightarrow> string \<Rightarrow> string \<Rightarrow> string \<Rightarrow> string \<Rightarrow> int \<Rightarrow> ('k, check) kop" where
  "cloneFromVolume K cs srcVol dstName dstNode dstLVType dstVGName dstSize =
     (case requiredBytesFromPersistentVolume srcVol of
        Inl err \<Rightarrow> State_Monad.return (Some (Status FailedPrecondition err))
      | Inr srcSize \<Rightarrow>
          let lvName = pv_name (the srcVol)
          in run_action K (generateVolumeActionForClone cs srcVol lvName dstName dstNode dstLVType dstVGName srcSize dstSize))"

definition cloneFromSnapshotSource ::
  "'k kube \<Rightarrow> controllerServer \<Rightarrow> string \<Rightarrow> string \<Rightarrow> string \<Rightarrow> string \<Rightarrow> string \<Rightarrow> int \<Rightarrow> ('k, check) kop" where
  "cloneFromSnapshotSource K cs snapshotID dstName dstNode dstLVMType dstVGName dstSize =
     (if snapshotID = '''' then State_Monad.return (Some (Status InvalidArgument (msg ''source snapshot ID is empty'')))
      else do {
        c \<leftarrow> getSnapshotContent K snapshotID;
        (case c of
           Inl err \<Rightarrow> State_Monad.return (Some err)
         | Inr None \<Rightarrow>
             State_Monad.return (Some (Status NotFound (Errorf ''source snapshot %q not found'' [snapshotID] None)))
         | Inr (Some content) \<Rightarrow>
             cloneFromSnapshot K cs (Some content) dstName dstNode dstLVMType dstVGName dstSize)
      })"

definition cloneFromVolumeSource ::
  "'k kube \<Rightarrow> controllerServer \<Rightarrow> string \<Rightarrow> string \<Rightarrow> string \<Rightarrow> string \<Rightarrow> string \<Rightarrow> int \<Rightarrow> ('k, check) kop" where
  "cloneFromVolumeSource K cs volumeID dstName dstNode dstLVMType dstVGName dstSize =
     (if volumeID = '''' then State_Monad.return (Some (Status InvalidArgument (msg ''source volume ID is empty'')))
      else do {
        r \<leftarrow> getPV K volumeID;
        (case r of
           Inl e \<Rightarrow>
             State_Monad.return (Some
               (if e = ApiNotFound then Status NotFound (Errorf ''source volume %q not found'' [volumeID] None)
                else Status Unavailable (Errorf ''failed to get source volume %q: %v'' [volumeID] (Some (ApiErr e)))))
         | Inr volume \<Rightarrow> cloneFromVolume K cs volume dstName dstNode dstLVMType dstVGName dstSize)
      })"

definition cloneFromContentSource ::
  "'k kube \<Rightarrow> controllerServer \<Rightarrow> content_source option \<Rightarrow> string \<Rightarrow> string \<Rightarrow> string \<Rightarrow> string \<Rightarrow> int \<Rightarrow> ('k, check) kop" where
  "cloneFromContentSource K cs source dstName dstNode dstLVMType dstVGName dstSize =
     (case source of
        None \<Rightarrow> State_Monad.return (Some (Status InvalidArgument (msg ''volume content source is nil'')))
      | Some src \<Rightarrow>
          (case vcs_type src of
             Some (SnapshotSource snapshotID) \<Rightarrow>
               cloneFromSnapshotSource K cs snapshotID dstName dstNode dstLVMType dstVGName dstSize
           | Some (VolumeSource volumeID) \<Rightarrow>
               cloneFromVolumeSource K cs volumeID dstName dstNode dstLVMType dstVGName dstSize
           | None \<Rightarrow> State_Monad.return (Some (Status InvalidArgument (msg ''%v not a proper volume source'')))))"

subsection \<open>Volumes\<close>

definition provisionVolume ::
  "'k kube \<Rightarrow> controllerServer \<Rightarrow> create_volume_request \<Rightarrow> string \<Rightarrow> string \<Rightarrow> string \<Rightarrow> int \<Rightarrow> ('k, check) kop" where
  "provisionVolume K cs req node lvmType vgName requiredBytes =
     (if cv_source req \<noteq> None then
        cloneFromContentSource K cs (cv_source req) (cv_name req) node lvmType vgName requiredBytes
      else createVolumeHelper K (newCreateVolumeAction cs (cv_name req) node lvmType vgName requiredBytes))"

definition CreateVolume :: "'k kube \<Rightarrow> controllerServer \<Rightarrow> create_volume_request \<Rightarrow> ('k, csi_volume res) kop" where
  "CreateVolume K cs req =
     (case validateControllerServiceRequest cs RPC_CREATE_DELETE_VOLUME of
        Some err \<Rightarrow> State_Monad.return (Inl err)
      | None \<Rightarrow>
      if cv_name req = '''' then State_Monad.return (Inl (Status InvalidArgument (msg ''Name missing in request'')))
      else case validateVolumeCapabilities (cv_capabilities req) of
        Some err \<Rightarrow> State_Monad.return (Inl (Status InvalidArgument err))
      | None \<Rightarrow>
      case parseLVMParameters (cv_parameters req) of
        Inl err \<Rightarrow> State_Monad.return (Inl (Status InvalidArgument err))
      | Inr (lvmType, vgName) \<Rightarrow>
      case validateCapacityRange (cv_range req) of
        Inl err \<Rightarrow> State_Monad.return (Inl (Status InvalidArgument err))
      | Inr requiredBytes \<Rightarrow>
      let volumeContext = buildVolumeContext (cv_parameters req) requiredBytes in
      case topologyFromAccessibility (cv_topology req) of
        Inl err \<Rightarrow> State_Monad.return (Inl (Status InvalidArgument err))
      | Inr (node, topology) \<Rightarrow> do {
          err \<leftarrow> provisionVolume K cs req node lvmType vgName requiredBytes;
          State_Monad.return
            (case err of
               Some e \<Rightarrow> Inl e
             | None \<Rightarrow> Inr \<lparr>vol_id = cv_name req, vol_capacity = requiredBytes, vol_context = volumeContext,
                             vol_source = cv_source req, vol_topology = topology\<rparr>)
        })"

text \<open>\<open>Inr None\<close> is the nil volume of a volume that is already absent.\<close>

definition persistentVolumeForDeletion :: "'k kube \<Rightarrow> string \<Rightarrow> ('k, persistent_volume option res) kop" where
  "persistentVolumeForDeletion K volumeID = do {
     r \<leftarrow> getPV K volumeID;
     State_Monad.return
       (case r of
          Inl e \<Rightarrow>
            if e = ApiNotFound then Inr None
            else Inl (Status Unavailable (Errorf ''failed to get volume %q: %v'' [volumeID] (Some (ApiErr e))))
        | Inr volume \<Rightarrow> Inr volume)
   }"

definition nodeAvailableForDeletion :: "'k kube \<Rightarrow> string \<Rightarrow> string \<Rightarrow> ('k, bool res) kop" where
  "nodeAvailableForDeletion K nodeName volumeID = do {
     r \<leftarrow> getNode K nodeName;
     State_Monad.return
       (case r of
          Some e \<Rightarrow>
            if e = ApiNotFound then Inr False
            else Inl (Status Unavailable (Errorf ''failed to get node %q: %v'' [nodeName] (Some (ApiErr e))))
        | None \<Rightarrow> Inr True)
   }"

definition DeleteVolume :: "'k kube \<Rightarrow> controllerServer \<Rightarrow> string \<Rightarrow> ('k, check) kop" where
  "DeleteVolume K cs volID =
     (case validateDeleteVolumeRequest volID of
        Some err \<Rightarrow> State_Monad.return (Some (Status InvalidArgument err))
      | None \<Rightarrow>
      case validateControllerServiceRequest cs RPC_CREATE_DELETE_VOLUME of
        Some err \<Rightarrow> State_Monad.return (Some err)
      | None \<Rightarrow> do {
          v \<leftarrow> persistentVolumeForDeletion K volID;
          (case v of
             Inl err \<Rightarrow> State_Monad.return (Some err)
           | Inr None \<Rightarrow> State_Monad.return None
           | Inr (Some volume) \<Rightarrow>
               (case metadataFromPV (Some volume) of
                  Inl err \<Rightarrow> State_Monad.return (Some (Status FailedPrecondition err))
                | Inr (nodeName, vgName, lvmType) \<Rightarrow> do {
                    a \<leftarrow> nodeAvailableForDeletion K nodeName volID;
                    (case a of
                       Inl err \<Rightarrow> State_Monad.return (Some err)
                     | Inr False \<Rightarrow> State_Monad.return None
                     | Inr True \<Rightarrow> createVolumeHelper K (newDeleteVolumeAction cs volID nodeName vgName lvmType))
                  }))
        })"

subsection \<open>Snapshots\<close>

definition newCreateSnapshotResponse :: "string \<Rightarrow> string \<Rightarrow> int \<Rightarrow> int \<Rightarrow> csi_snapshot" where
  "newCreateSnapshotResponse snapshotName volumeID sz now = \<lparr>
     sn_id = snapshotName, sn_sourceVolume = volumeID, sn_size = sz, sn_creationTime = now, sn_ready = True\<rparr>"

definition CreateSnapshot_handler ::
  "'k kube \<Rightarrow> controllerServer \<Rightarrow> create_snapshot_request \<Rightarrow> ('k, csi_snapshot res) kop" where
  "CreateSnapshot_handler K cs req =
     (case validateCreateSnapshotRequest req of
        Inl err \<Rightarrow> State_Monad.return (Inl (Status InvalidArgument err))
      | Inr (snapshotName, volumeID) \<Rightarrow> do {
          r \<leftarrow> getPV K volumeID;
          (case r of
             Inl e \<Rightarrow>
               State_Monad.return (Inl
                 (if e = ApiNotFound then Status NotFound (Errorf ''source volume %q not found'' [volumeID] None)
                  else Status Unavailable (Errorf ''failed to get source volume %q: %v'' [volumeID] (Some (ApiErr e)))))
           | Inr volume \<Rightarrow>
               (case metadataFromPV volume of
                  Inl err \<Rightarrow> State_Monad.return (Inl (Status FailedPrecondition err))
                | Inr (nodeName, vgName, lvmType) \<Rightarrow>
                    (case requiredBytesFromPersistentVolume volume of
                       Inl err \<Rightarrow> State_Monad.return (Inl (Status FailedPrecondition err))
                     | Inr snapSize \<Rightarrow> do {
                         l \<leftarrow> recordSnapshotLocation K (srv_namespace cs) snapshotName nodeName vgName;
                         (case l of
                            Some err \<Rightarrow> State_Monad.return (Inl err)
                          | None \<Rightarrow> do {
                              h \<leftarrow> createSnapshotHelper K
                                     (newCreateSnapshotAction cs snapshotName volumeID nodeName vgName lvmType snapSize);
                              (case h of
                                 Some err \<Rightarrow> State_Monad.return (Inl err)
                               | None \<Rightarrow> do {
                                   now \<leftarrow> k_ask (k_now K);
                                   State_Monad.return (Inr (newCreateSnapshotResponse snapshotName volumeID snapSize now))
                                 })
                            })
                       })))
        })"

text \<open>\<open>Inr None\<close> is the nil action: nothing is left to delete.\<close>

definition deletePreExistingSnapshotAction ::
  "'k kube \<Rightarrow> controllerServer \<Rightarrow> string \<Rightarrow> snapshot_content \<Rightarrow> ('k, snapshotAction option res) kop" where
  "deletePreExistingSnapshotAction K cs snapshotID content =
     (if sc_snapshotHandle content = None \<or> sc_snapshotHandle content = Some '''' then
        State_Monad.return (Inl (Status FailedPrecondition
          (Errorf ''snapshot content %q has no source handle'' [sc_name content] None)))
      else do {
        l \<leftarrow> resolvePreExistingSnapshotLocation K cs snapshotID content;
        State_Monad.return
          (case l of
             Inl err \<Rightarrow> Inl err
           | Inr location \<Rightarrow>
               Inr (Some (newDeleteSnapshotAction cs snapshotID (loc_nodeName location) (loc_vgName location))))
      })"

definition deleteDynamicSnapshotAction ::
  "'k kube \<Rightarrow> controllerServer \<Rightarrow> string \<Rightarrow> string \<Rightarrow> ('k, snapshotAction option res) kop" where
  "deleteDynamicSnapshotAction K cs snapshotID volumeID =
     (if volumeID = '''' then
        State_Monad.return (Inl (Status FailedPrecondition
          (Errorf ''snapshot %q has an empty source volume handle'' [snapshotID] None)))
      else do {
        l \<leftarrow> dynamicSnapshotLocation K cs snapshotID volumeID;
        State_Monad.return
          (case l of
             Inl err \<Rightarrow> Inl err
           | Inr None \<Rightarrow> Inr None
           | Inr (Some location) \<Rightarrow>
               Inr (Some (newDeleteSnapshotAction cs snapshotID (loc_nodeName location) (loc_vgName location))))
      })"

definition deleteSnapshotAction ::
  "'k kube \<Rightarrow> controllerServer \<Rightarrow> string \<Rightarrow> snapshot_content option \<Rightarrow> ('k, snapshotAction option res) kop" where
  "deleteSnapshotAction K cs snapshotID content =
     (case content of
        None \<Rightarrow> State_Monad.return (Inl (Status FailedPrecondition (msg ''snapshot content is nil'')))
      | Some c \<Rightarrow>
          (case sc_volumeHandle c of
             None \<Rightarrow> deletePreExistingSnapshotAction K cs snapshotID c
           | Some volumeID \<Rightarrow> deleteDynamicSnapshotAction K cs snapshotID volumeID))"

definition DeleteSnapshot_handler :: "'k kube \<Rightarrow> controllerServer \<Rightarrow> string \<Rightarrow> ('k, check) kop" where
  "DeleteSnapshot_handler K cs snapName =
     (if snapName = '''' then
        State_Monad.return (Some (Status InvalidArgument (msg ''snapshot ID missing in request'')))
      else do {
        c \<leftarrow> getSnapshotContent K snapName;
        (case c of
           Inl err \<Rightarrow> State_Monad.return (Some err)
         | Inr None \<Rightarrow> State_Monad.return None
         | Inr (Some content) \<Rightarrow> do {
             a \<leftarrow> deleteSnapshotAction K cs snapName (Some content);
             (case a of
                Inl err \<Rightarrow> State_Monad.return (Some err)
              | Inr None \<Rightarrow> State_Monad.return None
              | Inr (Some action) \<Rightarrow> do {
                  h \<leftarrow> createSnapshotHelper K action;
                  (case h of
                     Some err \<Rightarrow> State_Monad.return (Some err)
                   | None \<Rightarrow> do {
                       _ \<leftarrow> forgetSnapshotLocation K (srv_namespace cs) snapName;
                       State_Monad.return None
                     })
                })
           })
      })"

subsection \<open>Calls that are not implemented\<close>

definition unimplemented :: goerr where
  "unimplemented = Status Unimplemented (msg '''')"

definition ControllerPublishVolume :: "unit res" where "ControllerPublishVolume = Inl unimplemented"
definition ControllerUnpublishVolume :: "unit res" where "ControllerUnpublishVolume = Inl unimplemented"
definition GetCapacity :: "unit res" where "GetCapacity = Inl unimplemented"
definition ListVolumes :: "unit res" where "ListVolumes = Inl unimplemented"
definition ListSnapshots :: "unit res" where "ListSnapshots = Inl unimplemented"
definition ControllerExpandVolume :: "unit res" where "ControllerExpandVolume = Inl unimplemented"
definition ControllerGetVolume :: "unit res" where "ControllerGetVolume = Inl unimplemented"
definition ControllerModifyVolume :: "unit res" where "ControllerModifyVolume = Inl unimplemented"

subsection \<open>What the helpers of an action write\<close>

text \<open>
  The writes of the helper of an action: the creation of its pod after an admission, the deletions with
  which \<open>ensureHelper\<close> clears the pod of that name away, and its deletion once it has ended.
\<close>

definition volume_event :: "'k kube \<Rightarrow> volumeAction \<Rightarrow> kevent \<Rightarrow> bool" where
  "volume_event K a ev \<longleftrightarrow> (\<exists>args. volumeHelperArgs a = Inr args
     \<and> helper_event K (va_namespace a) (newHelperPod (volume_helperParams a) args) (MaxActive (va_helperConfig a)) ev)"

definition snapshot_event :: "'k kube \<Rightarrow> snapshotAction \<Rightarrow> kevent \<Rightarrow> bool" where
  "snapshot_event K a ev \<longleftrightarrow> (\<exists>args. snapshotHelperArgs a = Inr args
     \<and> helper_event K (sa_namespace a) (newHelperPod (snapshot_helperParams a) args) (MaxActive (sa_helperConfig a)) ev)"

lemma createVolumeHelper_writes: "keeps (writes (volume_event K a)) (createVolumeHelper K a)"
proof (cases "volumeHelperArgs a")
  case (Inr args)
  have "hp_config (volume_helperParams a) = va_helperConfig a" by (simp add: volume_helperParams_def)
  then show ?thesis using runHelper_writes [of K "va_namespace a" "newHelperPod (volume_helperParams a) args" "volume_helperParams a"] Inr
    by (auto simp: createVolumeHelper_def Let_def volume_event_def intro: keeps_writes_mono)
qed (simp add: createVolumeHelper_def keeps_writes_return)

lemma createSnapshotHelper_writes: "keeps (writes (snapshot_event K a)) (createSnapshotHelper K a)"
proof (cases "snapshotHelperArgs a")
  case (Inr args)
  have "hp_config (snapshot_helperParams a) = sa_helperConfig a" by (simp add: snapshot_helperParams_def)
  then show ?thesis using runHelper_writes [of K "sa_namespace a" "newHelperPod (snapshot_helperParams a) args" "snapshot_helperParams a"] Inr
    by (auto simp: createSnapshotHelper_def Let_def snapshot_event_def intro: keeps_writes_mono)
qed (simp add: createSnapshotHelper_def keeps_writes_return)

lemma newHelperPod_name: "p_name (newHelperPod params args) = helperOperation params @ ''-'' @ hp_name params"
  by (simp add: newHelperPod_def helperMetadata_def Let_def)

lemma volume_event_named:
  "volume_event K a ev \<Longrightarrow> pods_by_name K (va_namespace a) \<Longrightarrow>
     pod_write (va_namespace a) (''lvm-'' @ va_action a @ ''-'' @ va_name a) ev"
  by (auto simp: volume_event_def newHelperPod_name helperOperation_def volume_helperParams_def dest: helper_event_named)

text \<open>\<open>succeeds_with Q m\<close>: if \<open>m\<close> returns no error, its final state satisfies \<open>Q\<close>.\<close>

definition succeeds_with :: "('k ctl \<Rightarrow> bool) \<Rightarrow> ('k, check) kop \<Rightarrow> bool" where
  "succeeds_with Q m \<longleftrightarrow> (\<forall>s t. run_state m s = (None, t) \<longrightarrow> Q t)"

named_theorems succeeds_intro \<open>what success means\<close>

lemma succeeds_error [succeeds_intro]: "succeeds_with Q (State_Monad.return (Some e))"
  by (simp add: succeeds_with_def)

lemma succeeds_bind [succeeds_intro]: "(\<And>a. succeeds_with Q (f a)) \<Longrightarrow> succeeds_with Q (m \<bind> f)"
  by (auto simp: succeeds_with_def split: prod.splits)

lemma succeeds_cases [succeeds_intro]:
  "(b \<Longrightarrow> succeeds_with Q m) \<Longrightarrow> (\<not> b \<Longrightarrow> succeeds_with Q n) \<Longrightarrow> succeeds_with Q (if b then m else n)"
  "(v = None \<Longrightarrow> succeeds_with Q m) \<Longrightarrow> (\<And>x. v = Some x \<Longrightarrow> succeeds_with Q (f x)) \<Longrightarrow>
     succeeds_with Q (case v of None \<Rightarrow> m | Some x \<Rightarrow> f x)"
  "(\<And>x. r = Inl x \<Longrightarrow> succeeds_with Q (g x)) \<Longrightarrow> (\<And>y. r = Inr y \<Longrightarrow> succeeds_with Q (h y)) \<Longrightarrow>
     succeeds_with Q (case r of Inl x \<Rightarrow> g x | Inr y \<Rightarrow> h y)"
  "(\<And>x y. succeeds_with Q (k x y)) \<Longrightarrow> succeeds_with Q (case p of (x, y) \<Rightarrow> k x y)"
  "(\<And>x. succeeds_with Q (i x)) \<Longrightarrow> (\<And>x. succeeds_with Q (j x)) \<Longrightarrow>
     succeeds_with Q (case c of SnapshotSource x \<Rightarrow> i x | VolumeSource x \<Rightarrow> j x)"
  by (auto split: option.split sum.split prod.split content_kind.split)

text \<open>
  \<open>acts E Q m\<close>: \<open>m\<close> writes only what \<open>E\<close> allows, and if it returns no error, its final state satisfies \<open>Q\<close>.
\<close>

definition acts :: "(kevent \<Rightarrow> bool) \<Rightarrow> ('k ctl \<Rightarrow> bool) \<Rightarrow> ('k, check) kop \<Rightarrow> bool" where
  "acts E Q m \<longleftrightarrow> keeps (writes E) m \<and> succeeds_with Q m"

named_theorems acts_intro \<open>what an operation writes and what its success means\<close>

lemma acts_error [acts_intro]: "acts E Q (State_Monad.return (Some e))"
  by (simp add: acts_def keeps_writes_return succeeds_error)

lemma acts_bind:
  assumes "keeps (writes E) m" and "yields P m" and "\<And>a. P a \<Longrightarrow> acts E Q (f a)"
  shows "acts E Q (m \<bind> f)"
  unfolding acts_def
proof
  show "keeps (writes E) (m \<bind> f)"
    by (rule keeps_writes_bind_yields [OF assms(1,2)]) (use assms(3) in \<open>simp add: acts_def\<close>)
  show "succeeds_with Q (m \<bind> f)"
    using assms(3) yieldsD [OF assms(2)] by (auto simp: succeeds_with_def acts_def split: prod.splits)
qed

lemmas acts_read [acts_intro] = acts_bind [OF keeps_writes_k_read yields_read]

lemma acts_cases [acts_intro]:
  "(b \<Longrightarrow> acts E Q m) \<Longrightarrow> (\<not> b \<Longrightarrow> acts E Q n) \<Longrightarrow> acts E Q (if b then m else n)"
  "(v = None \<Longrightarrow> acts E Q m) \<Longrightarrow> (\<And>x. v = Some x \<Longrightarrow> acts E Q (f x)) \<Longrightarrow>
     acts E Q (case v of None \<Rightarrow> m | Some x \<Rightarrow> f x)"
  "(\<And>x. r = Inl x \<Longrightarrow> acts E Q (g x)) \<Longrightarrow> (\<And>y. r = Inr y \<Longrightarrow> acts E Q (h y)) \<Longrightarrow>
     acts E Q (case r of Inl x \<Rightarrow> g x | Inr y \<Rightarrow> h y)"
  by (auto split: option.split sum.split)

lemma run_action_acts [acts_intro]:
  "(\<And>a. va = Inr a \<Longrightarrow> acts E Q (createVolumeHelper K a)) \<Longrightarrow> acts E Q (run_action K va)"
  by (cases va) (simp_all add: run_action_def acts_error)

text \<open>What the helper of an action and its success establish.\<close>

lemma createVolumeHelper_acts:
  assumes "\<And>ev. volume_event K a ev \<Longrightarrow> E ev" and "succeeds_with Q (createVolumeHelper K a)"
  shows "acts E Q (createVolumeHelper K a)"
  unfolding acts_def using assms(2) keeps_writes_mono [OF createVolumeHelper_writes, of K a E] assms(1) by simp

subsection \<open>Clones\<close>

text \<open>The action of a clone, and what is known of its source from the answers of the API.\<close>

definition clone_of :: "controllerServer \<Rightarrow> srcInfo \<Rightarrow> string \<Rightarrow> string \<Rightarrow> string \<Rightarrow> string \<Rightarrow> int \<Rightarrow> volumeAction" where
  "clone_of cs src name node lvmType vg sz =
     (newCreateVolumeAction cs name node lvmType vg sz)\<lparr>va_action := actionTypeClone, va_srcInfo := Some src\<rparr>"

lemma newCloneVolumeAction_iff:
  "newCloneVolumeAction cs (Some src) srcNode dstName dstNode dstLVType dstVGName srcSize dstSize = Inr a \<longleftrightarrow>
     srcSize \<le> dstSize \<and> srcNode = dstNode \<and> a = clone_of cs src dstName dstNode dstLVType dstVGName dstSize"
  by (auto simp: newCloneVolumeAction_def clone_of_def newCreateVolumeAction_def)

lemma generateVolumeActionForClone_iff:
  "generateVolumeActionForClone cs v lvName dstName dstNode dstLVType dstVGName srcSize dstSize = Inr a \<longleftrightarrow>
     (\<exists>vg lvmType. metadataFromPV v = Inr (dstNode, vg, lvmType) \<and> srcSize \<le> dstSize
        \<and> a = clone_of cs \<lparr>srcLVName = lvName, srcVGName = vg, srcType = lvmType\<rparr> dstName dstNode dstLVType dstVGName dstSize)"
  by (auto simp: generateVolumeActionForClone_def newCloneVolumeAction_iff split: sum.splits prod.splits)

definition located :: "'k kube \<Rightarrow> controllerServer \<Rightarrow> string \<Rightarrow> snapshot_content \<Rightarrow> string \<Rightarrow> string \<Rightarrow> bool" where
  "located K cs h c node vg \<longleftrightarrow>
     (if lookup (sc_annotations c) snapshotNodeAnnotation \<noteq> '''' then
        node = lookup (sc_annotations c) snapshotNodeAnnotation \<and> vg = lookup (sc_annotations c) snapshotVGAnnotation
        \<and> validateVGName vg = None
      else lookup (sc_annotations c) snapshotVGAnnotation = ''''
        \<and> (\<exists>cm. answers (k_getConfigMap K (srv_namespace cs) (snapshotLocationConfigMapName K h)) (Inr cm)
             \<and> snapshotLocationFromConfigMap cm h = Inr \<lparr>loc_handle = h, loc_nodeName = node, loc_vgName = vg\<rparr>))"

definition volume_source :: "'k kube \<Rightarrow> string \<Rightarrow> string \<Rightarrow> int \<Rightarrow> srcInfo \<Rightarrow> bool" where
  "volume_source K volumeID node sz src \<longleftrightarrow>
     (\<exists>v b. answers (k_getPV K volumeID) (Inr (Some v))
        \<and> metadataFromPV (Some v) = Inr (node, srcVGName src, srcType src)
        \<and> requiredBytesFromPersistentVolume (Some v) = Inr b \<and> b \<le> sz \<and> srcLVName src = pv_name v)"

definition snapshot_source :: "'k kube \<Rightarrow> controllerServer \<Rightarrow> string \<Rightarrow> string \<Rightarrow> string \<Rightarrow> int \<Rightarrow> srcInfo \<Rightarrow> bool" where
  "snapshot_source K cs snapshotID lvmType node sz src \<longleftrightarrow>
     (\<exists>items c h b. answers (k_listContents K) (Inr items) \<and> find (has_handle snapshotID) items = Some c
        \<and> srcLVName src = ''lvm-'' @ h
        \<and> (if sc_volumeHandle c \<noteq> None then
             \<exists>volumeID v. metadataFromSnapshotContent (Some c) = Inr (volumeID, h, b) \<and> b \<le> sz
               \<and> answers (k_getPV K volumeID) (Inr v) \<and> metadataFromPV v = Inr (node, srcVGName src, srcType src)
           else preProvisionedSnapshotMetadata (Some c) = Inr (h, b) \<and> (b \<noteq> 0 \<longrightarrow> b \<le> sz)
               \<and> located K cs h c node (srcVGName src) \<and> srcType src = lvmType))"

definition clone_source :: "'k kube \<Rightarrow> controllerServer \<Rightarrow> content_source option \<Rightarrow> string \<Rightarrow> string \<Rightarrow> int \<Rightarrow> srcInfo \<Rightarrow> bool" where
  "clone_source K cs source lvmType node sz src \<longleftrightarrow>
     (case Option.bind source vcs_type of
        Some (SnapshotSource h) \<Rightarrow> h \<noteq> '''' \<and> snapshot_source K cs h lvmType node sz src
      | Some (VolumeSource v) \<Rightarrow> v \<noteq> '''' \<and> volume_source K v node sz src
      | None \<Rightarrow> False)"

lemma snapshotLocationFromConfigMap_eta:
  "snapshotLocationFromConfigMap cm h = Inr l \<Longrightarrow>
     snapshotLocationFromConfigMap cm h = Inr \<lparr>loc_handle = h, loc_nodeName = loc_nodeName l, loc_vgName = loc_vgName l\<rparr>"
  using snapshotLocationFromConfigMap_sound [of cm h l] by auto

lemma lookupSnapshotLocation_yields:
  "yields (\<lambda>r. \<forall>node vg. r = Inr (Some (node, vg)) \<longrightarrow>
       (\<exists>cm. answers (k_getConfigMap K ns (snapshotLocationConfigMapName K h)) (Inr cm)
          \<and> snapshotLocationFromConfigMap cm h = Inr \<lparr>loc_handle = h, loc_nodeName = node, loc_vgName = vg\<rparr>))
     (lookupSnapshotLocation K ns h)"
  unfolding lookupSnapshotLocation_def api_calls
  by (intro yields_intro) (auto split: sum.splits if_splits dest: snapshotLocationFromConfigMap_eta)

lemma lookupSnapshotLocation_writes [kop_intro]: "keeps (writes E) (lookupSnapshotLocation K ns h)"
  unfolding lookupSnapshotLocation_def by (intro kop_intro)

lemma resolve_writes [kop_intro]: "keeps (writes E) (resolvePreExistingSnapshotLocation K cs h c)"
  unfolding resolvePreExistingSnapshotLocation_def Let_def by (intro kop_intro)

lemma resolve_yields:
  "yields (\<lambda>r. \<forall>l. r = Inr l \<longrightarrow> loc_handle l = h \<and> located K cs h c (loc_nodeName l) (loc_vgName l))
     (resolvePreExistingSnapshotLocation K cs h c)"
proof -
  let ?n = "lookup (sc_annotations c) snapshotNodeAnnotation" and ?v = "lookup (sc_annotations c) snapshotVGAnnotation"
  consider "(?n = '''') \<noteq> (?v = '''')" | "?n \<noteq> ''''" "?v \<noteq> ''''" | "?n = ''''" "?v = ''''" by blast
  then show ?thesis
  proof cases
    case 1
    then show ?thesis by (auto simp: resolvePreExistingSnapshotLocation_def Let_def yields_def)
  next
    case 2
    then show ?thesis
      by (auto simp: resolvePreExistingSnapshotLocation_def Let_def yields_def located_def split: option.splits)
  next
    case 3
    then show ?thesis unfolding resolvePreExistingSnapshotLocation_def Let_def
      by (auto intro!: yields_bind [OF lookupSnapshotLocation_yields] yields_return simp: located_def
          split: sum.splits option.splits)
  qed
qed


text \<open>
  What the helper of a clone establishes for every source that the answers of the API allow, the
  clone establishes.
\<close>

lemma cloneFromVolume_acts:
  assumes "answers (k_getPV K volumeID) (Inr v)"
    and act: "\<And>src. volume_source K volumeID node sz src \<Longrightarrow>
      acts E Q (createVolumeHelper K (clone_of cs src name node lvmType vg sz))"
  shows "acts E Q (cloneFromVolume K cs v name node lvmType vg sz)"
proof (cases "requiredBytesFromPersistentVolume v")
  case (Inr b)
  then obtain x where v: "v = Some x" by (auto simp: requiredBytesFromPersistentVolume_def split: option.splits)
  have src: "volume_source K volumeID node sz \<lparr>srcLVName = pv_name x, srcVGName = g, srcType = ty\<rparr>"
    if "metadataFromPV (Some x) = Inr (node, g, ty)" "b \<le> sz" for g ty
    unfolding volume_source_def using assms(1) Inr v that by (intro exI [of _ x] exI [of _ b]) auto
  show ?thesis unfolding cloneFromVolume_def v Inr [unfolded v] sum.case Let_def option.sel
    by (rule run_action_acts) (use src act in \<open>auto simp: generateVolumeActionForClone_iff\<close>)
qed (simp add: cloneFromVolume_def acts_error)

lemma cloneFromDynamicSnapshot_acts:
  assumes "answers (k_listContents K) (Inr items)" and "find (has_handle snapshotID) items = Some c"
    and "sc_volumeHandle c \<noteq> None"
    and act: "\<And>src. snapshot_source K cs snapshotID lvmType node sz src \<Longrightarrow>
      acts E Q (createVolumeHelper K (clone_of cs src name node lvmType vg sz))"
  shows "acts E Q (cloneFromDynamicSnapshot K cs (Some c) name node lvmType vg sz)"
proof (cases "metadataFromSnapshotContent (Some c)")
  case (Inr m)
  obtain volumeID h b where m: "m = (volumeID, h, b)" by (metis prod_cases3)
  have src: "snapshot_source K cs snapshotID lvmType node sz \<lparr>srcLVName = ''lvm-'' @ h, srcVGName = g, srcType = ty\<rparr>"
    if "answers (k_getPV K volumeID) (Inr v)" "metadataFromPV v = Inr (node, g, ty)" "b \<le> sz" for v g ty
    unfolding snapshot_source_def using assms(1-3) Inr m that by (intro exI [of _ items] exI [of _ c] exI [of _ h] exI [of _ b]) auto
  show ?thesis unfolding cloneFromDynamicSnapshot_def Inr m getPV_def sum.case prod.case Let_def
    by (intro acts_intro) (use src act in \<open>auto simp: generateVolumeActionForClone_iff\<close>)
qed (simp add: cloneFromDynamicSnapshot_def acts_error)

lemma cloneFromPreProvisionedSnapshot_acts:
  assumes "answers (k_listContents K) (Inr items)" and "find (has_handle snapshotID) items = Some c"
    and "sc_volumeHandle c = None"
    and act: "\<And>src. snapshot_source K cs snapshotID lvmType node sz src \<Longrightarrow>
      acts E Q (createVolumeHelper K (clone_of cs src name node lvmType vg sz))"
  shows "acts E Q (cloneFromPreProvisionedSnapshot K cs (Some c) name node lvmType vg sz)"
proof -
  let ?m = "preProvisionedSnapshotCloneAction K cs (Some c) name node lvmType vg sz"
  have w: "keeps (writes E) ?m" for E
    unfolding preProvisionedSnapshotCloneAction_def by (intro kop_intro)
  have y: "yields (\<lambda>r. \<forall>a. r = Inr a \<longrightarrow> (\<exists>src. snapshot_source K cs snapshotID lvmType node sz src
      \<and> a = clone_of cs src name node lvmType vg sz)) ?m"
  proof (cases "preProvisionedSnapshotMetadata (Some c)")
    case (Inr m)
    obtain h b where m: "m = (h, b)" by (rule prod.exhaust)
    have src: "snapshot_source K cs snapshotID lvmType node sz \<lparr>srcLVName = ''lvm-'' @ h, srcVGName = g, srcType = lvmType\<rparr>"
      if "located K cs h c node g" "(if b = 0 then sz else b) \<le> sz" for g
      unfolding snapshot_source_def using assms(1-3) Inr m that
      by (intro exI [of _ items] exI [of _ c] exI [of _ h] exI [of _ b]) auto
    show ?thesis unfolding preProvisionedSnapshotCloneAction_def Inr m sum.case prod.case option.sel
    proof (rule yields_bind [OF resolve_yields], rule yields_return, intro allI impI)
      fix r a
      assume r: "\<forall>l. r = Inr l \<longrightarrow> loc_handle l = h \<and> located K cs h c (loc_nodeName l) (loc_vgName l)"
        and a: "(case r of Inl err \<Rightarrow> Inl err | Inr location \<Rightarrow>
            let restoreSize = if b = 0 then sz else b;
                source = \<lparr>srcLVName = ''lvm-'' @ h, srcVGName = loc_vgName location, srcType = lvmType\<rparr>
            in newCloneVolumeAction cs (Some source) (loc_nodeName location) name node lvmType vg restoreSize sz) = Inr a"
      then obtain l where l: "r = Inr l" by (cases r) auto
      with a have "loc_nodeName l = node" "(if b = 0 then sz else b) \<le> sz"
        "a = clone_of cs \<lparr>srcLVName = ''lvm-'' @ h, srcVGName = loc_vgName l, srcType = lvmType\<rparr> name node lvmType vg sz"
        by (simp_all add: newCloneVolumeAction_iff Let_def)
      with r l src [of "loc_vgName l"] show "\<exists>src. snapshot_source K cs snapshotID lvmType node sz src
          \<and> a = clone_of cs src name node lvmType vg sz" by blast
    qed
  qed (simp add: preProvisionedSnapshotCloneAction_def yields_return)
  show ?thesis unfolding cloneFromPreProvisionedSnapshot_def
    by (rule acts_bind [OF w y]) (auto intro!: run_action_acts act)
qed

lemma cloneFromContentSource_acts:
  assumes act: "\<And>src. clone_source K cs source lvmType node sz src \<Longrightarrow>
      acts E Q (createVolumeHelper K (clone_of cs src name node lvmType vg sz))"
  shows "acts E Q (cloneFromContentSource K cs source name node lvmType vg sz)"
proof -
  have vol: "acts E Q (cloneFromVolumeSource K cs v name node lvmType vg sz)" if "Option.bind source vcs_type = Some (VolumeSource v)" for v
    unfolding cloneFromVolumeSource_def getPV_def
    by (intro acts_intro) (use that act in \<open>auto simp: clone_source_def intro!: cloneFromVolume_acts\<close>)
  have snap: "acts E Q (cloneFromSnapshotSource K cs h name node lvmType vg sz)"
    if h: "Option.bind source vcs_type = Some (SnapshotSource h)" for h
  proof (cases "h = ''''")
    case False
    have "acts E Q (cloneFromSnapshot K cs (Some c) name node lvmType vg sz)"
      if "answers (k_listContents K) (Inr items)" "find (has_handle h) items = Some c" for items c
      using False h act cloneFromDynamicSnapshot_acts [OF that, of cs lvmType node sz E Q name vg]
        cloneFromPreProvisionedSnapshot_acts [OF that, of cs lvmType node sz E Q name vg]
      by (simp add: cloneFromSnapshot_def clone_source_def)
    moreover have "yields (\<lambda>r. \<forall>c. r = Inr (Some c) \<longrightarrow> (\<exists>items. answers (k_listContents K) (Inr items)
        \<and> find (has_handle h) items = Some c)) (getSnapshotContent K h)"
      unfolding getSnapshotContent_def listContents_def by (intro yields_intro) (auto split: sum.splits)
    moreover have "keeps (writes E) (getSnapshotContent K h)" unfolding getSnapshotContent_def by (intro kop_intro)
    ultimately show ?thesis unfolding cloneFromSnapshotSource_def if_not_P [OF False]
      by (elim acts_bind [rotated]) (auto intro!: acts_intro)
  qed (simp add: cloneFromSnapshotSource_def acts_error)
  show ?thesis unfolding cloneFromContentSource_def
    using vol snap by (auto simp: acts_error split: option.splits content_kind.splits)
qed

lemma cloneFromContentSource_writes:
  "keeps (writes (\<lambda>ev. \<exists>src. clone_source K cs source lvmType node sz src
      \<and> volume_event K (clone_of cs src name node lvmType vg sz) ev)) (cloneFromContentSource K cs source name node lvmType vg sz)"
  (is "keeps (writes ?E) _")
proof -
  have "acts ?E (\<lambda>_. True) (cloneFromContentSource K cs source name node lvmType vg sz)"
    by (intro cloneFromContentSource_acts createVolumeHelper_acts) (auto simp: succeeds_with_def)
  then show ?thesis by (simp add: acts_def)
qed

lemma cloneFromContentSource_succeeds:
  assumes "\<And>src. clone_source K cs source lvmType node sz src \<Longrightarrow>
      succeeds_with Q (createVolumeHelper K (clone_of cs src name node lvmType vg sz))"
  shows "succeeds_with Q (cloneFromContentSource K cs source name node lvmType vg sz)"
proof -
  have "acts (\<lambda>_. True) Q (cloneFromContentSource K cs source name node lvmType vg sz)"
    by (intro cloneFromContentSource_acts createVolumeHelper_acts assms TrueI)
  then show ?thesis by (simp add: acts_def)
qed

text \<open>
  C15 (clones): whatever the API answers, every write of a cloning belongs to the helper pod of a clone
  on the destination node (its creation after an admission, and deletions of the pod that the API
  answers under its name), and its source was found before: a persistent volume whose metadata put it
  on that very node and whose recorded size is at most the requested one; a snapshot content with the
  handle whose source volume is on that node and whose restore size is at most the requested one; or
  a pre-provisioned snapshot content with the handle, located on that node by its annotations or its
  recorded location, whose restore size, when it gives one, is at most the requested one.  The helper
  is given the volume group and the type that the source's volume records; of a pre-provisioned
  snapshot it is given the located group and, as no type is recorded for it, the type asked for.
\<close>

theorem clone_source_exact:
  "writes (\<lambda>ev. \<exists>src. clone_source K cs source lvmType node sz src
      \<and> volume_event K (clone_of cs src name node lvmType vg sz) ev)
     s (snd (run_state (cloneFromContentSource K cs source name node lvmType vg sz) s))"
  by (rule keepsD' [OF cloneFromContentSource_writes])

subsection \<open>Success of a handler\<close>

text \<open>\<open>helper_done K ns n t\<close>: the helper pod \<open>n\<close> was read as succeeded, and deleting it was the last write.\<close>

definition helper_done :: "'k kube \<Rightarrow> string \<Rightarrow> string \<Rightarrow> 'k ctl \<Rightarrow> bool" where
  "helper_done K ns n t \<longleftrightarrow> (\<exists>u x. seen K ns n u PodSucceeded \<and> c_log t = c_log u @ [KDeletePod ns n None x])"

lemma createVolumeHelper_done:
  "succeeds_with (helper_done K (va_namespace a) (''lvm-'' @ va_action a @ ''-'' @ va_name a)) (createVolumeHelper K a)"
proof -
  have "p_name (newHelperPod (volume_helperParams a) args) = ''lvm-'' @ va_action a @ ''-'' @ va_name a" for args
    by (simp add: newHelperPod_name helperOperation_def volume_helperParams_def)
  then show ?thesis unfolding createVolumeHelper_def Let_def
    by (intro succeeds_intro) (auto simp: succeeds_with_def helper_done_def dest!: runHelper_success)
qed

lemma createSnapshotHelper_done:
  "succeeds_with (helper_done K (sa_namespace a) (''snap-'' @ sa_action a @ ''-'' @ sa_snapshotName a)) (createSnapshotHelper K a)"
proof -
  have "p_name (newHelperPod (snapshot_helperParams a) args) = ''snap-'' @ sa_action a @ ''-'' @ sa_snapshotName a" for args
    by (simp add: newHelperPod_name helperOperation_def snapshot_helperParams_def)
  then show ?thesis unfolding createSnapshotHelper_def Let_def
    by (intro succeeds_intro) (auto simp: succeeds_with_def helper_done_def dest!: runHelper_success)
qed

lemma newCloneVolumeAction_clone_of:
  "newCloneVolumeAction cs x srcNode dstName dstNode dstLVType dstVGName srcSize dstSize = Inr a \<Longrightarrow>
     \<exists>src. a = clone_of cs src dstName dstNode dstLVType dstVGName dstSize"
  by (cases x) (auto simp: newCloneVolumeAction_iff, simp add: newCloneVolumeAction_def)

lemma cloneFromContentSource_done:
  "succeeds_with (helper_done K (srv_namespace cs) (''lvm-clone-'' @ name))
     (cloneFromContentSource K cs source name node lvmType vg sz)"
proof (rule cloneFromContentSource_succeeds)
  fix src
  show "succeeds_with (helper_done K (srv_namespace cs) (''lvm-clone-'' @ name)) (createVolumeHelper K (clone_of cs src name node lvmType vg sz))"
    using createVolumeHelper_done [of K "clone_of cs src name node lvmType vg sz"]
    by (simp add: clone_of_def newCreateVolumeAction_def action_types)
qed


subsection \<open>Creating a volume\<close>

text \<open>The requests that pass validation, with what is read from them.\<close>

definition create_params :: "create_volume_request \<Rightarrow> string \<Rightarrow> string \<Rightarrow> int \<Rightarrow> string \<Rightarrow> bool" where
  "create_params req lvmType vg b node \<longleftrightarrow> cv_name req \<noteq> ''''
     \<and> validateVolumeCapabilities (cv_capabilities req) = None
     \<and> parseLVMParameters (cv_parameters req) = Inr (lvmType, vg)
     \<and> validateCapacityRange (cv_range req) = Inr b
     \<and> nodeFromAccessibility (cv_topology req) = Inr node"

definition create_event :: "'k kube \<Rightarrow> controllerServer \<Rightarrow> create_volume_request \<Rightarrow> kevent \<Rightarrow> bool" where
  "create_event K cs req ev \<longleftrightarrow> (\<exists>lvmType vg b node. create_params req lvmType vg b node \<and>
     (if cv_source req = None then volume_event K (newCreateVolumeAction cs (cv_name req) node lvmType vg b) ev
      else \<exists>src. clone_source K cs (cv_source req) lvmType node b src
             \<and> volume_event K (clone_of cs src (cv_name req) node lvmType vg b) ev))"

lemma create_event_named:
  assumes "create_event K cs req ev" and "pods_by_name K (srv_namespace cs)"
  shows "pod_write (srv_namespace cs) (''lvm-'' @ (if cv_source req = None then ''create'' else ''clone'') @ ''-'' @ cv_name req) ev"
  using assms by (auto simp: create_event_def clone_of_def newCreateVolumeAction_def action_types split: if_splits
      dest!: volume_event_named)

lemma CreateVolume_valid:
  assumes "validateControllerServiceRequest cs RPC_CREATE_DELETE_VOLUME = None" and "create_params req lvmType vg b node"
  shows "CreateVolume K cs req = provisionVolume K cs req node lvmType vg b \<bind> (\<lambda>err. State_Monad.return
     (case err of
        Some e \<Rightarrow> Inl e
      | None \<Rightarrow> Inr \<lparr>vol_id = cv_name req, vol_capacity = b,
                      vol_context = (cv_parameters req)(''RequiredBytes'' \<mapsto> show_int b),
                      vol_source = cv_source req, vol_topology = [[topologyKeyNode \<mapsto> node]]\<rparr>))"
  using assms by (simp add: CreateVolume_def create_params_def topologyFromAccessibility_def buildVolumeContext_def Let_def)

lemma CreateVolume_invalid:
  assumes "validateControllerServiceRequest cs RPC_CREATE_DELETE_VOLUME = None"
    and "\<nexists>lvmType vg b node. create_params req lvmType vg b node"
  shows "\<exists>e. CreateVolume K cs req = State_Monad.return (Inl (Status InvalidArgument e))"
  using assms unfolding create_params_def CreateVolume_def topologyFromAccessibility_def
  by (auto simp: Let_def split: option.splits sum.splits prod.splits)

lemma provisionVolume_writes:
  "create_params req lvmType vg b node \<Longrightarrow>
     keeps (writes (create_event K cs req)) (provisionVolume K cs req node lvmType vg b)"
  unfolding provisionVolume_def
  by (intro keeps_writes_cases keeps_writes_mono [OF cloneFromContentSource_writes]
      keeps_writes_mono [OF createVolumeHelper_writes]) (auto simp: create_event_def, blast)

lemma provisionVolume_done:
  "succeeds_with (helper_done K (srv_namespace cs)
      (''lvm-'' @ (if cv_source req = None then ''create'' else ''clone'') @ ''-'' @ cv_name req))
     (provisionVolume K cs req node lvmType vg b)"
  using cloneFromContentSource_done [of K cs "cv_name req" "cv_source req"]
    createVolumeHelper_done [of K "newCreateVolumeAction cs (cv_name req) node lvmType vg b"]
  by (auto simp: provisionVolume_def newCreateVolumeAction_def action_types)

text \<open>
  C9 (volume creation): an invalid request is answered \<open>InvalidArgument\<close> and nothing is read or
  written.  Every write of a valid one is the creation, after an admission, of the helper pod of this
  volume, on the node, in the volume group, of the type and of the size of the request (and of a
  matching source), or a deletion of the pod that the API answers under the name of that helper pod;
  so with an API that answers pods by their names no other pod is created or deleted.  Success is
  reported only after that pod was read as succeeded, with the identity, capacity, context and
  topology of the request.
\<close>

theorem CreateVolume_correct:
  assumes "run_state (CreateVolume K cs req) s = (r, t)"
    and "validateControllerServiceRequest cs RPC_CREATE_DELETE_VOLUME = None"
  shows "writes (create_event K cs req) s t
    \<and> (pods_by_name K (srv_namespace cs) \<longrightarrow> writes (pod_write (srv_namespace cs)
         (''lvm-'' @ (if cv_source req = None then ''create'' else ''clone'') @ ''-'' @ cv_name req)) s t)
    \<and> ((\<nexists>lvmType vg b node. create_params req lvmType vg b node) \<longrightarrow> t = s \<and> (\<exists>e. r = Inl (Status InvalidArgument e)))
    \<and> (\<forall>v. r = Inr v \<longrightarrow> (\<exists>lvmType vg b node. create_params req lvmType vg b node
         \<and> v = \<lparr>vol_id = cv_name req, vol_capacity = b,
                vol_context = (cv_parameters req)(''RequiredBytes'' \<mapsto> show_int b),
                vol_source = cv_source req, vol_topology = [[topologyKeyNode \<mapsto> node]]\<rparr>
         \<and> helper_done K (srv_namespace cs)
             (''lvm-'' @ (if cv_source req = None then ''create'' else ''clone'') @ ''-'' @ cv_name req) t))"
proof (cases "\<exists>lvmType vg b node. create_params req lvmType vg b node")
  case False
  with CreateVolume_invalid [OF assms(2) False, of K] assms(1) show ?thesis by (auto simp: writes_def)
next
  case True
  then obtain lvmType vg b node where p: "create_params req lvmType vg b node" by blast
  obtain e u where run: "run_state (provisionVolume K cs req node lvmType vg b) s = (e, u)" by (rule prod.exhaust)
  then have u: "t = u" "r = (case e of Some x \<Rightarrow> Inl x | None \<Rightarrow> Inr \<lparr>vol_id = cv_name req, vol_capacity = b,
      vol_context = (cv_parameters req)(''RequiredBytes'' \<mapsto> show_int b),
      vol_source = cv_source req, vol_topology = [[topologyKeyNode \<mapsto> node]]\<rparr>)"
    using assms(1) CreateVolume_valid [OF assms(2) p, of K] by auto
  have "writes (create_event K cs req) s u" using provisionVolume_writes [OF p] run by (rule keepsD)
  moreover have "helper_done K (srv_namespace cs)
      (''lvm-'' @ (if cv_source req = None then ''create'' else ''clone'') @ ''-'' @ cv_name req) u" if "e = None"
    using provisionVolume_done [of K cs req node lvmType vg b] run that by (auto simp: succeeds_with_def)
  moreover have "writes (pod_write (srv_namespace cs)
      (''lvm-'' @ (if cv_source req = None then ''create'' else ''clone'') @ ''-'' @ cv_name req)) s u"
    if "pods_by_name K (srv_namespace cs)"
    by (rule writes_mono [OF calculation(1)]) (rule create_event_named [OF _ that])
  ultimately show ?thesis using True p u by (cases e) auto
qed

subsection \<open>Deleting a volume\<close>

definition delete_event :: "'k kube \<Rightarrow> controllerServer \<Rightarrow> string \<Rightarrow> kevent \<Rightarrow> bool" where
  "delete_event K cs volID ev \<longleftrightarrow> (\<exists>v node vg lvmType.
     answers (k_getPV K volID) (Inr (Some v)) \<and> metadataFromPV (Some v) = Inr (node, vg, lvmType)
     \<and> answers (k_getNode K node) None
     \<and> volume_event K (newDeleteVolumeAction cs volID node vg lvmType) ev)"

lemma delete_event_named:
  "delete_event K cs volID ev \<Longrightarrow> pods_by_name K (srv_namespace cs) \<Longrightarrow> pod_write (srv_namespace cs) (''lvm-delete-'' @ volID) ev"
  by (auto simp: delete_event_def newDeleteVolumeAction_def action_types dest!: volume_event_named)

lemma DeleteVolume_writes: "keeps (writes (delete_event K cs volID)) (DeleteVolume K cs volID)"
proof -
  let ?E = "writes (delete_event K cs volID)"
  have pv: "keeps ?E (persistentVolumeForDeletion K volID)" "yields (\<lambda>r. \<forall>v. r = Inr (Some v) \<longrightarrow>
      answers (k_getPV K volID) (Inr (Some v))) (persistentVolumeForDeletion K volID)"
    unfolding persistentVolumeForDeletion_def
    by (intro kop_intro, unfold getPV_def, intro yields_intro) (auto split: sum.splits if_splits)
  have nd: "keeps ?E (nodeAvailableForDeletion K n volID)" "yields (\<lambda>r. r = Inr True \<longrightarrow> answers (k_getNode K n) None)
      (nodeAvailableForDeletion K n volID)" for n
    unfolding nodeAvailableForDeletion_def
    by (intro kop_intro, unfold getNode_def, intro yields_intro) (auto split: option.splits if_splits)
  have del: "keeps ?E (createVolumeHelper K (newDeleteVolumeAction cs volID node vg lvmType))"
    if "answers (k_getPV K volID) (Inr (Some v))" "metadataFromPV (Some v) = Inr (node, vg, lvmType)"
      "answers (k_getNode K node) None" for v node vg lvmType
    by (rule keeps_writes_mono [OF createVolumeHelper_writes]) (use that in \<open>auto simp: delete_event_def\<close>)
  have node: "keeps ?E (nodeAvailableForDeletion K n volID \<bind> (\<lambda>a. case a of
        Inl err \<Rightarrow> State_Monad.return (Some err) | Inr False \<Rightarrow> State_Monad.return None
      | Inr True \<Rightarrow> createVolumeHelper K (newDeleteVolumeAction cs volID n vg lvmType)))"
    if "answers (k_getPV K volID) (Inr (Some v))" "metadataFromPV (Some v) = Inr (n, vg, lvmType)" for v n vg lvmType
    by (rule keeps_writes_bind_yields [OF nd])
      (use del [OF that] in \<open>auto simp: keeps_writes_return split: sum.splits bool.splits\<close>)
  show ?thesis unfolding DeleteVolume_def
    by (intro keeps_writes_cases keeps_writes_return keeps_writes_bind_yields [OF pv])
      (use node in \<open>auto intro!: keeps_writes_return split: sum.splits prod.splits\<close>)
qed


definition volume_gone :: "'k kube \<Rightarrow> string \<Rightarrow> bool" where
  "volume_gone K volID \<longleftrightarrow> answers (k_getPV K volID) (Inl ApiNotFound) \<or> answers (k_getPV K volID) (Inr None)
     \<or> (\<exists>v node vg lvmType. answers (k_getPV K volID) (Inr (Some v)) \<and> metadataFromPV (Some v) = Inr (node, vg, lvmType)
          \<and> answers (k_getNode K node) (Some ApiNotFound))"

lemma answered:
  "k_getPV K n w = (p, w') \<Longrightarrow> answers (k_getPV K n) p"
  "k_getNode K n w = (e, w') \<Longrightarrow> answers (k_getNode K n) e"
  "k_getConfigMap K ns n w = (g, w') \<Longrightarrow> answers (k_getConfigMap K ns n) g"
  "k_listContents K w = (l, w') \<Longrightarrow> answers (k_listContents K) l"
  by (metis answers_def fst_conv)+

lemma DeleteVolume_success:
  assumes run: "run_state (DeleteVolume K cs volID) s = (None, t)"
  obtains (gone) "c_log t = c_log s" "volume_gone K volID"
  | (helper) v node vg lvmType u where "volID \<noteq> ''''" "answers (k_getPV K volID) (Inr (Some v))"
      "metadataFromPV (Some v) = Inr (node, vg, lvmType)"
      "run_state (createVolumeHelper K (newDeleteVolumeAction cs volID node vg lvmType)) u = (None, t)"
proof -
  have valid: "validateDeleteVolumeRequest volID = None" "validateControllerServiceRequest cs RPC_CREATE_DELETE_VOLUME = None"
    using run by (auto simp: DeleteVolume_def split: option.splits)
  obtain p w where p: "k_getPV K volID (c_world s) = (p, w)" by (rule prod.exhaust)
  show ?thesis
  proof (cases "\<exists>v. p = Inr (Some v)")
    case False
    then have "p = Inl ApiNotFound \<or> p = Inr None" "c_log t = c_log s"
      using run p valid
      by (auto simp: DeleteVolume_def persistentVolumeForDeletion_def api_calls run_simps split: sum.splits if_splits option.splits)
    then show ?thesis using answered(1) [OF p] gone by (auto simp: volume_gone_def)
  next
    case True
    then obtain v where v: "p = Inr (Some v)" by blast
    obtain node vg lvmType where m: "metadataFromPV (Some v) = Inr (node, vg, lvmType)"
      using run p valid v
      by (auto simp: DeleteVolume_def persistentVolumeForDeletion_def api_calls run_simps split: sum.splits)
    obtain n w2 where n: "k_getNode K node w = (n, w2)" by (rule prod.exhaust)
    show ?thesis
    proof (cases n)
      case (Some e)
      then have "e = ApiNotFound" "c_log t = c_log s" using run p valid v m n
        by (auto simp: DeleteVolume_def persistentVolumeForDeletion_def nodeAvailableForDeletion_def api_calls run_simps split: if_splits)
      then show ?thesis using answered(1) [OF p] answered(2) [OF n] v m Some gone by (auto simp: volume_gone_def)
    next
      case None
      then have "run_state (createVolumeHelper K (newDeleteVolumeAction cs volID node vg lvmType)) (s\<lparr>c_world := w2\<rparr>) = (None, t)"
        using run p valid v m n
        by (simp add: DeleteVolume_def persistentVolumeForDeletion_def nodeAvailableForDeletion_def api_calls run_simps)
      moreover have "volID \<noteq> ''''" using valid(1) by (auto simp: validateDeleteVolumeRequest_def)
      ultimately show ?thesis using helper answered(1) [OF p] v m by blast
    qed
  qed
qed

lemma DeleteVolume_done:
  assumes "run_state (DeleteVolume K cs volID) s = (None, t)"
  shows "helper_done K (srv_namespace cs) (''lvm-delete-'' @ volID) t \<or> c_log t = c_log s \<and> volume_gone K volID"
  using assms
proof (cases rule: DeleteVolume_success)
  case (helper v node vg lvmType u)
  with createVolumeHelper_done [of K "newDeleteVolumeAction cs volID node vg lvmType"] show ?thesis
    by (auto simp: succeeds_with_def newDeleteVolumeAction_def action_types)
qed simp

text \<open>
  C14 (volume deletion): every write of a deletion is the creation, after an admission, of the helper
  pod that deletes this volume on the node, in the volume group and of the type that its persistent
  volume records, and only when the node exists, or a deletion of the pod that the API answers under
  the name of that helper pod; so with an API that answers pods by their names no other pod is
  created or deleted.  Success is reported only after that pod succeeded, or, without any write, when
  the persistent volume or its node is gone.
\<close>

theorem DeleteVolume_correct:
  "writes (delete_event K cs volID) s (snd (run_state (DeleteVolume K cs volID) s))
   \<and> (pods_by_name K (srv_namespace cs) \<longrightarrow> writes (pod_write (srv_namespace cs) (''lvm-delete-'' @ volID))
        s (snd (run_state (DeleteVolume K cs volID) s)))
   \<and> (\<forall>t. run_state (DeleteVolume K cs volID) s = (None, t) \<longrightarrow>
        helper_done K (srv_namespace cs) (''lvm-delete-'' @ volID) t \<or> c_log t = c_log s \<and> volume_gone K volID)"
proof -
  let ?t = "snd (run_state (DeleteVolume K cs volID) s)"
  have w: "writes (delete_event K cs volID) s ?t" by (rule keepsD' [OF DeleteVolume_writes])
  have "writes (pod_write (srv_namespace cs) (''lvm-delete-'' @ volID)) s ?t" if "pods_by_name K (srv_namespace cs)"
    by (rule writes_mono [OF w]) (rule delete_event_named [OF _ that])
  with w DeleteVolume_done show ?thesis by blast
qed

subsection \<open>Creating a snapshot\<close>

definition location_recorded :: "'k kube \<Rightarrow> string \<Rightarrow> snapshotLocation \<Rightarrow> api_error option \<Rightarrow> bool" where
  "location_recorded K ns l x \<longleftrightarrow> x = None \<or> x = Some ApiAlreadyExists
     \<and> (\<exists>cm. answers (k_getConfigMap K ns (snapshotLocationConfigMapName K (loc_handle l))) (Inr cm)
          \<and> snapshotLocationFromConfigMap cm (loc_handle l) = Inr l)"

lemma recordSnapshotLocation_log:
  assumes "run_state (recordSnapshotLocation K ns h n v) s = (r, t)"
  shows "(c_log t = c_log s \<and> r \<noteq> None) \<or> (\<exists>x. c_log t = c_log s @ [KCreateConfigMap ns (configMap K ns \<lparr>loc_handle = h, loc_nodeName = n, loc_vgName = v\<rparr>) x]
     \<and> (r = None \<longrightarrow> location_recorded K ns \<lparr>loc_handle = h, loc_nodeName = n, loc_vgName = v\<rparr> x))"
  using assms
proof (cases rule: run_recordSnapshotLocation)
  case (existing w g)
  then show ?thesis using answered(3) [OF existing(3)] by (fastforce simp: location_recorded_def)
qed (auto simp: location_recorded_def status_of_def)

definition snapshot_created ::
  "'k kube \<Rightarrow> controllerServer \<Rightarrow> create_snapshot_request \<Rightarrow> 'k ctl \<Rightarrow> csi_snapshot res \<Rightarrow> 'k ctl \<Rightarrow> bool" where
  "snapshot_created K cs req s r t \<longleftrightarrow>
     (\<exists>v node vg lvmType b x evs.
        answers (k_getPV K (cs_source req)) (Inr v) \<and> metadataFromPV v = Inr (node, vg, lvmType)
        \<and> requiredBytesFromPersistentVolume v = Inr b
        \<and> c_log t = c_log s @ KCreateConfigMap (srv_namespace cs) (configMap K (srv_namespace cs)
              \<lparr>loc_handle = cs_name req, loc_nodeName = node, loc_vgName = vg\<rparr>) x # evs
        \<and> list_all (snapshot_event K (newCreateSnapshotAction cs (cs_name req) (cs_source req) node vg lvmType b)) evs
        \<and> (evs \<noteq> [] \<or> (\<exists>sn. r = Inr sn) \<longrightarrow> location_recorded K (srv_namespace cs)
              \<lparr>loc_handle = cs_name req, loc_nodeName = node, loc_vgName = vg\<rparr> x)
        \<and> (\<forall>sn. r = Inr sn \<longrightarrow> sn_id sn = cs_name req \<and> sn_sourceVolume sn = cs_source req \<and> sn_size sn = b \<and> sn_ready sn
              \<and> helper_done K (srv_namespace cs) (''snap-create-'' @ cs_name req) t))"

text \<open>
  C6 (snapshot creation): a snapshot's location is recorded before anything else is written, with
  the node and the volume group of its source volume; the helper pod is touched only once the
  record was created or was found to hold the same location; and success is reported only after the
  helper pod succeeded.  When the source volume is missing or malformed nothing is written.
\<close>

theorem CreateSnapshot_records_first:
  assumes "run_state (CreateSnapshot_handler K cs req) s = (r, t)"
  shows "(c_log t = c_log s \<and> (\<exists>e. r = Inl e)) \<or> snapshot_created K cs req s r t"
proof (cases "validateCreateSnapshotRequest req")
  case (Inl e)
  then show ?thesis using assms by (auto simp: CreateSnapshot_handler_def)
next
  case (Inr nv)
  then have nv: "nv = (cs_name req, cs_source req)" by (auto simp: validateCreateSnapshotRequest_def split: if_splits)
  obtain p w where p: "k_getPV K (cs_source req) (c_world s) = (p, w)" by (rule prod.exhaust)
  show ?thesis
  proof (cases "\<exists>v m b. p = Inr v \<and> metadataFromPV v = Inr m \<and> requiredBytesFromPersistentVolume v = Inr b")
    case False
    then show ?thesis using assms Inr nv p
      by (auto simp: CreateSnapshot_handler_def api_calls run_simps split: sum.splits)
  next
    case True
    then obtain v node vg lvmType b where v: "p = Inr v" "metadataFromPV v = Inr (node, vg, lvmType)"
      "requiredBytesFromPersistentVolume v = Inr b" by (metis prod_cases3)
    let ?l = "\<lparr>loc_handle = cs_name req, loc_nodeName = node, loc_vgName = vg\<rparr>"
    let ?a = "newCreateSnapshotAction cs (cs_name req) (cs_source req) node vg lvmType b"
    obtain e u where rec: "run_state (recordSnapshotLocation K (srv_namespace cs) (cs_name req) node vg) (s\<lparr>c_world := w\<rparr>) = (e, u)"
      by (rule prod.exhaust)
    from recordSnapshotLocation_log [OF rec]
    consider (none) "c_log u = c_log s" "e \<noteq> None"
      | (some) x where "c_log u = c_log s @ [KCreateConfigMap (srv_namespace cs) (configMap K (srv_namespace cs) ?l) x]"
          "e = None \<longrightarrow> location_recorded K (srv_namespace cs) ?l x" by auto
    then show ?thesis
    proof cases
      case none
      then show ?thesis using assms Inr nv p v rec
        by (auto simp: CreateSnapshot_handler_def api_calls run_simps)
    next
      case some
      note made = answered(1) [OF p [unfolded v(1)]] v(2,3)
      show ?thesis
      proof (cases e)
        case (Some err)
        then have "t = u" "r = Inl err" using assms Inr nv p v rec
          by (auto simp: CreateSnapshot_handler_def api_calls run_simps)
        then show ?thesis using made some unfolding snapshot_created_def by (intro disjI2) force
      next
        case None
        obtain h t' where h: "run_state (createSnapshotHelper K ?a) u = (h, t')" by (rule prod.exhaust)
        have res: "t = t'" "r = (case h of Some err \<Rightarrow> Inl err
            | None \<Rightarrow> Inr (newCreateSnapshotResponse (cs_name req) (cs_source req) b (k_now K (c_world t))))"
          using assms Inr nv p v rec None h
          by (auto simp: CreateSnapshot_handler_def api_calls run_simps split: option.splits)
        have "writes (snapshot_event K ?a) u t'" using createSnapshotHelper_writes h by (rule keepsD)
        then obtain evs where evs: "c_log t' = c_log u @ evs" "list_all (snapshot_event K ?a) evs" by (auto simp: writes_def)
        have hd: "helper_done K (srv_namespace cs) (''snap-create-'' @ cs_name req) t" if "h = None"
          using createSnapshotHelper_done [of K ?a] h that res(1)
          by (auto simp: succeeds_with_def newCreateSnapshotAction_def action_types)
        show ?thesis unfolding snapshot_created_def
          using made some None evs res hd
          by (intro disjI2 exI [of _ v] exI [of _ node] exI [of _ vg] exI [of _ lvmType] exI [of _ b] exI [of _ x] exI [of _ evs])
            (auto simp: newCreateSnapshotResponse_def split: option.splits)
      qed
    qed
  qed
qed


subsection \<open>Deleting a snapshot\<close>

text \<open>Where the answers of the API put a snapshot that was taken of the volume \<open>volumeID\<close>.\<close>

definition dynamic_located :: "'k kube \<Rightarrow> controllerServer \<Rightarrow> string \<Rightarrow> string \<Rightarrow> string \<Rightarrow> string \<Rightarrow> bool" where
  "dynamic_located K cs h volumeID node vg \<longleftrightarrow>
     (\<exists>v lvmType. answers (k_getPV K volumeID) (Inr v) \<and> metadataFromPV v = Inr (node, vg, lvmType))
     \<or> (\<exists>cm. answers (k_getConfigMap K (srv_namespace cs) (snapshotLocationConfigMapName K h)) (Inr cm)
          \<and> snapshotLocationFromConfigMap cm h = Inr \<lparr>loc_handle = h, loc_nodeName = node, loc_vgName = vg\<rparr>)"

definition snapshot_at :: "'k kube \<Rightarrow> controllerServer \<Rightarrow> string \<Rightarrow> snapshot_content \<Rightarrow> string \<Rightarrow> string \<Rightarrow> bool" where
  "snapshot_at K cs h c node vg \<longleftrightarrow>
     (case sc_volumeHandle c of
        None \<Rightarrow> sc_snapshotHandle c \<noteq> None \<and> located K cs h c node vg
      | Some volumeID \<Rightarrow> volumeID \<noteq> '''' \<and> dynamic_located K cs h volumeID node vg)"

definition snapshot_unrecorded :: "'k kube \<Rightarrow> controllerServer \<Rightarrow> string \<Rightarrow> snapshot_content \<Rightarrow> bool" where
  "snapshot_unrecorded K cs h c \<longleftrightarrow> (\<exists>volumeID. sc_volumeHandle c = Some volumeID
     \<and> answers (k_getPV K volumeID) (Inl ApiNotFound)
     \<and> answers (k_getConfigMap K (srv_namespace cs) (snapshotLocationConfigMapName K h)) (Inl ApiNotFound))"

lemma pvLocation_yields:
  "yields (\<lambda>r. (\<forall>l. r = Inr l \<longrightarrow> loc_handle l = h
        \<and> (\<exists>v lvmType. answers (k_getPV K volumeID) (Inr v) \<and> metadataFromPV v = Inr (loc_nodeName l, loc_vgName l, lvmType)))
      \<and> (\<forall>e. r = Inl e \<and> is_not_found e \<longrightarrow> answers (k_getPV K volumeID) (Inl ApiNotFound)))
     (pvLocation K h volumeID)"
proof -
  have nf: "\<not> is_not_found e" if "metadataFromPV v = Inl e" for v e
    using metadataFromPV_error [OF that] by auto
  show ?thesis unfolding pvLocation_def getPV_def
    by (intro yields_intro) (auto split: sum.splits if_splits prod.splits dest: nf)
qed


lemma recordedLocation_yields:
  "yields (\<lambda>r. (\<forall>l. r = Inr (Some l) \<longrightarrow> loc_handle l = h
        \<and> (\<exists>cm. answers (k_getConfigMap K (srv_namespace cs) (snapshotLocationConfigMapName K h)) (Inr cm)
             \<and> snapshotLocationFromConfigMap cm h = Inr \<lparr>loc_handle = h, loc_nodeName = loc_nodeName l, loc_vgName = loc_vgName l\<rparr>))
      \<and> (r = Inr None \<longrightarrow> answers (k_getConfigMap K (srv_namespace cs) (snapshotLocationConfigMapName K h)) (Inl ApiNotFound)))
     (recordedLocation K cs h)"
proof -
  have "yields (\<lambda>r. r = Inr None \<longrightarrow> answers (k_getConfigMap K (srv_namespace cs) (snapshotLocationConfigMapName K h)) (Inl ApiNotFound))
      (lookupSnapshotLocation K (srv_namespace cs) h)"
    unfolding lookupSnapshotLocation_def api_calls by (intro yields_intro) (auto split: sum.splits if_splits)
  with lookupSnapshotLocation_yields [of K "srv_namespace cs" h] show ?thesis
    unfolding recordedLocation_def
    by (intro yields_bind [where Q = "\<lambda>r. (\<forall>node vg. r = Inr (Some (node, vg)) \<longrightarrow>
         (\<exists>cm. answers (k_getConfigMap K (srv_namespace cs) (snapshotLocationConfigMapName K h)) (Inr cm)
          \<and> snapshotLocationFromConfigMap cm h = Inr \<lparr>loc_handle = h, loc_nodeName = node, loc_vgName = vg\<rparr>))
         \<and> (r = Inr None \<longrightarrow> answers (k_getConfigMap K (srv_namespace cs) (snapshotLocationConfigMapName K h)) (Inl ApiNotFound))"]
        yields_return) (auto simp: yields_def split: sum.splits option.splits)
qed

lemma dynamicSnapshotLocation_yields:
  "yields (\<lambda>r. (\<forall>l. r = Inr (Some l) \<longrightarrow> dynamic_located K cs h volumeID (loc_nodeName l) (loc_vgName l))
      \<and> (r = Inr None \<longrightarrow> answers (k_getPV K volumeID) (Inl ApiNotFound)
           \<and> answers (k_getConfigMap K (srv_namespace cs) (snapshotLocationConfigMapName K h)) (Inl ApiNotFound)))
     (dynamicSnapshotLocation K cs h volumeID)"
  unfolding dynamicSnapshotLocation_def
proof (rule yields_bind [OF pvLocation_yields], goal_cases)
  case (1 p)
  show ?case
  proof (cases p)
    case (Inr l)
    then show ?thesis using 1 by (auto simp: yields_def dynamic_located_def)
  next
    case (Inl e)
    then show ?thesis using 1
      by (auto intro!: yields_return yields_bind [OF recordedLocation_yields] simp: dynamic_located_def
          split: sum.splits option.splits)
  qed
qed

lemma deleteSnapshotAction_yields:
  "yields (\<lambda>r. (\<forall>a. r = Inr (Some a) \<longrightarrow> (\<exists>node vg. snapshot_at K cs h c node vg \<and> a = newDeleteSnapshotAction cs h node vg))
      \<and> (r = Inr None \<longrightarrow> snapshot_unrecorded K cs h c))
     (deleteSnapshotAction K cs h (Some c))"
proof (cases "sc_volumeHandle c")
  case None
  then show ?thesis unfolding deleteSnapshotAction_def deletePreExistingSnapshotAction_def
    by (auto intro!: yields_return yields_bind [OF resolve_yields] simp: snapshot_at_def split: sum.splits, blast)
next
  case (Some v)
  then show ?thesis unfolding deleteSnapshotAction_def deleteDynamicSnapshotAction_def
    by (auto intro!: yields_return yields_bind [OF dynamicSnapshotLocation_yields] simp: snapshot_at_def snapshot_unrecorded_def
        split: sum.splits option.splits, blast+)
qed

lemma deleteSnapshotAction_silent: "c_log (snd (run_state (deleteSnapshotAction K cs h c) s)) = c_log s"
proof -
  have pv: "keeps (writes (\<lambda>_. False)) (pvLocation K h v)" for v
    unfolding pvLocation_def by (intro kop_intro)
  have rec: "keeps (writes (\<lambda>_. False)) (recordedLocation K cs h)"
    unfolding recordedLocation_def by (intro kop_intro)
  have "keeps (writes (\<lambda>_. False)) (deleteSnapshotAction K cs h c)"
    unfolding deleteSnapshotAction_def deletePreExistingSnapshotAction_def deleteDynamicSnapshotAction_def dynamicSnapshotLocation_def
    by (intro kop_intro pv rec)
  from keepsD' [OF this, of s] show ?thesis by (auto simp: writes_def list_all_iff)
qed


definition snapshot_deleted :: "'k kube \<Rightarrow> controllerServer \<Rightarrow> string \<Rightarrow> kevent \<Rightarrow> bool" where
  "snapshot_deleted K cs h ev \<longleftrightarrow> (\<exists>items c node vg. answers (k_listContents K) (Inr items)
     \<and> find (has_handle h) items = Some c \<and> snapshot_at K cs h c node vg
     \<and> snapshot_event K (newDeleteSnapshotAction cs h node vg) ev)"

definition snapshot_unlocated :: "'k kube \<Rightarrow> controllerServer \<Rightarrow> string \<Rightarrow> bool" where
  "snapshot_unlocated K cs h \<longleftrightarrow> (\<exists>items. answers (k_listContents K) (Inr items)
     \<and> (case find (has_handle h) items of None \<Rightarrow> True | Some c \<Rightarrow> snapshot_unrecorded K cs h c))"

text \<open>
  C11 (snapshot deletion): a deletion runs only the helper pod that deletes this snapshot at the place
  its content, its source volume or its recorded location gives; the recorded location is removed
  only after that pod succeeded, and failing to remove it does not fail the deletion.  Success without
  a helper pod is reported, with nothing written, only when no content has the handle, or when the
  content has it but nothing says where the snapshot is, as its source volume is gone and no location
  was recorded.  In that last case the logical volume of the snapshot may remain on its node: the
  code reports success to keep deletions idempotent.
\<close>

theorem DeleteSnapshot_forgets_last:
  assumes "run_state (DeleteSnapshot_handler K cs h) s = (r, t)"
  shows "(writes (snapshot_deleted K cs h) s t \<and> r \<noteq> None)
    \<or> (c_log t = c_log s \<and> r = None \<and> snapshot_unlocated K cs h)
    \<or> (\<exists>u x. writes (snapshot_deleted K cs h) s u \<and> helper_done K (srv_namespace cs) (''snap-delete-'' @ h) u \<and> r = None
         \<and> c_log t = c_log u @ [KDeleteConfigMap (srv_namespace cs) (snapshotLocationConfigMapName K h) x])"
proof (cases "h = ''''")
  case True
  then show ?thesis using assms by (auto simp: DeleteSnapshot_handler_def writes_def)
next
  case False
  obtain l w where l: "k_listContents K (c_world s) = (l, w)" by (rule prod.exhaust)
  show ?thesis
  proof (cases "\<exists>items c. l = Inr items \<and> find (has_handle h) items = Some c")
    case none: False
    then show ?thesis using assms False l answered(4) [OF l]
      by (auto simp: DeleteSnapshot_handler_def getSnapshotContent_def api_calls run_simps writes_def snapshot_unlocated_def
          split: sum.splits option.splits)
  next
    case True
    then obtain items c where c: "l = Inr items" "find (has_handle h) items = Some c" by blast
    obtain a s1 where a: "run_state (deleteSnapshotAction K cs h (Some c)) (s\<lparr>c_world := w\<rparr>) = (a, s1)" by (rule prod.exhaust)
    have s1: "c_log s1 = c_log s" using deleteSnapshotAction_silent [of K cs h "Some c" "s\<lparr>c_world := w\<rparr>"] a by simp
    note ans = answered(4) [OF l] and act = yieldsD [OF deleteSnapshotAction_yields a]
    note run = assms [unfolded DeleteSnapshot_handler_def if_not_P [OF False]]
    show ?thesis
    proof (cases "\<exists>x. a = Inr (Some x)")
      case no: False
      then have "c_log t = c_log s" "r = None \<longleftrightarrow> a = Inr None"
        using run l c a s1 by (auto simp: getSnapshotContent_def api_calls run_simps split: sum.splits option.splits)
      then show ?thesis using ans act c by (auto simp: writes_def snapshot_unlocated_def)
    next
      case True
      then obtain x node vg where x: "a = Inr (Some x)" "snapshot_at K cs h c node vg" "x = newDeleteSnapshotAction cs h node vg"
        using act by blast
      obtain e u where h: "run_state (createSnapshotHelper K x) s1 = (e, u)" by (rule prod.exhaust)
      have "snapshot_deleted K cs h ev" if "snapshot_event K x ev" for ev
        using that ans c x(2,3) unfolding snapshot_deleted_def by blast
      then have w: "writes (snapshot_deleted K cs h) s u"
        using keepsD [OF createSnapshotHelper_writes h] s1 by (blast intro: writes_log writes_mono)
      show ?thesis
      proof (cases e)
        case (Some err)
        then have "t = u" "r = Some err" using run l c a x h by (auto simp: getSnapshotContent_def api_calls run_simps)
        then show ?thesis using w by simp
      next
        case None
        have "helper_done K (srv_namespace cs) (''snap-delete-'' @ h) u"
          using createSnapshotHelper_done [of K x] h None x(3)
          by (auto simp: succeeds_with_def newDeleteSnapshotAction_def action_types)
        moreover have "r = None \<and> (\<exists>y. c_log t = c_log u @ [KDeleteConfigMap (srv_namespace cs) (snapshotLocationConfigMapName K h) y])"
          using run l c a x h None by (auto simp: getSnapshotContent_def forgetSnapshotLocation_def api_calls run_simps)
        ultimately show ?thesis using w by blast
      qed
    qed
  qed
qed


subsection \<open>Examples\<close>

lemma cluster_createVolumeHelper:
  assumes "volumeHelperArgs a = Inr args" and "va_vgName a \<noteq> ''''" and "0 < MaxActive (va_helperConfig a)"
    and "cl_pods (c_world s) = []"
  shows "\<exists>t. run_state (createVolumeHelper cluster_kube a) s = (None, t) \<and> c_log t \<noteq> c_log s"
proof -
  have "va_vgName a \<in> set (helperVGs (newHelperPod (volume_helperParams a) args))"
    using assms(2) by (auto simp: newHelperPod_groups volume_helperParams_def)
  then have "helperVGs (newHelperPod (volume_helperParams a) args) \<noteq> []" by auto
  from cluster_runHelper [OF this _ assms(4), of "volume_helperParams a"] assms(1,3) show ?thesis
    by (auto simp: createVolumeHelper_def volume_helperParams_def Let_def)
qed

lemma cluster_createSnapshotHelper:
  assumes "snapshotHelperArgs a = Inr args" and "sa_vgName a \<noteq> ''''" and "0 < MaxActive (sa_helperConfig a)"
    and "cl_pods (c_world s) = []"
  shows "\<exists>t. run_state (createSnapshotHelper cluster_kube a) s = (None, t) \<and> c_log t \<noteq> c_log s"
proof -
  have "sa_vgName a \<in> set (helperVGs (newHelperPod (snapshot_helperParams a) args))"
    using assms(2) by (auto simp: newHelperPod_groups snapshot_helperParams_def)
  then have "helperVGs (newHelperPod (snapshot_helperParams a) args) \<noteq> []" by auto
  from cluster_runHelper [OF this _ assms(4), of "snapshot_helperParams a"] assms(1,3) show ?thesis
    by (auto simp: createSnapshotHelper_def snapshot_helperParams_def Let_def)
qed

definition server_x :: controllerServer where
  "server_x = \<lparr>srv_caps = getControllerServiceCapabilities [RPC_CREATE_DELETE_VOLUME, RPC_CREATE_DELETE_SNAPSHOT, RPC_CLONE_VOLUME],
     srv_nodeID = ''node1'', srv_hostWritePath = ''/etc/lvm'', srv_provisionerImage = ''img'', srv_pullPolicy = ''Always'',
     srv_namespace = ''ns'', srv_helperConfig = DefaultHelperConfig\<rparr>"

definition create_x :: create_volume_request where
  "create_x = \<lparr>cv_name = ''pvc-1'', cv_capabilities = [Some \<lparr>cap_access = Some BlockVolume, cap_mode = Some SINGLE_NODE_WRITER\<rparr>],
     cv_parameters = [''type'' \<mapsto> ''striped'', ''vgName'' \<mapsto> ''vg1''],
     cv_range = Some \<lparr>required_bytes = 4096, limit_bytes = 0\<rparr>, cv_source = None,
     cv_topology = Some \<lparr>requisite = [[topologyKeyNode \<mapsto> ''node1'']], preferred = []\<rparr>\<rparr>"

lemma server_x_caps: "validateControllerServiceRequest server_x RPC_CREATE_DELETE_VOLUME = None"
  by (simp add: validateControllerServiceRequest_def server_x_def getControllerServiceCapabilities_def)

lemma vg1_valid: "validateVGName ''vg1'' = None"
  by code_simp

lemma create_x_params: "create_params create_x ''striped'' ''vg1'' 4096 ''node1''"
proof -
  have "validateVolumeCapabilities (cv_capabilities create_x) = None" by code_simp
  moreover have "nodeFromAccessibility (cv_topology create_x) = Inr ''node1''"
    by (simp add: nodeFromAccessibility_def create_x_def requisite_nodes_def)
  ultimately show ?thesis
    by (simp add: create_params_def create_x_def parseLVMParameters_def validateCapacityRange_def lvm_types vg1_valid)
qed

theorem CreateVolume_correct_witness:
  "\<exists>v t. run_state (CreateVolume cluster_kube server_x create_x) (k_start no_pods) = (Inr v, t) \<and> vol_id v = ''pvc-1''
     \<and> vol_capacity v = 4096 \<and> helper_done cluster_kube ''ns'' ''lvm-create-pvc-1'' t"
proof -
  let ?a = "newCreateVolumeAction server_x ''pvc-1'' ''node1'' ''striped'' ''vg1'' 4096"
  obtain t where t: "run_state (createVolumeHelper cluster_kube ?a) (k_start no_pods) = (None, t)"
    using cluster_createVolumeHelper [of ?a _ "k_start no_pods"]
    by (fastforce simp: newCreateVolumeAction_def volumeHelperArgs_def action_types server_x_def DefaultHelperConfig_def no_pods_def)
  have src: "cv_source create_x = None" "cv_name create_x = ''pvc-1''" by (simp_all add: create_x_def)
  obtain v where run: "run_state (CreateVolume cluster_kube server_x create_x) (k_start no_pods) = (Inr v, t)"
    using CreateVolume_valid [OF server_x_caps create_x_params, of cluster_kube] t by (simp add: provisionVolume_def src)
  have cap: "b = 4096" if "create_params create_x ty vg b node" for ty vg b node
    using that create_x_params by (simp add: create_params_def)
  from CreateVolume_correct [OF run server_x_caps] obtain ty vg b node where p: "create_params create_x ty vg b node"
      "vol_id v = cv_name create_x" "vol_capacity v = b" "helper_done cluster_kube (srv_namespace server_x) ''lvm-create-pvc-1'' t"
    by (auto simp: src)
  then show ?thesis using run src cap [OF p(1)] by (auto simp: server_x_def)
qed

definition pv_x :: persistent_volume where
  "pv_x = \<lparr>pv_name = ''pvc-1'',
     pv_csi = Some \<lparr>src_driver = ''d'', src_handle = ''pvc-1'',
        src_attributes = [''type'' \<mapsto> ''striped'', ''vgName'' \<mapsto> ''vg1'', ''RequiredBytes'' \<mapsto> show_int 4096]\<rparr>,
     pv_affinity = Some [[\<lparr>sr_key = topologyKeyNode, sr_op = OpIn, sr_values = [''node1'']\<rparr>]]\<rparr>"

lemma pv_x_metadata: "metadataFromPV (Some pv_x) = Inr (''node1'', ''vg1'', ''striped'')"
  "requiredBytesFromPersistentVolume (Some pv_x) = Inr 4096"
proof -
  show "metadataFromPV (Some pv_x) = Inr (''node1'', ''vg1'', ''striped'')"
    by (simp add: metadataFromPV_def lvmAttributesFromPV_def pv_x_def vg1_valid nodeFromPVAffinity_def
        matchExpressionsFromTerms_def lvm_types)
  have "ParseInt (show_int 4096) = Inr 4096" by (rule ParseInt_show_int) (simp_all add: max_int64_def)
  then show "requiredBytesFromPersistentVolume (Some pv_x) = Inr 4096"
    by (simp add: requiredBytesFromPersistentVolume_def pv_x_def)
qed

definition with_pv :: cluster where
  "with_pv = no_pods\<lparr>cl_pvs := [pv_x]\<rparr>"


lemma with_pv_simps:
  "cl_pods with_pv = []" "cl_pvs with_pv = [pv_x]" "cl_nodes with_pv = [''node1'']" "cl_maps with_pv = []" "pv_name pv_x = ''pvc-1''"
  by (simp_all add: with_pv_def no_pods_def pv_x_def)

lemma k_start_same: "(k_start w)\<lparr>c_world := w\<rparr> = k_start w"
  by (simp add: k_start_def)

lemmas example_simps = api_calls run_simps cluster_calls found_def with_pv_simps pv_x_metadata k_start_same

theorem DeleteVolume_correct_witness:
  "\<exists>t. run_state (DeleteVolume cluster_kube server_x ''pvc-1'') (k_start with_pv) = (None, t)
     \<and> helper_done cluster_kube ''ns'' ''lvm-delete-pvc-1'' t"
proof -
  let ?a = "newDeleteVolumeAction server_x ''pvc-1'' ''node1'' ''vg1'' ''striped''"
  obtain t where t: "run_state (createVolumeHelper cluster_kube ?a) (k_start with_pv) = (None, t)" "c_log t \<noteq> []"
    using cluster_createVolumeHelper [of ?a _ "k_start with_pv"]
    by (fastforce simp: newDeleteVolumeAction_def volumeHelperArgs_def action_types server_x_def DefaultHelperConfig_def
        with_pv_simps)
  have run: "run_state (DeleteVolume cluster_kube server_x ''pvc-1'') (k_start with_pv) = (None, t)"
    using t by (simp add: DeleteVolume_def validateDeleteVolumeRequest_def server_x_caps persistentVolumeForDeletion_def
        nodeAvailableForDeletion_def example_simps)
  have "helper_done cluster_kube (srv_namespace server_x) (''lvm-delete-'' @ ''pvc-1'') t
      \<or> c_log t = [] \<and> volume_gone cluster_kube ''pvc-1''"
    using DeleteVolume_correct [of cluster_kube server_x "''pvc-1''" "k_start with_pv"] run by auto
  then show ?thesis using t(2) run by (auto simp: server_x_def)
qed

definition snap_x :: create_snapshot_request where
  "snap_x = \<lparr>cs_name = ''snapshot-1'', cs_source = ''pvc-1''\<rparr>"

theorem CreateSnapshot_records_first_witness:
  "\<exists>sn t. run_state (CreateSnapshot_handler cluster_kube server_x snap_x) (k_start with_pv) = (Inr sn, t)
     \<and> sn_size sn = 4096 \<and> snapshot_created cluster_kube server_x snap_x (k_start with_pv) (Inr sn) t"
proof -
  let ?l = "\<lparr>loc_handle = ''snapshot-1'', loc_nodeName = ''node1'', loc_vgName = ''vg1''\<rparr>"
  let ?a = "newCreateSnapshotAction server_x ''snapshot-1'' ''pvc-1'' ''node1'' ''vg1'' ''striped'' 4096"
  let ?u = "(k_start with_pv)\<lparr>c_world := with_pv\<lparr>cl_maps := [configMap cluster_kube ''ns'' ?l]\<rparr>,
      c_log := [KCreateConfigMap ''ns'' (configMap cluster_kube ''ns'' ?l) None]\<rparr>"
  have rec: "run_state (recordSnapshotLocation cluster_kube ''ns'' ''snapshot-1'' ''node1'' ''vg1'') (k_start with_pv) = (None, ?u)"
    by (simp add: recordSnapshotLocation_def validate_location_def vg1_valid example_simps Let_def)
  obtain t where t: "run_state (createSnapshotHelper cluster_kube ?a) ?u = (None, t)"
    using cluster_createSnapshotHelper [of ?a _ ?u]
    by (fastforce simp: newCreateSnapshotAction_def snapshotHelperArgs_def action_types server_x_def DefaultHelperConfig_def
        with_pv_simps)
  have ns: "srv_namespace server_x = ''ns''" by (simp add: server_x_def)
  obtain sn where run: "run_state (CreateSnapshot_handler cluster_kube server_x snap_x) (k_start with_pv) = (Inr sn, t)" "sn_size sn = 4096"
    using rec t by (simp add: CreateSnapshot_handler_def validateCreateSnapshotRequest_def snap_x_def ns example_simps
        newCreateSnapshotResponse_def)
  from CreateSnapshot_records_first [OF run(1)] run show ?thesis by auto
qed

definition content_x :: snapshot_content where
  "content_x = \<lparr>sc_name = ''snapcontent-1'', sc_driver = ''d'', sc_volumeHandle = Some ''pvc-1'', sc_snapshotHandle = None,
     sc_status = Some \<lparr>st_handle = Some ''snapshot-1'', st_restoreSize = Some 4096, st_ready = Some True\<rparr>,
     sc_annotations = Map.empty, sc_snapshotRef = ('''', '''')\<rparr>"

theorem DeleteSnapshot_forgets_last_witness:
  "\<exists>t u x. run_state (DeleteSnapshot_handler cluster_kube server_x ''snapshot-1'')
        (k_start (with_pv\<lparr>cl_contents := [content_x]\<rparr>)) = (None, t)
     \<and> helper_done cluster_kube ''ns'' ''snap-delete-snapshot-1'' u
     \<and> c_log t = c_log u @ [KDeleteConfigMap ''ns'' (snapshotLocationConfigMapName cluster_kube ''snapshot-1'') x]"
proof -
  let ?s = "k_start (with_pv\<lparr>cl_contents := [content_x]\<rparr>)"
  let ?a = "newDeleteSnapshotAction server_x ''snapshot-1'' ''node1'' ''vg1''"
  obtain t where t: "run_state (createSnapshotHelper cluster_kube ?a) ?s = (None, t)" "c_log t \<noteq> []"
    using cluster_createSnapshotHelper [of ?a _ ?s]
    by (fastforce simp: newDeleteSnapshotAction_def snapshotHelperArgs_def action_types server_x_def DefaultHelperConfig_def
        with_pv_simps)
  have c: "has_handle ''snapshot-1'' content_x" "sc_volumeHandle content_x = Some ''pvc-1''"
    by (simp_all add: has_handle_def content_x_def)
  obtain t' where run: "run_state (DeleteSnapshot_handler cluster_kube server_x ''snapshot-1'') ?s = (None, t')"
      "c_log t' \<noteq> []"
    using t c by (auto simp: DeleteSnapshot_handler_def getSnapshotContent_def deleteSnapshotAction_def deleteDynamicSnapshotAction_def
        dynamicSnapshotLocation_def pvLocation_def forgetSnapshotLocation_def example_simps)
  from DeleteSnapshot_forgets_last [OF run(1)] run show ?thesis by (auto simp: server_x_def)
qed


subsection \<open>Errors\<close>

text \<open>
  The gRPC layer reports the code of a status error and \<open>Unknown\<close> for any other.  An error after the
  writes \<open>evs\<close> is a status error, or the error with which the last of them, the creation of a helper
  pod, was answered.
\<close>

definition coded :: "string \<Rightarrow> kevent list \<Rightarrow> goerr \<Rightarrow> bool" where
  "coded ns evs e \<longleftrightarrow> (\<exists>c x. e = Status c x)
     \<or> (\<exists>pre d a. e = ApiErr a \<and> a \<noteq> ApiAlreadyExists \<and> evs = pre @ [KCreatePod ns d (Some a)])"

definition plain :: "goerr \<Rightarrow> bool" where
  "plain e \<longleftrightarrow> (\<exists>c x. e = Status c x)"

abbreviation plain_check :: "check \<Rightarrow> bool" where "plain_check r \<equiv> pred_option plain r"
abbreviation plain_res :: "'a res \<Rightarrow> bool" where "plain_res r \<equiv> (\<forall>e. r = Inl e \<longrightarrow> plain e)"

lemma plain_simps [simp]: "plain (Status c x)" "\<not> plain (ApiErr a)" "plain (FromContextError ce)"
  by (auto simp: plain_def FromContextError_def split: ctx_error.splits)

lemma coded_plain: "plain e \<Longrightarrow> coded ns evs e"
  by (auto simp: plain_def coded_def)

lemma coded_append: "coded ns evs e \<Longrightarrow> coded ns (evs' @ evs) e"
  by (auto simp: coded_def)

lemma yields_any: "yields (\<lambda>_. True) m"
  by (simp add: yields_def)

lemma yields_cases:
  "(b \<Longrightarrow> yields P m) \<Longrightarrow> (\<not> b \<Longrightarrow> yields P n) \<Longrightarrow> yields P (if b then m else n)"
  "(v = None \<Longrightarrow> yields P m) \<Longrightarrow> (\<And>x. v = Some x \<Longrightarrow> yields P (f x)) \<Longrightarrow> yields P (case v of None \<Rightarrow> m | Some x \<Rightarrow> f x)"
  "(\<And>x. r = Inl x \<Longrightarrow> yields P (g x)) \<Longrightarrow> (\<And>y. r = Inr y \<Longrightarrow> yields P (h y)) \<Longrightarrow>
     yields P (case r of Inl x \<Rightarrow> g x | Inr y \<Rightarrow> h y)"
  "(\<And>x y. p = (x, y) \<Longrightarrow> yields P (k x y)) \<Longrightarrow> yields P (case p of (x, y) \<Rightarrow> k x y)"
  "(\<And>x. c = SnapshotSource x \<Longrightarrow> yields P (i x)) \<Longrightarrow> (\<And>x. c = VolumeSource x \<Longrightarrow> yields P (j x)) \<Longrightarrow>
     yields P (case c of SnapshotSource x \<Rightarrow> i x | VolumeSource x \<Rightarrow> j x)"
  by (auto split: option.split sum.split prod.split content_kind.split)

lemmas yields_plain = yields_cases yields_return yields_bind [OF yields_any]

lemma wait_loop_plain: "wait_loop K ns n resource action s = ((b, Some e), t) \<Longrightarrow> plain e"
proof (induction K ns n resource action s rule: wait_loop.induct)
  case (1 K ns n resource action s)
  obtain r s1 where g: "run_state (getPod K ns n) s = (r, s1)" by (rule prod.exhaust)
  obtain res where h: "run_state (helperResult K r n resource action) s1 = (res, s1)"
    by (metis helperResult_same prod.collapse)
  obtain w s2 where w: "run_state (waitForRetry K) s1 = (w, s2)" by (rule prod.exhaust)
  have res: "snd res = Some x \<Longrightarrow> plain x" for x
    using h by (auto simp: helperResult_def run_simps helperFailure_def Let_def split: sum.splits option.splits if_splits)
  have wr: "w = Some x \<Longrightarrow> plain x" for x using w by (auto simp: waitForRetry_def split: nat.splits)
  show ?case
  proof (cases "fst res \<or> snd res \<noteq> None")
    case True
    then show ?thesis using "1.prems" g h res by (auto simp: wait_loop.simps [of K ns n resource action s])
  next
    case False
    show ?thesis
    proof (cases w)
      case None
      then have "wait_loop K ns n resource action s2 = ((b, Some e), t)"
        using "1.prems" g h w False by (auto simp: wait_loop.simps [of K ns n resource action s])
      with "1.IH" [OF g [symmetric] refl h [symmetric] refl _ w [symmetric] refl None] False show ?thesis by simp
    next
      case (Some x)
      then show ?thesis using "1.prems" g h w False wr by (auto simp: wait_loop.simps [of K ns n resource action s])
    qed
  qed
qed

text \<open>
  \<open>raises ns err m\<close>: the error that \<open>err\<close> finds in the result of \<open>m\<close> is one of the two kinds, for the
  writes of this run.  An operation whose errors are all status errors needs only its results; the rest
  is the propagation of the error of a helper.
\<close>

definition raises :: "string \<Rightarrow> ('a \<Rightarrow> check) \<Rightarrow> ('k, 'a) kop \<Rightarrow> bool" where
  "raises ns err m \<longleftrightarrow> (\<forall>s. \<exists>evs. c_log (snd (run_state m s)) = c_log s @ evs
     \<and> pred_option (coded ns evs) (err (fst (run_state m s))))"

definition error_of :: "'a res \<Rightarrow> check" where
  "error_of r = (case r of Inl e \<Rightarrow> Some e | Inr _ \<Rightarrow> None)"

lemma error_of_simps [simp]: "error_of (Inl e) = Some e" "error_of (Inr x) = None"
  by (simp_all add: error_of_def)

abbreviation logs_grow :: "('k, 'a) kop \<Rightarrow> bool" where
  "logs_grow m \<equiv> keeps (writes (\<lambda>_. True)) m"

named_theorems raises_intro \<open>errors of the operations\<close>

lemma raises_return [raises_intro]: "pred_option plain (err x) \<Longrightarrow> raises ns err (State_Monad.return x)"
  by (cases "err x") (simp_all add: raises_def coded_plain)

lemma raises_plain:
  assumes "logs_grow m" and "yields (\<lambda>r. pred_option plain (err r)) m"
  shows "raises ns err m"
  unfolding raises_def
proof
  fix s
  have "pred_option plain (err (fst (run_state m s)))" using assms(2) by (simp add: yields_def)
  then have "pred_option (coded ns evs) (err (fst (run_state m s)))" for evs
    by (cases "err (fst (run_state m s))") (auto intro: coded_plain)
  with keepsD' [OF assms(1), of s] show "\<exists>evs. c_log (snd (run_state m s)) = c_log s @ evs
      \<and> pred_option (coded ns evs) (err (fst (run_state m s)))" by (auto simp: writes_def)
qed

lemma raises_bind:
  assumes "logs_grow m" and "yields P m" and "\<And>a. P a \<Longrightarrow> raises ns err (f a)"
  shows "raises ns err (m \<bind> f)"
  unfolding raises_def
proof
  fix s
  obtain a t where m: "run_state m s = (a, t)" by (rule prod.exhaust)
  obtain evs where evs: "c_log t = c_log s @ evs" using keepsD [OF assms(1) m] by (auto simp: writes_def)
  obtain evs' where evs': "c_log (snd (run_state (f a) t)) = c_log t @ evs'"
    "pred_option (coded ns evs') (err (fst (run_state (f a) t)))"
    using assms(3) [OF yieldsD [OF assms(2) m]] by (auto simp: raises_def)
  then have "pred_option (coded ns (evs @ evs')) (err (fst (run_state (f a) t)))"
    by (cases "err (fst (run_state (f a) t))") (auto intro: coded_append)
  then show "\<exists>evs. c_log (snd (run_state (m \<bind> f) s)) = c_log s @ evs
      \<and> pred_option (coded ns evs) (err (fst (run_state (m \<bind> f) s)))"
    using m evs evs'(1) by (intro exI [of _ "evs @ evs'"]) simp
qed

text \<open>An error of \<open>m\<close> is passed on at once.\<close>

lemma raises_pass:
  assumes "raises ns (\<lambda>x. x) m" and "raises ns err (f None)"
    and "\<And>e. \<exists>x. f (Some e) = State_Monad.return x \<and> err x = Some e"
  shows "raises ns err (m \<bind> f)"
  unfolding raises_def
proof
  fix s
  obtain a t where m: "run_state m s = (a, t)" by (rule prod.exhaust)
  obtain evs where evs: "c_log t = c_log s @ evs" "pred_option (coded ns evs) a"
    using assms(1) m unfolding raises_def by (metis fst_conv snd_conv)
  show "\<exists>evs. c_log (snd (run_state (m \<bind> f) s)) = c_log s @ evs
      \<and> pred_option (coded ns evs) (err (fst (run_state (m \<bind> f) s)))"
  proof (cases a)
    case (Some e)
    then show ?thesis using assms(3) [of e] m evs by (intro exI [of _ evs]) auto
  next
    case None
    obtain evs' where evs': "c_log (snd (run_state (f None) t)) = c_log t @ evs'"
      "pred_option (coded ns evs') (err (fst (run_state (f None) t)))" using assms(2) by (auto simp: raises_def)
    then have "pred_option (coded ns (evs @ evs')) (err (fst (run_state (f None) t)))"
      by (cases "err (fst (run_state (f None) t))") (auto intro: coded_append)
    then show ?thesis using m evs evs'(1) None by (intro exI [of _ "evs @ evs'"]) simp
  qed
qed

lemma raises_cases [raises_intro]:
  "(b \<Longrightarrow> raises ns err m) \<Longrightarrow> (\<not> b \<Longrightarrow> raises ns err n) \<Longrightarrow> raises ns err (if b then m else n)"
  "(v = None \<Longrightarrow> raises ns err m) \<Longrightarrow> (\<And>x. v = Some x \<Longrightarrow> raises ns err (f x)) \<Longrightarrow>
     raises ns err (case v of None \<Rightarrow> m | Some x \<Rightarrow> f x)"
  "(\<And>x. r = Inl x \<Longrightarrow> raises ns err (g x)) \<Longrightarrow> (\<And>y. r = Inr y \<Longrightarrow> raises ns err (h y)) \<Longrightarrow>
     raises ns err (case r of Inl x \<Rightarrow> g x | Inr y \<Rightarrow> h y)"
  "(\<And>x y. p = (x, y) \<Longrightarrow> raises ns err (k x y)) \<Longrightarrow> raises ns err (case p of (x, y) \<Rightarrow> k x y)"
  "(\<And>x. c = SnapshotSource x \<Longrightarrow> raises ns err (i x)) \<Longrightarrow> (\<And>x. c = VolumeSource x \<Longrightarrow> raises ns err (j x)) \<Longrightarrow>
     raises ns err (case c of SnapshotSource x \<Rightarrow> i x | VolumeSource x \<Rightarrow> j x)"
  "(z \<Longrightarrow> raises ns err m) \<Longrightarrow> (\<not> z \<Longrightarrow> raises ns err n) \<Longrightarrow> raises ns err (case z of True \<Rightarrow> m | False \<Rightarrow> n)"
  by (auto split: option.split sum.split prod.split content_kind.split bool.split)

lemmas raises_read [raises_intro] =
  raises_bind [OF keeps_writes_calls(1) yields_any] raises_bind [OF keeps_writes_calls(3) yields_any]
  raises_bind [OF keeps_writes_calls(4) yields_any] raises_bind [OF keeps_writes_calls(7) yields_any]

lemma ensureHelper_raises: "raises ns (\<lambda>x. x) (ensureHelper K ns d m)"
proof -
  have retire: "yields plain_check (retireHelper K ns p)" "yields plain_check (forceDeleteHelper K ns n)" for p n
    unfolding retireHelper_def forceDeleteHelper_def by (intro yields_plain; auto split: option.splits)+
  have existing: "yields plain_check (useExistingHelper K ns d p)" for p
    unfolding useExistingHelper_def by (intro yields_plain retire) auto
  have grows: "logs_grow (useExistingHelper K ns d p)" "logs_grow (admitHelper K ns d m)" for p
    unfolding useExistingHelper_def retireHelper_def forceDeleteHelper_def admitHelper_def by (intro kop_intro TrueI)+
  have admit: "yields plain_check (admitHelper K ns d m)"
  proof -
    have "plain_check (first_error (vg_admission items d m) vs)" for items vs
      by (induction vs) (auto simp: vg_admission_def Let_def)
    then show ?thesis unfolding admitHelper_def by (intro yields_plain) (auto simp: Let_def split: sum.splits)
  qed
  have reuse: "raises ns (\<lambda>x. x) (reuseHelper K ns d)"
    unfolding reuseHelper_def by (intro raises_intro raises_plain [OF grows(1) existing]) simp
  let ?c = "\<lambda>c. case c of None \<Rightarrow> State_Monad.return None
     | Some e \<Rightarrow> if e \<noteq> ApiAlreadyExists then State_Monad.return (Some (ApiErr e)) else reuseHelper K ns d"
  have create: "raises ns (\<lambda>x. x) (createPod K ns d \<bind> ?c)"
    unfolding raises_def
  proof
    fix s
    obtain x t where x: "run_state (createPod K ns d) s = (x, t)" "c_log t = c_log s @ [KCreatePod ns d x]"
      by (simp add: createPod_def run_simps)
    obtain evs where "c_log (snd (run_state (reuseHelper K ns d) t)) = c_log t @ evs"
      "pred_option (coded ns evs) (fst (run_state (reuseHelper K ns d) t))" using reuse unfolding raises_def by blast
    then show "\<exists>evs. c_log (snd (run_state (createPod K ns d \<bind> ?c) s)) = c_log s @ evs
        \<and> pred_option (coded ns evs) (fst (run_state (createPod K ns d \<bind> ?c) s))"
      using x coded_append [of ns evs _ "[KCreatePod ns d x]"]
      by (cases x; cases "fst (run_state (reuseHelper K ns d) t)") (auto simp: coded_def)
  qed
  show ?thesis unfolding ensureHelper_def
    by (intro raises_intro create raises_bind [OF grows(2) admit] raises_plain [OF grows(1) existing]) auto
qed

lemma runHelper_raises: "raises ns (\<lambda>x. x) (runHelper K ns p params)"
  unfolding raises_def
proof
  fix s
  obtain r t where run: "run_state (runHelper K ns p params) s = (r, t)" by (rule prod.exhaust)
  obtain e s1 where en: "run_state (ensureHelper K ns p (MaxActive (hp_config params))) s = (e, s1)" by (rule prod.exhaust)
  then obtain evs where evs: "c_log s1 = c_log s @ evs" "pred_option (coded ns evs) e"
    using ensureHelper_raises [of ns K p "MaxActive (hp_config params)"] unfolding raises_def by (metis fst_conv snd_conv)
  from run have "\<exists>evs. c_log t = c_log s @ evs \<and> pred_option (coded ns evs) r"
  proof (cases rule: runHelper_cases)
    case (1 e' s1')
    then show ?thesis using evs en by auto
  next
    case (2 s1' terminal u)
    have "\<exists>evs'. c_log t = c_log u @ evs'" using 2(3) by (auto simp: deletePod_def run_simps)
    moreover have "pred_option plain r" using wait_loop_plain 2(2) by (cases r) auto
    ultimately show ?thesis using evs en 2(1) wait_loop_outcome [OF 2(2)] by (cases r) (auto intro: coded_plain)
  qed
  then show "\<exists>evs. c_log (snd (run_state (runHelper K ns p params) s)) = c_log s @ evs
      \<and> pred_option (coded ns evs) (fst (run_state (runHelper K ns p params) s))" using run by simp
qed

lemma createVolumeHelper_raises:
  "\<exists>args. volumeHelperArgs a = Inr args \<Longrightarrow> va_namespace a = ns \<Longrightarrow> raises ns (\<lambda>x. x) (createVolumeHelper K a)"
  by (auto simp add: createVolumeHelper_def Let_def runHelper_raises)

lemma createSnapshotHelper_raises:
  "\<exists>args. snapshotHelperArgs a = Inr args \<Longrightarrow> sa_namespace a = ns \<Longrightarrow> raises ns (\<lambda>x. x) (createSnapshotHelper K a)"
  by (auto simp add: createSnapshotHelper_def Let_def runHelper_raises)


lemma fold_insert_nonempty:
  "'''' \<notin> set ns \<Longrightarrow> '''' \<notin> set (fold (\<lambda>node ns. if node = '''' then ns else List.insert node ns) vs ns)"
  by (induction vs arbitrary: ns) auto

lemma affinity_nodes_nonempty: "affinity_nodes name ns es = Inr ms \<Longrightarrow> '''' \<notin> set ns \<Longrightarrow> '''' \<notin> set ms"
  by (induction name ns es rule: affinity_nodes.induct) (auto split: if_splits simp: fold_insert_nonempty)

lemma metadataFromPV_nonempty:
  assumes "metadataFromPV v = Inr (node, vg, lvmType)"
  shows "node \<noteq> ''''" and "lvmType \<noteq> ''''"
proof -
  obtain x where v: "v = Some x" "lvmAttributesFromPV (pv_name x) (pv_csi x) = Inr (vg, lvmType)"
    "nodeFromPVAffinity (pv_name x) (pv_affinity x) = Inr node"
    using assms by (auto simp: metadataFromPV_def split: option.splits sum.splits prod.splits)
  then obtain terms where "affinity_nodes (pv_name x) [] (matchExpressionsFromTerms terms) = Inr [node]"
    by (auto simp: nodeFromPVAffinity_def split: option.splits sum.splits list.splits)
  from affinity_nodes_nonempty [OF this] show "node \<noteq> ''''" by auto
  show "lvmType \<noteq> ''''" using v(2)
    by (auto simp: lvmAttributesFromPV_def lvm_types Let_def split: option.splits if_splits)
qed

lemma helper_args:
  "n \<noteq> '''' \<Longrightarrow> node \<noteq> '''' \<Longrightarrow> ty \<noteq> '''' \<Longrightarrow> \<exists>args. volumeHelperArgs (newCreateVolumeAction cs n node ty vg b) = Inr args"
  "n \<noteq> '''' \<Longrightarrow> node \<noteq> '''' \<Longrightarrow> \<exists>args. volumeHelperArgs (clone_of cs src n node ty vg b) = Inr args"
  "n \<noteq> '''' \<Longrightarrow> node \<noteq> '''' \<Longrightarrow> \<exists>args. volumeHelperArgs (newDeleteVolumeAction cs n node vg ty) = Inr args"
  "n \<noteq> '''' \<Longrightarrow> node \<noteq> '''' \<Longrightarrow> src' \<noteq> '''' \<Longrightarrow> \<exists>args. snapshotHelperArgs (newCreateSnapshotAction cs n src' node vg ty b) = Inr args"
  "n \<noteq> '''' \<Longrightarrow> node \<noteq> '''' \<Longrightarrow> \<exists>args. snapshotHelperArgs (newDeleteSnapshotAction cs n node vg) = Inr args"
  by (simp_all add: volumeHelperArgs_def snapshotHelperArgs_def newCreateVolumeAction_def clone_of_def newDeleteVolumeAction_def
      newCreateSnapshotAction_def newDeleteSnapshotAction_def action_types)

lemma run_action_raises:
  assumes "n \<noteq> ''''" and "node \<noteq> ''''" and "\<And>a. va = Inr a \<Longrightarrow> \<exists>src ty vg b. a = clone_of cs src n node ty vg b"
    and "\<And>e. va = Inl e \<Longrightarrow> plain e"
  shows "raises (srv_namespace cs) (\<lambda>x. x) (run_action K va)"
proof (cases va)
  case (Inl e)
  then show ?thesis using assms(4) by (simp add: run_action_def raises_return)
next
  case (Inr a)
  then obtain src ty vg b where a: "a = clone_of cs src n node ty vg b" using assms(3) by blast
  have "va_namespace a = srv_namespace cs" by (simp add: a clone_of_def newCreateVolumeAction_def)
  with createVolumeHelper_raises [OF helper_args(2) [OF assms(1,2)]] show ?thesis by (simp add: run_action_def Inr a)
qed

lemma clone_action_plain:
  "newCloneVolumeAction cs (Some x) srcNode n node ty vg b b' = Inl e \<Longrightarrow> plain e"
  "generateVolumeActionForClone cs v lv n node ty vg b b' = Inl e \<Longrightarrow> plain e"
  by (auto simp: newCloneVolumeAction_def generateVolumeActionForClone_def split: if_splits sum.splits)

lemma resolve_plain: "yields plain_res (resolvePreExistingSnapshotLocation K cs h c)"
  unfolding resolvePreExistingSnapshotLocation_def Let_def
  by (intro yields_plain) (auto split: option.splits sum.splits)

lemma getSnapshotContent_plain: "yields plain_res (getSnapshotContent K h)"
  unfolding getSnapshotContent_def by (intro yields_plain) (auto split: sum.splits)

lemma getSnapshotContent_grows: "logs_grow (getSnapshotContent K h)"
  unfolding getSnapshotContent_def by (intro kop_intro)

lemma cloneFromContentSource_raises:
  assumes "n \<noteq> ''''" and "node \<noteq> ''''"
  shows "raises (srv_namespace cs) (\<lambda>x. x) (cloneFromContentSource K cs source n node ty vg b)"
proof -
  note act = run_action_raises [OF assms, where cs = cs]
  have gen: "raises (srv_namespace cs) (\<lambda>x. x) (run_action K (generateVolumeActionForClone cs v lv n node ty vg b' b))" for v lv b'
    by (rule act) (auto simp: generateVolumeActionForClone_iff dest: clone_action_plain(2))
  have pre: "raises (srv_namespace cs) (\<lambda>x. x) (cloneFromPreProvisionedSnapshot K cs c n node ty vg b)" for c
  proof -
    have "yields (\<lambda>r. (\<forall>a. r = Inr a \<longrightarrow> (\<exists>src. a = clone_of cs src n node ty vg b)) \<and> plain_res r)
        (preProvisionedSnapshotCloneAction K cs c n node ty vg b)"
      unfolding preProvisionedSnapshotCloneAction_def
      by (intro yields_cases yields_return yields_bind [OF resolve_plain])
        (auto simp: Let_def split: sum.splits dest!: newCloneVolumeAction_clone_of clone_action_plain(1))
    moreover have "logs_grow (preProvisionedSnapshotCloneAction K cs c n node ty vg b)"
      unfolding preProvisionedSnapshotCloneAction_def by (intro kop_intro)
    ultimately show ?thesis unfolding cloneFromPreProvisionedSnapshot_def
      by (elim raises_bind [rotated]) (rule act; blast)+
  qed
  show ?thesis
    unfolding cloneFromContentSource_def cloneFromSnapshotSource_def cloneFromVolumeSource_def cloneFromVolume_def
      cloneFromSnapshot_def cloneFromDynamicSnapshot_def Let_def
    by (intro raises_intro raises_bind [OF getSnapshotContent_grows getSnapshotContent_plain] gen pre)
      (auto split: if_splits sum.splits)
qed


lemma recordSnapshotLocation_raises: "raises ns' (\<lambda>x. x) (recordSnapshotLocation K ns h n v)"
proof (rule raises_plain)
  show "logs_grow (recordSnapshotLocation K ns h n v)"
    unfolding recordSnapshotLocation_def Let_def by (intro kop_intro TrueI)
  show "yields plain_check (recordSnapshotLocation K ns h n v)"
    unfolding recordSnapshotLocation_def Let_def by (intro yields_plain) (auto split: sum.splits)
qed

lemma dynamicSnapshotLocation_plain: "yields plain_res (dynamicSnapshotLocation K cs h v)"
proof -
  have pv: "yields (\<lambda>r. \<forall>e. r = Inl e \<and> status_code e = Unavailable \<longrightarrow> plain e) (pvLocation K h v)"
    unfolding pvLocation_def
    by (intro yields_plain) (auto split: sum.splits if_splits prod.splits dest!: metadataFromPV_error)
  have rec: "yields plain_res (recordedLocation K cs h)"
    unfolding recordedLocation_def by (intro yields_plain) (auto split: sum.splits option.splits)
  show ?thesis unfolding dynamicSnapshotLocation_def
    by (intro yields_cases yields_return yields_bind [OF pv] yields_bind [OF rec]) (auto split: sum.splits option.splits if_splits)
qed

lemma located_nonempty: "located K cs h c node vg \<Longrightarrow> node \<noteq> ''''"
  by (auto simp: located_def location_ok_def split: if_splits dest!: snapshotLocationFromConfigMap_sound)

lemma snapshot_at_nonempty: "snapshot_at K cs h c node vg \<Longrightarrow> node \<noteq> ''''"
  by (auto simp: snapshot_at_def dynamic_located_def location_ok_def located_nonempty split: option.splits
      dest!: snapshotLocationFromConfigMap_sound metadataFromPV_nonempty(1) located_nonempty)

lemma deleteSnapshotAction_plain:
  assumes "h \<noteq> ''''"
  shows "yields (\<lambda>r. (\<forall>a. r = Inr (Some a) \<longrightarrow> (\<exists>args. snapshotHelperArgs a = Inr args) \<and> sa_namespace a = srv_namespace cs)
      \<and> plain_res r)
    (deleteSnapshotAction K cs h (Some c))"
proof -
  have "yields plain_res (deleteSnapshotAction K cs h (Some c))"
    unfolding deleteSnapshotAction_def deletePreExistingSnapshotAction_def deleteDynamicSnapshotAction_def option.case
    by (intro yields_cases yields_return yields_bind [OF resolve_plain] yields_bind [OF dynamicSnapshotLocation_plain])
      (auto split: sum.splits option.splits)
  moreover have "sa_namespace (newDeleteSnapshotAction cs h node vg) = srv_namespace cs" for node vg
    by (simp add: newDeleteSnapshotAction_def)
  ultimately show ?thesis
    using deleteSnapshotAction_yields [of K cs h c] helper_args(5) [OF assms] snapshot_at_nonempty unfolding yields_def by metis
qed

lemma deleteSnapshotAction_grows: "logs_grow (deleteSnapshotAction K cs h c)"
proof -
  have "c_log (snd (run_state (deleteSnapshotAction K cs h c) s)) = c_log s" for s by (rule deleteSnapshotAction_silent)
  then show ?thesis by (simp add: keeps_def writes_def)
qed

lemma create_params_nonempty:
  assumes "create_params req ty vg b node"
  shows "cv_name req \<noteq> '''' \<and> node \<noteq> '''' \<and> ty \<noteq> ''''"
proof -
  obtain r where "cv_topology req = Some r" "nodeFromAccessibility (Some r) = Inr node"
    using assms by (cases "cv_topology req") (auto simp: create_params_def nodeFromAccessibility_def)
  moreover have "cv_name req \<noteq> ''''" "ty \<noteq> ''''" using assms
    by (auto simp: create_params_def parseLVMParameters_def lvm_types Let_def split: option.splits if_splits)
  ultimately show ?thesis using node_chosen_nonempty by blast
qed

lemma provisionVolume_raises:
  assumes "create_params req ty vg b node"
  shows "raises (srv_namespace cs) (\<lambda>x. x) (provisionVolume K cs req node ty vg b)"
proof -
  have ne: "cv_name req \<noteq> ''''" "node \<noteq> ''''" "ty \<noteq> ''''" using create_params_nonempty [OF assms] by simp_all
  have "va_namespace (newCreateVolumeAction cs (cv_name req) node ty vg b) = srv_namespace cs"
    by (simp add: newCreateVolumeAction_def)
  with createVolumeHelper_raises helper_args(1) [OF ne, of cs vg b] show ?thesis
    unfolding provisionVolume_def by (intro raises_intro cloneFromContentSource_raises ne) auto
qed

lemma unsupported_plain: "validateControllerServiceRequest cs x = Some e \<Longrightarrow> plain e"
  by (auto simp: validateControllerServiceRequest_def split: if_splits)

lemma CreateVolume_raises: "raises (srv_namespace cs) error_of (CreateVolume K cs req)"
proof (cases "validateControllerServiceRequest cs RPC_CREATE_DELETE_VOLUME")
  case (Some e)
  then show ?thesis using unsupported_plain by (simp add: CreateVolume_def raises_return)
next
  case None
  show ?thesis
  proof (cases "\<exists>ty vg b node. create_params req ty vg b node")
    case False
    then show ?thesis using CreateVolume_invalid [OF None, of req K] by (auto simp: raises_return)
  next
    case True
    then obtain ty vg b node where p: "create_params req ty vg b node" by blast
    show ?thesis unfolding CreateVolume_valid [OF None p]
      by (rule raises_pass [OF provisionVolume_raises [OF p]]) (auto simp: raises_return)
  qed
qed

lemma DeleteVolume_raises: "raises (srv_namespace cs) (\<lambda>x. x) (DeleteVolume K cs volID)"
proof -
  have pl: "yields plain_res (nodeAvailableForDeletion K n v)" "yields plain_res (persistentVolumeForDeletion K v)"
    and gr: "logs_grow (nodeAvailableForDeletion K n v)" "logs_grow (persistentVolumeForDeletion K v)" for n v
    unfolding nodeAvailableForDeletion_def persistentVolumeForDeletion_def
    by (intro yields_plain; auto split: option.splits sum.splits)+ (intro kop_intro)+
  have ok: "raises (srv_namespace cs) (\<lambda>x. x) (createVolumeHelper K (newDeleteVolumeAction cs volID node vg ty))"
    if "validateDeleteVolumeRequest volID = None" "metadataFromPV (Some v) = Inr (node, vg, ty)" for v node vg ty
  proof (rule createVolumeHelper_raises)
    show "\<exists>args. volumeHelperArgs (newDeleteVolumeAction cs volID node vg ty) = Inr args"
      using that helper_args(3) [of volID node cs vg ty] metadataFromPV_nonempty(1) [OF that(2)]
      by (auto simp: validateDeleteVolumeRequest_def split: if_splits)
  qed (simp add: newDeleteVolumeAction_def)
  show ?thesis unfolding DeleteVolume_def
    by (intro raises_intro raises_bind [OF gr(1) pl(1)] raises_bind [OF gr(2) pl(2)] ok) (auto dest: unsupported_plain)
qed

lemma CreateSnapshot_raises: "raises (srv_namespace cs) error_of (CreateSnapshot_handler K cs req)"
proof -
  have ok: "raises (srv_namespace cs) (\<lambda>x. x) (createSnapshotHelper K (newCreateSnapshotAction cs n v node vg ty b))"
    if "validateCreateSnapshotRequest req = Inr (n, v)" "metadataFromPV x = Inr (node, vg, ty)" for n v x node vg ty b
  proof (rule createSnapshotHelper_raises)
    show "\<exists>args. snapshotHelperArgs (newCreateSnapshotAction cs n v node vg ty b) = Inr args"
      using that helper_args(4) [of n node v cs vg ty b] metadataFromPV_nonempty(1) [OF that(2)]
      by (auto simp: validateCreateSnapshotRequest_def split: if_splits)
  qed (simp add: newCreateSnapshotAction_def)
  show ?thesis unfolding CreateSnapshot_handler_def
    by (intro raises_intro raises_pass [OF recordSnapshotLocation_raises] raises_pass [OF ok]) auto
qed

lemma DeleteSnapshot_raises: "raises (srv_namespace cs) (\<lambda>x. x) (DeleteSnapshot_handler K cs h)"
proof -
  have forget: "raises (srv_namespace cs) (\<lambda>x. x) (forgetSnapshotLocation K (srv_namespace cs) h \<bind> (\<lambda>_. State_Monad.return None))"
    by (rule raises_bind [OF _ yields_any])
      (auto simp: forgetSnapshotLocation_def raises_return intro!: kop_intro)
  show ?thesis unfolding DeleteSnapshot_handler_def
    by (intro raises_intro raises_bind [OF getSnapshotContent_grows getSnapshotContent_plain]
        raises_bind [OF deleteSnapshotAction_grows deleteSnapshotAction_plain] raises_pass [OF createSnapshotHelper_raises] forget) auto
qed

text \<open>
  C32 (errors): an error of one of the four handlers that change state carries a gRPC code, with one
  exception: when the last write of the handler is the creation of a helper pod that the API answered
  with an error other than \<open>AlreadyExists\<close>, that API error is returned as it is.
\<close>

theorem controller_errors_coded:
  "(\<exists>evs. c_log (snd (run_state (CreateVolume K cs req) s)) = c_log s @ evs
      \<and> pred_option (coded (srv_namespace cs) evs) (error_of (fst (run_state (CreateVolume K cs req) s))))
   \<and> (\<exists>evs. c_log (snd (run_state (DeleteVolume K cs volID) s)) = c_log s @ evs
      \<and> pred_option (coded (srv_namespace cs) evs) (fst (run_state (DeleteVolume K cs volID) s)))
   \<and> (\<exists>evs. c_log (snd (run_state (CreateSnapshot_handler K cs sreq) s)) = c_log s @ evs
      \<and> pred_option (coded (srv_namespace cs) evs) (error_of (fst (run_state (CreateSnapshot_handler K cs sreq) s))))
   \<and> (\<exists>evs. c_log (snd (run_state (DeleteSnapshot_handler K cs h) s)) = c_log s @ evs
      \<and> pred_option (coded (srv_namespace cs) evs) (fst (run_state (DeleteSnapshot_handler K cs h) s)))"
  using CreateVolume_raises [of cs K req] DeleteVolume_raises [of cs K volID] CreateSnapshot_raises [of cs K sreq]
    DeleteSnapshot_raises [of cs K h]
  unfolding raises_def by blast

end
