(* ===== verification/Provisioner.thy ===== *)
theory Provisioner
  imports Validation
begin

section \<open>The provisioner that runs in helper pods (\<open>cmd/provisioner\<close>)\<close>

text \<open>
  The command line library is a parameter: a parsed command line is the record \<open>cli_context\<close> of
  what \<open>c.String\<close>, \<open>c.Uint64\<close>, \<open>c.Int64\<close> and \<open>c.Duration\<close> return.  Each subcommand is an operation on
  the host; the table \<open>commands\<close> has their names, their declared flags and their actions.  Device
  files are opened, copied and synchronised through the host's file operations; a deferred \<open>Close\<close>
  is run at every return after the file was opened, and its result is ignored as in the code.
\<close>

record cli_context =
  c_String :: "string \<Rightarrow> string"
  c_Uint64 :: "string \<Rightarrow> nat"
  c_Int64 :: "string \<Rightarrow> int"
  c_Duration :: "string \<Rightarrow> int"

definition flagLVName :: string where "flagLVName = ''lvname''"
definition flagLVSize :: string where "flagLVSize = ''lvsize''"
definition flagVGName :: string where "flagVGName = ''vgname''"
definition flagLVMType :: string where "flagLVMType = ''lvmtype''"
definition flagSnapName :: string where "flagSnapName = ''snapname''"
definition flagSrcLVName :: string where "flagSrcLVName = ''srclvname''"
definition flagSrcVGName :: string where "flagSrcVGName = ''srcvgname''"
definition flagSrcType :: string where "flagSrcType = ''srctype''"
definition flagCommandTimeout :: string where "flagCommandTimeout = ''command-timeout''"
definition flagThinPoolTimeout :: string where "flagThinPoolTimeout = ''thin-pool-create-timeout''"
definition createSnapshotForClone :: bool where "createSnapshotForClone = True"
definition snapshotPrefix :: string where "snapshotPrefix = ''lvm-snapshot-''"

lemmas flag_names = flagLVName_def flagLVSize_def flagVGName_def flagLVMType_def flagSnapName_def
  flagSrcLVName_def flagSrcVGName_def flagSrcType_def flagCommandTimeout_def flagThinPoolTimeout_def

definition empty_flag :: "string \<Rightarrow> goerr" where
  "empty_flag f = Errorf ''invalid empty flag %v'' [f] None"

text \<open>The flags a command requires, checked in the order of the source.\<close>

definition require :: "string \<Rightarrow> bool \<Rightarrow> ('w, check) op \<Rightarrow> ('w, check) op" where
  "require f present rest = (if \<not> present then State_Monad.return (Some (empty_flag f)) else rest)"

definition wrap_out :: "string \<Rightarrow> outerr \<Rightarrow> check" where
  "wrap_out fmt r = (case r of (output, Some e) \<Rightarrow> Some (Errorf fmt [output] (Some e)) | (_, None) \<Rightarrow> None)"

subsection \<open>Volumes and snapshots\<close>

definition createLV :: "'w host \<Rightarrow> cli_context \<Rightarrow> ('w, check) op" where
  "createLV H c =
     (let lvName = c_String c flagLVName; lvSize = c_Uint64 c flagLVSize;
          vgName = c_String c flagVGName; lvmType = c_String c flagLVMType in
      require flagLVName (lvName \<noteq> '''')
     (require flagLVSize (lvSize \<noteq> 0)
     (require flagVGName (vgName \<noteq> '''')
     (require flagLVMType (lvmType \<noteq> '''')
       (do {
          vg \<leftarrow> EnsureVG H vgName;
          (case vg of
             Some e \<Rightarrow> State_Monad.return (Some e)
           | None \<Rightarrow> do {
               r \<leftarrow> CreateLVS H vgName lvName lvSize lvmType;
               State_Monad.return (wrap_out ''unable to create lv: %w output:%s'' r)
             })
        })))))"

definition deleteLV :: "'w host \<Rightarrow> cli_context \<Rightarrow> ('w, check) op" where
  "deleteLV H c =
     (let lvName = c_String c flagLVName; vgName = c_String c flagSrcVGName; vgType = c_String c flagSrcType in
      require flagLVName (lvName \<noteq> '''')
     (require flagSrcVGName (vgName \<noteq> '''')
     (require flagSrcType (vgType \<noteq> '''')
       (do {
          (output, err) \<leftarrow> RemoveLVSInVG H vgName lvName;
          (case err of
             Some e \<Rightarrow> State_Monad.return (Some (Errorf ''unable to delete lv: %w output:%s'' [output] (Some e)))
           | None \<Rightarrow>
               if vgType = DmThinType then do {
                 err' \<leftarrow> RemoveThinPool H vgName;
                 State_Monad.return
                   (case err' of
                      Some e \<Rightarrow> Some (Errorf ''unable to delete thinpool: %w output:%s'' [output] (Some e))
                    | None \<Rightarrow> None)
               }
               else State_Monad.return None)
        }))))"

definition createSnap :: "'w host \<Rightarrow> cli_context \<Rightarrow> ('w, check) op" where
  "createSnap H c =
     (let lvName = c_String c flagLVName; lvSize = c_Int64 c flagLVSize; vgName = c_String c flagVGName;
          snapName = c_String c flagSnapName; lvType = c_String c flagLVMType in
      require flagLVName (lvName \<noteq> '''')
     (require flagLVSize (lvSize \<noteq> 0)
     (require flagVGName (vgName \<noteq> '''')
     (require flagSnapName (snapName \<noteq> '''')
     (require flagLVMType (lvType \<noteq> '''')
       (do {
          vg \<leftarrow> EnsureVG H vgName;
          (case vg of
             Some e \<Rightarrow> State_Monad.return (Some e)
           | None \<Rightarrow> do {
               r \<leftarrow> CreateSnapshot H snapName lvName vgName lvSize lvType (\<not> createSnapshotForClone);
               State_Monad.return (wrap_out ''unable to create Snapshot: %w output:%s'' r)
             })
        }))))))"

definition deleteSnap :: "'w host \<Rightarrow> cli_context \<Rightarrow> ('w, check) op" where
  "deleteSnap H c =
     (let vgName = c_String c flagVGName; snapName = c_String c flagSnapName in
      require flagVGName (vgName \<noteq> '''')
     (require flagSnapName (snapName \<noteq> '''')
       (do {
          r \<leftarrow> DeleteSnapshot H snapName vgName;
          State_Monad.return (wrap_out ''unable to delete snapshot: %w output:%s'' r)
        })))"

subsection \<open>Cloning\<close>

definition ensureCloneVolumeGroups :: "'w host \<Rightarrow> string \<Rightarrow> string \<Rightarrow> ('w, check) op" where
  "ensureCloneVolumeGroups H srcVGName dstVGName = do {
     r \<leftarrow> EnsureVG H srcVGName;
     (case r of
        Some e \<Rightarrow> State_Monad.return (Some (Errorf ''source volume group is unavailable: %w'' [] (Some e)))
      | None \<Rightarrow>
          if dstVGName = srcVGName then State_Monad.return None
          else do {
            r' \<leftarrow> EnsureVG H dstVGName;
            State_Monad.return
              (case r' of
                 Some e \<Rightarrow> Some (Errorf ''destination volume group is unavailable: %w'' [] (Some e))
               | None \<Rightarrow> None)
          })
   }"

definition CloneDevice :: "'w host \<Rightarrow> string \<Rightarrow> string \<Rightarrow> ('w, os_error option) op" where
  "CloneDevice H src dst = os_op (''Copy from '' @ src) (h_copy H src) dst"

text \<open>\<open>defer f.Close()\<close> around the rest of a function.\<close>

definition deferred_close :: "'w host \<Rightarrow> string \<Rightarrow> ('w, check) op \<Rightarrow> ('w, check) op" where
  "deferred_close H path body = do {
     r \<leftarrow> body;
     _ \<leftarrow> os_op ''Close'' (h_close H) path;
     State_Monad.return r
   }"

definition copy_to_target :: "'w host \<Rightarrow> string \<Rightarrow> string \<Rightarrow> ('w, check) op" where
  "copy_to_target H srcDev dstDev = do {
     o2 \<leftarrow> os_op ''OpenWrite'' (h_open_write H) dstDev;
     (case o2 of
        Some e \<Rightarrow> State_Monad.return (Some (Errorf ''unable to open target device: %w'' [] (Some (OsErr e))))
      | None \<Rightarrow> deferred_close H dstDev (do {
          cp \<leftarrow> CloneDevice H srcDev dstDev;
          (case cp of
             Some e \<Rightarrow> State_Monad.return (Some (Errorf ''unable to clone device: %w'' [] (Some (OsErr e))))
           | None \<Rightarrow> do {
               sy \<leftarrow> os_op ''Sync'' (h_sync H) dstDev;
               State_Monad.return
                 (case sy of
                    Some e \<Rightarrow> Some (Errorf ''unable to sync target device: %w'' [] (Some (OsErr e)))
                  | None \<Rightarrow> None)
             })
        }))
   }"

definition clone_by_copy ::
  "'w host \<Rightarrow> string \<Rightarrow> string \<Rightarrow> string \<Rightarrow> string \<Rightarrow> nat \<Rightarrow> string \<Rightarrow> ('w, check) op" where
  "clone_by_copy H srcVgName srcLvName dstVGName dstLV dstSize dstLVType =
     (let srcDev = device_path srcVgName srcLvName in do {
        o1 \<leftarrow> os_op ''OpenRead'' (h_open_read H) srcDev;
        (case o1 of
           Some e \<Rightarrow> State_Monad.return (Some (Errorf ''unable to open source device: %w'' [] (Some (OsErr e))))
         | None \<Rightarrow> deferred_close H srcDev (do {
             (output, err) \<leftarrow> CreateLVS H dstVGName dstLV dstSize dstLVType;
             (case err of
                Some e \<Rightarrow> State_Monad.return (Some (Errorf ''unable to create lv: %w output:%s'' [output] (Some e)))
              | None \<Rightarrow> copy_to_target H srcDev (device_path dstVGName dstLV))
           }))
      })"

text \<open>The case in which a clone is a thin snapshot of a snapshot in the same pool.\<close>

definition thin_clone :: "string \<Rightarrow> string \<Rightarrow> string \<Rightarrow> string \<Rightarrow> string \<Rightarrow> bool" where
  "thin_clone srcLvName srcVgName srcType dstVGName dstLVType \<longleftrightarrow>
     prefix snapshotPrefix srcLvName \<and> srcType = DmThinType \<and> srcType = dstLVType \<and> srcVgName = dstVGName"

definition clonelv :: "'w host \<Rightarrow> cli_context \<Rightarrow> ('w, check) op" where
  "clonelv H c =
     (let srcLvName = c_String c flagSrcLVName; srcVgName = c_String c flagSrcVGName;
          srcType = c_String c flagSrcType; dstLV = c_String c flagLVName; dstVGName = c_String c flagVGName;
          dstLVType = c_String c flagLVMType; dstSize = c_Uint64 c flagLVSize in
      require flagSrcLVName (srcLvName \<noteq> '''')
     (require flagSrcVGName (srcVgName \<noteq> '''')
     (require flagSrcType (srcType \<noteq> '''')
     (require flagLVName (dstLV \<noteq> '''')
     (require flagVGName (dstVGName \<noteq> '''')
     (require flagLVMType (dstLVType \<noteq> '''')
     (require flagLVSize (dstSize \<noteq> 0)
       (do {
          vgs \<leftarrow> ensureCloneVolumeGroups H srcVgName dstVGName;
          (case vgs of
             Some e \<Rightarrow> State_Monad.return (Some e)
           | None \<Rightarrow>
               if thin_clone srcLvName srcVgName srcType dstVGName dstLVType then do {
                 (_, err) \<leftarrow> CreateSnapshot H dstLV srcLvName srcVgName (int64_of_uint64 dstSize) dstLVType
                              createSnapshotForClone;
                 State_Monad.return
                   (case err of
                      Some e \<Rightarrow> Some (Errorf ''unable to create snapshot: %w'' [] (Some e))
                    | None \<Rightarrow> None)
               }
               else clone_by_copy H srcVgName srcLvName dstVGName dstLV dstSize dstLVType)
        }))))))))"

subsection \<open>The commands\<close>

datatype flag_kind = StringFlag | Uint64Flag | Int64Flag

record 'w command =
  cmd_name :: string
  cmd_flags :: "(string \<times> flag_kind) list"
  cmd_action :: "cli_context \<Rightarrow> ('w, check) op"

definition createLVCmd :: "'w host \<Rightarrow> 'w command" where
  "createLVCmd H = \<lparr>cmd_name = ''createlv'',
     cmd_flags = [(flagLVName, StringFlag), (flagLVSize, Uint64Flag), (flagVGName, StringFlag), (flagLVMType, StringFlag)],
     cmd_action = createLV H\<rparr>"

definition deleteLVCmd :: "'w host \<Rightarrow> 'w command" where
  "deleteLVCmd H = \<lparr>cmd_name = ''deletelv'',
     cmd_flags = [(flagLVName, StringFlag), (flagSrcVGName, StringFlag), (flagSrcType, StringFlag)],
     cmd_action = deleteLV H\<rparr>"

definition createSnapCmd :: "'w host \<Rightarrow> 'w command" where
  "createSnapCmd H = \<lparr>cmd_name = ''createsnap'',
     cmd_flags = [(flagSnapName, StringFlag), (flagLVSize, Int64Flag), (flagVGName, StringFlag),
                  (flagLVName, StringFlag), (flagLVMType, StringFlag)],
     cmd_action = createSnap H\<rparr>"

definition deleteSnapCmd :: "'w host \<Rightarrow> 'w command" where
  "deleteSnapCmd H = \<lparr>cmd_name = ''deletesnap'',
     cmd_flags = [(flagSnapName, StringFlag), (flagVGName, StringFlag)],
     cmd_action = deleteSnap H\<rparr>"

definition cloneLVCmd :: "'w host \<Rightarrow> 'w command" where
  "cloneLVCmd H = \<lparr>cmd_name = ''clonelv'',
     cmd_flags = [(flagSrcLVName, StringFlag), (flagSrcVGName, StringFlag), (flagSrcType, StringFlag),
                  (flagLVName, StringFlag), (flagVGName, StringFlag), (flagLVMType, StringFlag), (flagLVSize, Uint64Flag)],
     cmd_action = clonelv H\<rparr>"

definition commands :: "'w host \<Rightarrow> 'w command list" where
  "commands H = [createLVCmd H, deleteLVCmd H, createSnapCmd H, deleteSnapCmd H, cloneLVCmd H]"

definition provisioner_before :: "cli_context \<Rightarrow> ('w, check) op" where
  "provisioner_before c = do {
     r \<leftarrow> SetCommandTimeout (c_Duration c flagCommandTimeout);
     (case r of
        Some e \<Rightarrow> State_Monad.return (Some e)
      | None \<Rightarrow> SetThinPoolCreateTimeout (c_Duration c flagThinPoolTimeout))
   }"

text \<open>\<open>p.Run\<close> on a command line whose subcommand is \<open>cmd\<close>: first \<open>Before\<close>, then the action.\<close>

definition run_provisioner :: "'w command \<Rightarrow> cli_context \<Rightarrow> ('w, check) op" where
  "run_provisioner cmd c = do {
     r \<leftarrow> provisioner_before c;
     (case r of
        Some e \<Rightarrow> State_Monad.return (Some e)
      | None \<Rightarrow> cmd_action cmd c)
   }"


subsection \<open>What the subcommands run\<close>

lemma keeps_require [op_intro]: "keeps (logs E) rest \<Longrightarrow> keeps (logs E) (require f b rest)"
  by (simp add: require_def keeps_logs_return)

lemma EnsureVG_op [op_intro]:
  assumes "\<And>c a t out err. E (ECmd c a t out err)"
  shows "keeps (logs E) (EnsureVG H vg)"
  unfolding EnsureVG_def ensureVGDiscovered_def VgExists_def scanVolumeGroups_def activateVolumeGroups_def
  by (intro op_intro assms)

lemma volume_ops [op_intro]:
  assumes "\<And>c a t out err. E (ECmd c a t out err)"
  shows "keeps (logs E) (CreateLVS H vg name sz lvmType)"
    and "keeps (logs E) (CreateSnapshot H snap src vg n ty b)"
    and "keeps (logs E) (ensureCloneVolumeGroups H vg vg')"
proof -
  have "keeps (logs E) (createThinPool H vg p)" for p
    unfolding createThinPool_def handleThinPoolCreateError_def rollbackThinPoolCreate_def Let_def
    by (intro op_intro assms)
  then show "keeps (logs E) (CreateLVS H vg name sz lvmType)"
    unfolding CreateLVS_def prepareThinPool_def pvCount_def Let_def by (intro op_intro assms)
  show "keeps (logs E) (CreateSnapshot H snap src vg n ty b)"
    unfolding CreateSnapshot_def Let_def by (intro op_intro assms)
  show "keeps (logs E) (ensureCloneVolumeGroups H vg vg')"
    unfolding ensureCloneVolumeGroups_def by (intro op_intro assms)
qed


definition is_cmd :: "event \<Rightarrow> bool" where
  "is_cmd e = (case e of ECmd _ _ _ _ _ \<Rightarrow> True | EOs _ _ _ \<Rightarrow> False)"

lemma is_cmd_simps [simp]: "is_cmd (ECmd c a t out err)" "\<not> is_cmd (EOs p q r)"
  by (simp_all add: is_cmd_def)

definition dst_dev :: "cli_context \<Rightarrow> string" where
  "dst_dev c = device_path (c_String c flagVGName) (c_String c flagLVName)"

definition src_dev :: "cli_context \<Rightarrow> string" where
  "src_dev c = device_path (c_String c flagSrcVGName) (c_String c flagSrcLVName)"

definition is_thin_clone :: "cli_context \<Rightarrow> bool" where
  "is_thin_clone c \<longleftrightarrow> thin_clone (c_String c flagSrcLVName) (c_String c flagSrcVGName)
     (c_String c flagSrcType) (c_String c flagVGName) (c_String c flagLVMType)"

lemma copy_to_target_success:
  assumes "run_state (copy_to_target H src dst) s = (None, t)"
  shows "\<exists>x. s_log t = s_log s @ [EOs ''OpenWrite'' dst None, EOs (''Copy from '' @ src) dst None, EOs ''Sync'' dst None,
    EOs ''Close'' dst x]"
  using assms
  by (auto simp: copy_to_target_def deferred_close_def CloneDevice_def run_simps split: option.splits)

lemma clone_by_copy_success:
  assumes "run_state (clone_by_copy H srcVg srcLv dstVg dstLv n ty) s = (None, t)"
  shows "\<exists>cmds x y. list_all is_cmd cmds \<and> s_log t = s_log s @ EOs ''OpenRead'' (device_path srcVg srcLv) None # cmds
      @ [EOs ''OpenWrite'' (device_path dstVg dstLv) None, EOs (''Copy from '' @ device_path srcVg srcLv) (device_path dstVg dstLv) None,
         EOs ''Sync'' (device_path dstVg dstLv) None, EOs ''Close'' (device_path dstVg dstLv) x,
         EOs ''Close'' (device_path srcVg srcLv) y]"
proof -
  let ?src = "device_path srcVg srcLv" and ?dst = "device_path dstVg dstLv"
  obtain o1 s1 where o1: "run_state (os_op ''OpenRead'' (h_open_read H) ?src) s = (o1, s1)" by (rule prod.exhaust)
  obtain out err s2 where cr: "run_state (CreateLVS H dstVg dstLv n ty) s1 = ((out, err), s2)"
    by (metis prod.exhaust)
  obtain r s3 where cp: "run_state (copy_to_target H ?src ?dst) s2 = (r, s3)" by (rule prod.exhaust)
  have ok: "o1 = None" "err = None" "r = None" "\<exists>y. s_log t = s_log s3 @ [EOs ''Close'' ?src y]"
    using assms o1 cr cp
    by (auto simp: clone_by_copy_def deferred_close_def run_cases run_os_op Let_def split: option.splits)
  have "keeps (logs is_cmd) (CreateLVS H dstVg dstLv n ty)" by (intro op_intro) simp
  then have "logs is_cmd s1 s2" using cr by (rule keepsD)
  then obtain cmds where "list_all is_cmd cmds" "s_log s2 = s_log s1 @ cmds" by (auto simp: logs_def)
  moreover have "s_log s1 = s_log s @ [EOs ''OpenRead'' ?src None]" using o1 ok(1) by (auto simp: run_os_op)
  ultimately show ?thesis using copy_to_target_success [of H ?src ?dst s2 s3] cp ok(3,4) by auto
qed

text \<open>
  \<open>copied src dst l l'\<close>: from the log \<open>l\<close> to the log \<open>l'\<close> commands were run, \<open>src\<close> was opened before and
  \<open>dst\<close> after the last of them, and \<open>dst\<close> was written from \<open>src\<close> and synced without an error.
\<close>

definition copied :: "string \<Rightarrow> string \<Rightarrow> event list \<Rightarrow> event list \<Rightarrow> bool" where
  "copied src dst l l' \<longleftrightarrow> (\<exists>cmds1 cmds2 x y. list_all is_cmd cmds1 \<and> list_all is_cmd cmds2
    \<and> l' = l @ cmds1 @ EOs ''OpenRead'' src None # cmds2
        @ [EOs ''OpenWrite'' dst None, EOs (''Copy from '' @ src) dst None, EOs ''Sync'' dst None,
           EOs ''Close'' dst x, EOs ''Close'' src y])"

lemma clonelv_copied:
  assumes "run_state (clonelv H c) s = (None, t)" and "\<not> is_thin_clone c"
  shows "copied (src_dev c) (dst_dev c) (s_log s) (s_log t)"
proof -
  let ?svg = "c_String c flagSrcVGName" and ?dvg = "c_String c flagVGName"
  obtain r s1 where e: "run_state (ensureCloneVolumeGroups H ?svg ?dvg) s = (r, s1)" by (rule prod.exhaust)
  have "r = None \<and> run_state (clone_by_copy H ?svg (c_String c flagSrcLVName) ?dvg (c_String c flagLVName)
      (c_Uint64 c flagLVSize) (c_String c flagLVMType)) s1 = (None, t)"
    using assms e
    by (auto simp: clonelv_def require_def Let_def run_cases run_bind_eq is_thin_clone_def split: if_splits option.splits)
  moreover have "keeps (logs is_cmd) (ensureCloneVolumeGroups H ?svg ?dvg)" by (intro op_intro) simp
  then have "logs is_cmd s s1" using e by (rule keepsD)
  then obtain cmds where "list_all is_cmd cmds" "s_log s1 = s_log s @ cmds" by (auto simp: logs_def)
  ultimately show ?thesis using clone_by_copy_success [of H ?svg _ ?dvg _ _ _ s1 t]
    by (fastforce simp: copied_def src_dev_def dst_dev_def)
qed


text \<open>A node with one volume group \<open>vg\<close> on one disk and no logical volume.\<close>

definition node_exec :: "int \<Rightarrow> string \<Rightarrow> string list \<Rightarrow> unit \<Rightarrow> (string \<times> cmd_error option) \<times> unit" where
  "node_exec t c args w =
     ((if c = ''lvs'' then print_report [[]] else if c = ''vgs'' \<and> last args = ''pv_count'' then ''1'' else ''vg'', None), w)"

definition clone_x :: cli_context where
  "clone_x = \<lparr>c_String = (\<lambda>f. lookup [''srclvname'' \<mapsto> ''pvc-1'', ''srcvgname'' \<mapsto> ''vg'', ''srctype'' \<mapsto> ''striped'',
       ''lvname'' \<mapsto> ''pvc-2'', ''vgname'' \<mapsto> ''vg'', ''lvmtype'' \<mapsto> ''striped''] f),
     c_Uint64 = (\<lambda>_. 4096), c_Int64 = (\<lambda>_. 0), c_Duration = (\<lambda>_. 0)\<rparr>"


text \<open>
  Deleting a volume removes nothing but that volume and, only when its type is \<open>dm-thin\<close>, the
  thin pool of its group.
\<close>

definition delete_only :: "cli_context \<Rightarrow> event \<Rightarrow> bool" where
  "delete_only c e \<longleftrightarrow> ran ''lvs'' e \<or> ran ''lvremove'' e
     \<and> (ev_args e = [''-q'', ''-y'', lv_ref (c_String c flagSrcVGName) (c_String c flagLVName)]
        \<or> c_String c flagSrcType = DmThinType
          \<and> ev_args e = [''-q'', ''-y'', lv_ref (c_String c flagSrcVGName) (thin_pool_name (c_String c flagSrcVGName))])"

lemma deleteLV_ops: "keeps (logs (delete_only c)) (deleteLV H c)"
proof -
  let ?vg = "c_String c flagSrcVGName" and ?ty = "c_String c flagSrcType"
  have rm: "keeps (logs F) (RemoveLVSInVG H vg n)"
    if "\<And>a t out err. F (ECmd ''lvs'' a t out err)" "\<And>t out err. F (ECmd ''lvremove'' [''-q'', ''-y'', lv_ref vg n] t out err)"
    for F vg n
    unfolding RemoveLVSInVG_def by (intro op_intro that)
  have pool: "keeps (logs (delete_only c)) (RemoveThinPool H ?vg)" if "?ty = DmThinType"
    unfolding RemoveThinPool_def Let_def using that by (intro op_intro rm) (auto simp: delete_only_def)
  show ?thesis unfolding deleteLV_def Let_def by (intro op_intro rm pool) (auto simp: delete_only_def)
qed

end
