(* ===== verification/Inventory.thy ===== *)
theory Inventory
  imports Provisioner
begin

section \<open>The inventory of a node: what the operations promise\<close>

text \<open>
  The operations of \<open>lvm.go\<close> and the subcommands of the provisioner are programs over commands.  This
  theory says what they do to the node: an \<open>inventory\<close> maps a volume group and a name to the logical
  volume there, the locale \<open>lvm_tools\<close> states the documented behaviour of \<open>lvs\<close>, \<open>lvcreate\<close>,
  \<open>lvextend\<close> and \<open>lvremove\<close> on it, and each operation is shown to refine a specification on
  inventories.  At the end the laws are discharged for a concrete, executable LVM.
\<close>

subsection \<open>Inventories and specifications\<close>

text \<open>An entry is a line of the \<open>lvs\<close> report and the thin pool the volume is allocated in.\<close>

record lv_entry = logicalVolume +
  pool_lv :: string

type_synonym inventory = "string \<times> string \<Rightarrow> lv_entry option"

lemma truncate_simps [simp]:
  "lv_name (logicalVolume.truncate e) = lv_name e" "vg_name (logicalVolume.truncate e) = vg_name e"
  "lv_size (logicalVolume.truncate e) = lv_size e" "segtype (logicalVolume.truncate e) = segtype e"
  "origin (logicalVolume.truncate e) = origin e"
  by (simp_all add: logicalVolume.truncate_def)

definition listed :: "inventory \<Rightarrow> string \<Rightarrow> string \<Rightarrow> logicalVolume option" where
  "listed V vg n = map_option logicalVolume.truncate (V (vg, n))"

text \<open>\<open>only S V V'\<close>: the two inventories differ at most in \<open>S\<close>.\<close>

definition only :: "(string \<times> string) set \<Rightarrow> inventory \<Rightarrow> inventory \<Rightarrow> bool" where
  "only S V V' \<longleftrightarrow> (\<forall>k. k \<notin> S \<longrightarrow> V' k = V k)"

definition preserves :: "inventory \<Rightarrow> inventory \<Rightarrow> bool" where
  "preserves V V' \<longleftrightarrow> (\<forall>k e. V k = Some e \<longrightarrow> V' k = Some e)"

text \<open>
  Removing the volume \<open>n\<close> takes what hangs on it: its snapshots, and for a thin pool the volumes in it.
\<close>

definition hangs_on :: "string \<Rightarrow> string \<Rightarrow> string \<times> string \<Rightarrow> lv_entry \<Rightarrow> bool" where
  "hangs_on vg n k e \<longleftrightarrow> k = (vg, n) \<or> fst k = vg \<and> (origin e = n \<or> pool_lv e = n)"

definition removed :: "string \<Rightarrow> string \<Rightarrow> inventory \<Rightarrow> inventory \<Rightarrow> bool" where
  "removed vg n V V' \<longleftrightarrow>
     (\<forall>k e. V k = Some e \<longrightarrow> \<not> hangs_on vg n k e \<longrightarrow> V' k = Some e) \<and> (\<forall>k. V k = None \<longrightarrow> V' k = None)"

definition bytes_of :: "lv_entry \<Rightarrow> nat \<Rightarrow> bool" where
  "bytes_of e b \<longleftrightarrow> ParseUint (lv_size e) = Inr b"

definition fits :: "nat \<Rightarrow> string \<Rightarrow> lv_entry \<Rightarrow> bool" where
  "fits sz ty e \<longleftrightarrow> compatible (logicalVolume.truncate e) sz ty"

text \<open>In a sound inventory every snapshot has its origin and every thin volume its pool.\<close>

definition sound :: "inventory \<Rightarrow> bool" where
  "sound V \<longleftrightarrow> (\<forall>vg n e. V (vg, n) = Some e \<longrightarrow>
     (origin e \<noteq> '''' \<longrightarrow> V (vg, origin e) \<noteq> None) \<and> (pool_lv e \<noteq> '''' \<longrightarrow> V (vg, pool_lv e) \<noteq> None))"

text \<open>The names that the driver passes to LVM: \<open>validateVGName\<close> gives the first, the CSI names the second.\<close>

definition vg_component :: "string \<Rightarrow> bool" where
  "vg_component vg \<longleftrightarrow> vg \<noteq> '''' \<and> CHR ''/'' \<notin> set vg"

lemma only_refl [simp]: "only S V V"
  by (simp add: only_def)

lemma only_trans: "only S V V' \<Longrightarrow> only S V' V'' \<Longrightarrow> only S V V''"
  by (simp add: only_def)

lemma only_mono: "only S V V' \<Longrightarrow> S \<subseteq> T \<Longrightarrow> only T V V'"
  by (auto simp: only_def)

lemma preserves_refl [simp]: "preserves V V"
  by (simp add: preserves_def)

lemma removed_refl [simp]: "removed vg n V V"
  by (simp add: removed_def)

lemma only_preserves: "only S V V' \<Longrightarrow> (\<And>k. k \<in> S \<Longrightarrow> V k = None) \<Longrightarrow> preserves V V'"
  unfolding only_def preserves_def by (metis option.distinct(1))

lemma wp_timeouts [wp_intro]:
  "(\<And>ex. Q ex s) \<Longrightarrow> wp newCommandExecutor Q s" "(\<And>n. R n s) \<Longrightarrow> wp thinPoolCreateTimeout R s"
  by (simp_all add: wp_def run_simps)

text \<open>
  The specifications: what a creation, a snapshot, an extension and a removal do to an inventory;
  \<open>ok\<close> says that the operation reported no error.
\<close>

definition create_spec :: "string \<Rightarrow> string \<Rightarrow> nat \<Rightarrow> string \<Rightarrow> inventory \<Rightarrow> bool \<Rightarrow> inventory \<Rightarrow> bool" where
  "create_spec vg n sz ty V ok V' \<longleftrightarrow> preserves V V'
     \<and> only ({(vg, n)} \<union> (if ty = DmThinType then {(vg, thin_pool_name vg)} else {})) V V'
     \<and> (V (vg, n) \<noteq> None \<longrightarrow> V' = V)
     \<and> (ok \<longrightarrow> (\<exists>e. V' (vg, n) = Some e \<and> fits sz ty e))"

definition snapshot_spec :: "string \<Rightarrow> string \<Rightarrow> string \<Rightarrow> string \<Rightarrow> inventory \<Rightarrow> bool \<Rightarrow> inventory \<Rightarrow> bool" where
  "snapshot_spec vg b src ty V ok V' \<longleftrightarrow> preserves V V' \<and> only {(vg, b)} V V'
     \<and> (ok \<longrightarrow> (\<exists>e u. V' (vg, b) = Some e \<and> V (vg, src) = Some u \<and> origin e = src
          \<and> (V (vg, b) = None \<and> ty = DmThinType \<longrightarrow> lv_size e = lv_size u)))"

definition grows :: "string \<Rightarrow> string \<Rightarrow> inventory \<Rightarrow> inventory \<Rightarrow> bool" where
  "grows vg n V V' \<longleftrightarrow> only {(vg, n)} V V'
     \<and> (\<forall>e b. V (vg, n) = Some e \<longrightarrow> bytes_of e b \<longrightarrow>
          (\<exists>e' b'. V' (vg, n) = Some e' \<and> bytes_of e' b' \<and> b \<le> b' \<and> segtype e' = segtype e \<and> origin e' = origin e
             \<and> pool_lv e' = pool_lv e))"

definition at_least :: "string \<Rightarrow> string \<Rightarrow> nat \<Rightarrow> inventory \<Rightarrow> bool" where
  "at_least vg n sz V \<longleftrightarrow> (\<exists>e b. V (vg, n) = Some e \<and> bytes_of e b \<and> sz \<le> b)"

definition extend_spec :: "string \<Rightarrow> nat \<Rightarrow> inventory \<Rightarrow> bool \<Rightarrow> inventory \<Rightarrow> bool" where
  "extend_spec n sz V ok V' \<longleftrightarrow> (\<exists>vg. grows vg n V V' \<and> (ok \<longrightarrow> at_least vg n sz V'))"

lemma grows_refl [simp]: "grows vg n V V"
  by (auto simp: grows_def)

definition remove_spec :: "string \<Rightarrow> string \<Rightarrow> inventory \<Rightarrow> bool \<Rightarrow> inventory \<Rightarrow> bool" where
  "remove_spec vg n V ok V' \<longleftrightarrow> removed vg n V V' \<and> (V (vg, n) = None \<longrightarrow> V' = V) \<and> (ok \<longrightarrow> V' (vg, n) = None)"

text \<open>
  Deleting a volume of a thin group may take the empty pool as well, but never a volume that is in it.
\<close>

definition delete_volume_spec :: "string \<Rightarrow> string \<Rightarrow> string \<Rightarrow> inventory \<Rightarrow> bool \<Rightarrow> inventory \<Rightarrow> bool" where
  "delete_volume_spec vg n ty V ok V' \<longleftrightarrow>
     (\<forall>k e. V k = Some e \<longrightarrow> \<not> hangs_on vg n k e \<longrightarrow>
        \<not> (ty = DmThinType \<and> fst k = vg \<and> (snd k = thin_pool_name vg \<or> origin e = thin_pool_name vg)) \<longrightarrow> V' k = Some e)
     \<and> (\<forall>k. V k = None \<longrightarrow> V' k = None) \<and> (V (vg, n) = None \<and> ty \<noteq> DmThinType \<longrightarrow> V' = V)
     \<and> (ok \<longrightarrow> V' (vg, n) = None)"

lemma delete_volume_specI:
  assumes "remove_spec vg n V ok V1"
  shows "delete_volume_spec vg n ty V ok V1"
    and "removed vg (thin_pool_name vg) V1 V2 \<Longrightarrow> (\<And>m e. V1 (vg, m) = Some e \<Longrightarrow> pool_lv e \<noteq> thin_pool_name vg)
      \<Longrightarrow> delete_volume_spec vg n DmThinType V ok V2"
proof -
  show "delete_volume_spec vg n ty V ok V1" using assms unfolding delete_volume_spec_def remove_spec_def removed_def by blast
  assume r: "removed vg (thin_pool_name vg) V1 V2" and e: "\<And>m e. V1 (vg, m) = Some e \<Longrightarrow> pool_lv e \<noteq> thin_pool_name vg"
  show "delete_volume_spec vg n DmThinType V ok V2"
    unfolding delete_volume_spec_def
  proof (intro conjI allI impI)
    fix k e
    assume k: "V k = Some e" "\<not> hangs_on vg n k e"
      "\<not> (DmThinType = DmThinType \<and> fst k = vg \<and> (snd k = thin_pool_name vg \<or> origin e = thin_pool_name vg))"
    then have V1: "V1 k = Some e" using assms unfolding remove_spec_def removed_def by blast
    have "\<not> hangs_on vg (thin_pool_name vg) k e"
      using k(3) V1 assms(1) e by (cases k) (auto simp: hangs_on_def)
    then show "V2 k = Some e" using r V1 unfolding removed_def by blast
  next
    fix k
    assume "V k = None"
    then show "V2 k = None" using assms r unfolding remove_spec_def removed_def by metis
  next
    assume ok
    then show "V2 (vg, n) = None" using assms r unfolding remove_spec_def removed_def by metis
  qed simp
qed

lemma delete_volume_spec_failed: "delete_volume_spec vg n ty V ok V' \<Longrightarrow> delete_volume_spec vg n ty V False V'"
  by (simp add: delete_volume_spec_def)

text \<open>
  A clone has the size asked for, except a thin clone of a snapshot: a new one has the size of the
  snapshot, whatever size was asked for.
\<close>

definition clone_spec :: "string \<Rightarrow> string \<Rightarrow> string \<Rightarrow> string \<Rightarrow> nat \<Rightarrow> string \<Rightarrow> bool \<Rightarrow> inventory \<Rightarrow> bool \<Rightarrow> inventory \<Rightarrow> bool" where
  "clone_spec vg n svg src sz ty thin V ok V' \<longleftrightarrow> preserves V V'
     \<and> only {(vg, n), (vg, thin_pool_name vg)} V V'
     \<and> (ok \<longrightarrow> (\<exists>e. V' (vg, n) = Some e \<and>
          (if thin then origin e = src \<and> (V (vg, n) = None \<longrightarrow> (\<exists>u. V (svg, src) = Some u \<and> lv_size e = lv_size u))
           else fits sz ty e)))"

text \<open>What preparing the thin pool may do before the volume is created.\<close>

definition pool_step :: "string \<Rightarrow> string \<Rightarrow> inventory \<Rightarrow> inventory \<Rightarrow> bool" where
  "pool_step ty vg V V' \<longleftrightarrow>
     (if ty = DmThinType then preserves V V' \<and> only {(vg, thin_pool_name vg)} V V' else V' = V)"

lemma create_specI:
  assumes "pool_step ty vg V V1" and "only {(vg, n)} V1 V2" and "V (vg, n) = None"
    and "ok \<longrightarrow> (\<exists>e. V2 (vg, n) = Some e \<and> fits sz ty e)"
  shows "create_spec vg n sz ty V ok V2"
proof -
  have "preserves V V1" using assms(1) by (auto simp: pool_step_def split: if_splits)
  then have "preserves V V2" using assms(2,3) unfolding preserves_def only_def
    by (metis option.distinct(1) singletonD)
  then show ?thesis using assms unfolding create_spec_def only_def pool_step_def
    by (auto split: if_splits simp del: split_paired_All)
qed

lemma create_spec_failed: "pool_step ty vg V V1 \<Longrightarrow> V (vg, n) = None \<Longrightarrow> create_spec vg n sz ty V False V1"
  by (auto simp: create_spec_def pool_step_def only_def split: if_splits)

lemma create_spec_existing: "V (vg, n) = Some e \<Longrightarrow> ok \<longrightarrow> fits sz ty e \<Longrightarrow> create_spec vg n sz ty V ok V"
  by (auto simp: create_spec_def)

subsection \<open>The tools\<close>

definition bystanders :: "string set" where
  "bystanders = {''lvs'', ''vgs'', ''vgscan'', ''vgchange'', ''blkid'', ''wipefs'', ''resize2fs'', ''xfs_growfs''}"

definition thin_count_args :: "string list" where
  "thin_count_args = [''--noheadings'', ''-o'', ''vg_name,segtype,name,thin_count'']"

text \<open>
  What is relied on of LVM.  A listing without an error shows the inventory; a thin pool that is
  reported with no thin volume has none; the other commands that these operations run (listings,
  scans and activations, looks at a filesystem and its resizing), and file operations, leave the
  inventory alone.  Creating and extending touch only the named
  volume, even when they fail, and succeed only with a volume of at least that size and of that
  type; a thin snapshot has the size of its origin; removing takes only the volume and what hangs on it.
\<close>

locale lvm_tools =
  fixes H :: "'w host" and view :: "'w \<Rightarrow> inventory"
  assumes lvs_list: "h_exec H t ''lvs'' lvs_args w = ((out, None), w') \<Longrightarrow> lvs_volumes (out, None) = Inr vs \<Longrightarrow>
      lookup_in vg n vs = listed (view w) vg n"
    and lvs_thin_count: "h_exec H t ''lvs'' thin_count_args w = ((out, None), w') \<Longrightarrow>
      thin_counts vg Map.empty (split_on CHR 0x0A out) = Inr info \<Longrightarrow> info p = Some cnt \<Longrightarrow> cnt \<le> 0 \<Longrightarrow>
      view w (vg, n) = Some e \<Longrightarrow> pool_lv e \<noteq> p"
    and names: "view w (vg, n) = Some e \<Longrightarrow> vg_component vg \<and> n \<noteq> ''''"
    and other_commands: "c \<in> bystanders \<Longrightarrow> view (snd (h_exec H t c args w)) = view w"
    and lvcreate_volume: "vg_component vg \<Longrightarrow> ty = StripedType \<or> ty = DmThinType \<Longrightarrow> sz \<le> max_uint64 \<Longrightarrow>
      h_exec H t ''lvcreate'' (lvcreate_args vg n sz ty pool pvs) w = ((out, err), w') \<Longrightarrow>
      only {(vg, n)} (view w) (view w') \<and> (err = None \<longrightarrow> (\<exists>e. view w' (vg, n) = Some e \<and> fits sz ty e))"
    and lvcreate_pool: "vg_component vg \<Longrightarrow>
      h_exec H t ''lvcreate'' (thinPoolCreateArgs vg pool) w = ((out, err), w') \<Longrightarrow> only {(vg, pool)} (view w) (view w')"
    and lvcreate_snapshot: "vg_component vg \<Longrightarrow> snapshot_args b src vg vsz ty clone = Some args \<Longrightarrow>
      h_exec H t ''lvcreate'' args w = ((out, err), w') \<Longrightarrow>
      only {(vg, b)} (view w) (view w') \<and>
      (err = None \<longrightarrow> (\<exists>e u. view w' (vg, b) = Some e \<and> view w (vg, src) = Some u \<and> origin e = src
         \<and> (ty = DmThinType \<longrightarrow> lv_size e = lv_size u)))"
    and lvextend: "vg_component vg \<Longrightarrow> sz \<le> max_uint64 \<Longrightarrow>
      h_exec H t ''lvextend'' (buildLVExtendArgs vg n sz) w = ((out, err), w') \<Longrightarrow>
      grows vg n (view w) (view w') \<and> (err = None \<longrightarrow> at_least vg n sz (view w'))"
    and lvremove: "vg_component vg \<Longrightarrow> n \<noteq> '''' \<Longrightarrow> ref = lv_ref vg n \<or> ref = device_path vg n \<Longrightarrow>
      h_exec H t ''lvremove'' [''-q'', ''-y'', ref] w = ((out, err), w') \<Longrightarrow>
      removed vg n (view w) (view w') \<and> (err = None \<longrightarrow> view w' (vg, n) = None)"
    and files: "view (snd (h_open_read H p w)) = view w" "view (snd (h_open_write H p w)) = view w"
      "view (snd (h_close H p w)) = view w" "view (snd (h_copy H q p w)) = view w" "view (snd (h_sync H p w)) = view w"
begin

lemma wp_other:
  assumes "c \<in> bystanders" and "\<And>r t. view (s_world t) = view (s_world s) \<Longrightarrow> Q r t"
  shows "wp (Execute H ex c args) Q s"
  unfolding wp_def by (rule assms(2)) (simp add: run_simps other_commands [OF assms(1)])

lemma wp_query [wp_intro]:
  assumes "\<And>r t. view (s_world t) = view (s_world s) \<Longrightarrow> Q r t"
  shows "wp (Execute H ex ''lvs'' args) Q s" "wp (Execute H ex ''vgs'' args) Q s"
    "wp (Execute H ex ''vgscan'' args) Q s" "wp (Execute H ex ''vgchange'' args) Q s"
    "wp (Execute H ex ''blkid'' args) Q s" "wp (Execute H ex ''wipefs'' args) Q s"
  by (rule wp_other; simp add: bystanders_def assms)+

lemma wp_command:
  assumes "\<And>out err w. h_exec H (cmdTimeout ex) c args (s_world s) = ((out, err), w) \<Longrightarrow> Q (out, err) (after H ex c args s)"
  shows "wp (Execute H ex c args) Q s"
proof -
  obtain out err w where x: "h_exec H (cmdTimeout ex) c args (s_world s) = ((out, err), w)" by (metis prod.collapse)
  show ?thesis using assms [OF x] x by (simp add: wp_def run_simps exec_of_def)
qed

lemma wp_list [wp_intro]:
  assumes "\<And>e t. view (s_world t) = view (s_world s) \<Longrightarrow> Q (Inl e) t"
    and "\<And>vs t. view (s_world t) = view (s_world s) \<Longrightarrow>
           (\<And>vg n. lookup_in vg n vs = listed (view (s_world s)) vg n) \<Longrightarrow> Q (Inr vs) t"
  shows "wp (listLogicalVolumes H) Q s"
proof -
  obtain out err w where x: "h_exec H (s_cmdTimeout s) ''lvs'' lvs_args (s_world s) = ((out, err), w)"
    by (metis prod.collapse)
  have same: "view (s_world (after H (cmd_ex s) ''lvs'' lvs_args s)) = view (s_world s)"
    by (simp add: other_commands bystanders_def)
  have ex: "exec_of H (cmd_ex s) ''lvs'' lvs_args s = (out, err)" using x by (simp add: exec_of_def cmd_ex_def)
  show ?thesis
  proof (cases "lvs_volumes (out, err)")
    case (Inl e)
    then show ?thesis using assms(1) [OF same] by (simp add: wp_def run_simps ex)
  next
    case (Inr vs)
    then have "err = None" by (auto simp: lvs_volumes_def split: option.splits)
    with lvs_list x Inr have "lookup_in vg n vs = listed (view (s_world s)) vg n" for vg n by blast
    then show ?thesis using assms(2) [OF same] Inr by (simp add: wp_def run_simps ex)
  qed
qed

lemma wp_get [wp_intro]:
  assumes "\<And>e t. view (s_world t) = view (s_world s) \<Longrightarrow> Q (Inl e) t"
    and "\<And>t. view (s_world t) = view (s_world s) \<Longrightarrow> Q (Inr (listed (view (s_world s)) vg n)) t"
  shows "wp (getLogicalVolume H vg n) Q s"
  unfolding getLogicalVolume_def by (intro wp_intro) (auto intro: assms)

text \<open>Operations that only look.\<close>

lemma wp_look [wp_intro]:
  assumes "\<And>r t. view (s_world t) = view (s_world s) \<Longrightarrow> Q r t"
  shows "wp (EnsureVG H vg) Q s" "wp (ensureCloneVolumeGroups H vg vg') Q s" "wp (checkThinPool H pool) Q s"
proof -
  have ensure: "wp (EnsureVG H vg) Q s" if "\<And>r t. view (s_world t) = view (s_world s) \<Longrightarrow> Q r t" for vg Q s
    unfolding EnsureVG_def ensureVGDiscovered_def VgExists_def scanVolumeGroups_def activateVolumeGroups_def
    by (intro wp_intro) (auto simp: bystanders_def intro: that)
  show "wp (EnsureVG H vg) Q s" by (rule ensure) (rule assms)
  show "wp (ensureCloneVolumeGroups H vg vg') Q s" unfolding ensureCloneVolumeGroups_def
    by (intro wp_intro ensure) (auto intro: assms)
  show "wp (checkThinPool H pool) Q s" unfolding checkThinPool_def validateThinPool_def
    by (intro wp_intro) (auto simp: bystanders_def intro: assms)
qed

lemma wp_pvCount [wp_intro]:
  "(\<And>r t. view (s_world t) = view (s_world s) \<Longrightarrow> Q r t) \<Longrightarrow> wp (pvCount H vg) Q s"
  unfolding pvCount_def by (intro wp_intro) (auto simp: bystanders_def)

text \<open>The commands that change the inventory.\<close>

lemma wp_lvremove [wp_intro]:
  assumes "vg_component vg" and "n \<noteq> ''''" and "ref = lv_ref vg n \<or> ref = device_path vg n"
    and "\<And>out err t. removed vg n (view (s_world s)) (view (s_world t)) \<Longrightarrow> err = None \<longrightarrow> view (s_world t) (vg, n) = None \<Longrightarrow> Q (out, err) t"
  shows "wp (Execute H ex ''lvremove'' [''-q'', ''-y'', ref]) Q s"
proof (rule wp_command)
  fix out err w
  assume x: "h_exec H (cmdTimeout ex) ''lvremove'' [''-q'', ''-y'', ref] (s_world s) = ((out, err), w)"
  from lvremove [OF assms(1-3) x] show "Q (out, err) (after H ex ''lvremove'' [''-q'', ''-y'', ref] s)"
    using assms(4) x by simp
qed

lemma wp_lvcreate_volume:
  assumes "vg_component vg" and "ty = StripedType \<or> ty = DmThinType" and "sz \<le> max_uint64"
    and "\<And>out err t. only {(vg, n)} (view (s_world s)) (view (s_world t)) \<Longrightarrow>
      err = None \<longrightarrow> (\<exists>e. view (s_world t) (vg, n) = Some e \<and> fits sz ty e) \<Longrightarrow> Q (out, err) t"
  shows "wp (Execute H ex ''lvcreate'' (lvcreate_args vg n sz ty pool pvs)) Q s"
proof (rule wp_command)
  fix out err w
  assume x: "h_exec H (cmdTimeout ex) ''lvcreate'' (lvcreate_args vg n sz ty pool pvs) (s_world s) = ((out, err), w)"
  from lvcreate_volume [OF assms(1-3) x] show "Q (out, err) (after H ex ''lvcreate'' (lvcreate_args vg n sz ty pool pvs) s)"
    using assms(4) x by simp
qed

lemma wp_lvcreate_pool:
  assumes "vg_component vg"
    and "\<And>out err t. only {(vg, pool)} (view (s_world s)) (view (s_world t)) \<Longrightarrow> Q (out, err) t"
  shows "wp (Execute H ex ''lvcreate'' (thinPoolCreateArgs vg pool)) Q s"
proof (rule wp_command)
  fix out err w
  assume x: "h_exec H (cmdTimeout ex) ''lvcreate'' (thinPoolCreateArgs vg pool) (s_world s) = ((out, err), w)"
  from lvcreate_pool [OF assms(1) x] show "Q (out, err) (after H ex ''lvcreate'' (thinPoolCreateArgs vg pool) s)"
    using assms(2) x by simp
qed

lemma wp_lvcreate_snapshot:
  assumes "vg_component vg" and "snapshot_args b src vg vsz ty clone = Some args"
    and "\<And>out err t. only {(vg, b)} (view (s_world s)) (view (s_world t)) \<Longrightarrow>
      err = None \<longrightarrow> (\<exists>e u. view (s_world t) (vg, b) = Some e \<and> view (s_world s) (vg, src) = Some u \<and> origin e = src
         \<and> (ty = DmThinType \<longrightarrow> lv_size e = lv_size u)) \<Longrightarrow> Q (out, err) t"
  shows "wp (Execute H ex ''lvcreate'' args) Q s"
proof (rule wp_command)
  fix out err w
  assume x: "h_exec H (cmdTimeout ex) ''lvcreate'' args (s_world s) = ((out, err), w)"
  from lvcreate_snapshot [OF assms(1,2) x] show "Q (out, err) (after H ex ''lvcreate'' args s)"
    using assms(3) x by simp
qed

lemma wp_lvextend:
  assumes "vg_component vg" and "sz \<le> max_uint64"
    and "\<And>out err t. grows vg n (view (s_world s)) (view (s_world t)) \<Longrightarrow>
      err = None \<longrightarrow> at_least vg n sz (view (s_world t)) \<Longrightarrow> Q (out, err) t"
  shows "wp (Execute H ex ''lvextend'' (buildLVExtendArgs vg n sz)) Q s"
proof (rule wp_command)
  fix out err w
  assume x: "h_exec H (cmdTimeout ex) ''lvextend'' (buildLVExtendArgs vg n sz) (s_world s) = ((out, err), w)"
  from lvextend [OF assms(1,2) x] show "Q (out, err) (after H ex ''lvextend'' (buildLVExtendArgs vg n sz) s)"
    using assms(3) x by simp
qed

text \<open>Removing.\<close>

lemma wp_RemoveLVSInVG [wp_intro]:
  assumes "\<And>out err t. remove_spec vg n (view (s_world s)) (err = None) (view (s_world t)) \<Longrightarrow> Q (out, err) t"
  shows "wp (RemoveLVSInVG H vg n) Q s"
  unfolding RemoveLVSInVG_def
  by (intro wp_intro disjI1 refl) (auto simp: remove_spec_def listed_def dest: names intro!: assms)

lemma wp_DeleteSnapshot [wp_intro]:
  assumes "\<And>out err t. remove_spec vg (backend_snapshot n) (view (s_world s)) (err = None) (view (s_world t)) \<Longrightarrow> Q (out, err) t"
  shows "wp (DeleteSnapshot H n vg) Q s"
  unfolding DeleteSnapshot_def Let_def
  by (intro wp_intro disjI2 refl) (auto simp: remove_spec_def listed_def backend_snapshot_def dest: names intro!: assms)

text \<open>
  The thin pool.  Its creation adds nothing but the pool, and its rollback takes nothing but the pool:
  it was not there before, so nothing can hang on it.
\<close>

lemma removed_only:
  assumes "only {(vg, p)} V V1" and "removed vg p V1 V2" and "sound V" and "V (vg, p) = None" and "p \<noteq> ''''"
  shows "only {(vg, p)} V V2"
  unfolding only_def
proof (intro allI impI)
  fix k
  assume k: "k \<notin> {(vg, p)}"
  then have V1: "V1 k = V k" using assms(1) unfolding only_def by blast
  show "V2 k = V k"
  proof (cases "V k")
    case None
    then show ?thesis using assms(2) V1 unfolding removed_def by metis
  next
    case (Some e)
    obtain g m where gm: "k = (g, m)" by (cases k)
    have "origin e \<noteq> p" "pool_lv e \<noteq> p" if "g = vg"
      using assms(3-5) Some that unfolding gm sound_def by blast+
    then have "\<not> hangs_on vg p k e" using k gm by (auto simp: hangs_on_def)
    then show ?thesis using assms(2) V1 Some unfolding removed_def by metis
  qed
qed

lemma thin_pool_name_nonempty [simp]: "thin_pool_name vg \<noteq> ''''"
  by (simp add: thin_pool_name_def)

lemma wp_createThinPool [wp_intro]:
  assumes "vg_component vg" and "sound (view (s_world s))" and "view (s_world s) (vg, p) = None" and "p \<noteq> ''''"
    and "\<And>r t. only {(vg, p)} (view (s_world s)) (view (s_world t)) \<Longrightarrow> Q r t"
  shows "wp (createThinPool H vg p) Q s"
  unfolding createThinPool_def handleThinPoolCreateError_def rollbackThinPoolCreate_def
  by (intro wp_intro wp_lvcreate_pool assms(1) disjI1 refl)
    (auto simp: assms(1,4) intro!: assms(5) dest: removed_only [OF _ _ assms(2-4)])

lemma wp_prepareThinPool [wp_intro]:
  assumes "vg_component vg" and "sound (view (s_world s))"
    and "\<And>r t. pool_step ty vg (view (s_world s)) (view (s_world t)) \<Longrightarrow> Q r t"
  shows "wp (prepareThinPool H vg ty) Q s"
  unfolding prepareThinPool_def Let_def
  by (intro wp_intro assms(1) thin_pool_name_nonempty)
    (auto simp: listed_def assms(2) pool_step_def intro!: assms(3) dest: only_preserves)

text \<open>Creating.\<close>

lemma wp_CreateLVS [wp_intro]:
  assumes "vg_component vg" and "sound (view (s_world s))" and "sz \<le> max_uint64"
    and "\<And>out err t. create_spec vg n sz ty (view (s_world s)) (err = None) (view (s_world t)) \<Longrightarrow> Q (out, err) t"
  shows "wp (CreateLVS H vg n sz ty) Q s"
proof -
  have same: "Q (out, Some e) t" if "view (s_world t) = view (s_world s)" for out e t
    using that by (intro assms(4)) (auto simp: create_spec_def)
  have pool: "Q (out, Some e) t" if "pool_step ty vg (view (s_world s)) (view (s_world t))" "listed (view (s_world s)) vg n = None" for out e t
    using create_spec_failed [OF that(1)] that(2) by (intro assms(4)) (simp add: listed_def)
  have existing: "Q (case validateExistingVolume v sz ty of None \<Rightarrow> (n, None) | Some e \<Rightarrow> ('''', Some e)) t"
    if "view (s_world t) = view (s_world s)" "listed (view (s_world s)) vg n = Some v" for v t
    using that validateExistingVolume_iff [of v sz ty]
    by (auto simp: listed_def fits_def split: option.split intro!: assms(4) create_spec_existing)
  have created: "Q (out, map_option CmdErr err) t"
    if "only {(vg, n)} V1 (view (s_world t))" "pool_step ty vg (view (s_world s)) V1" "listed (view (s_world s)) vg n = None"
      "err = None \<longrightarrow> (\<exists>e. view (s_world t) (vg, n) = Some e \<and> fits sz ty e)" for out err t V1
    using that by (intro assms(4)) (auto simp: listed_def intro!: create_specI [of ty vg _ V1])
  show ?thesis unfolding CreateLVS_def
    by (intro wp_intro assms(1,3) wp_lvcreate_volume, simp_all add: assms(2))
      (rule existing; simp; fail | erule created; simp; fail | rule same; simp; fail | rule pool; simp; fail)+
qed

text \<open>Snapshots.\<close>

lemma wp_CreateSnapshot:
  assumes b': "b' = (if \<not> clone then backend_snapshot b else b)"
    and Q: "\<And>out err t. snapshot_spec vg b' src ty (view (s_world s)) (err = None) (view (s_world t)) \<Longrightarrow> Q (out, err) t"
  shows "wp (CreateSnapshot H b src vg sz ty clone) Q s"
proof -
  have same: "Q (out, Some e) t" if "view (s_world t) = view (s_world s)" for out e t
    using that by (intro Q) (auto simp: snapshot_spec_def)
  have existing: "Q (if origin v \<noteq> src then ('''', Some e) else (b', None)) t"
    if "view (s_world t) = view (s_world s)" "listed (view (s_world s)) vg b' = Some v" "listed (view (s_world s)) vg src = Some u" for v t u e
    using that by (cases "origin v = src") (auto simp: listed_def snapshot_spec_def intro!: Q)
  have created: "Q (out, map_option CmdErr err) t"
    if "only {(vg, b')} (view (s_world t0)) (view (s_world t))" "view (s_world t0) = view (s_world s)"
      "listed (view (s_world s)) vg b' = None"
      "err = None \<longrightarrow> (\<exists>e u. view (s_world t) (vg, b') = Some e \<and> view (s_world t0) (vg, src) = Some u \<and> origin e = src
         \<and> (ty = DmThinType \<longrightarrow> lv_size e = lv_size u))" for out err t t0
    using that by (intro Q) (auto simp: listed_def snapshot_spec_def intro: only_preserves)
  have vg: "vg_component vg" if "listed V vg src = Some x" "V = view w" for V x w
    using that names by (auto simp: listed_def)
  show ?thesis unfolding CreateSnapshot_def Let_def b' [symmetric]
    by (intro wp_intro wp_lvcreate_snapshot [where vg = vg and b = b' and src = src and vsz = sz and ty = ty and clone = clone])
      (simp; fail | (rule vg; simp; fail) | (rule existing; simp; fail) | (erule created; simp; fail) | (rule same; simp; fail))+
qed

text \<open>Extending.\<close>

lemma wp_getByName [wp_intro]:
  assumes "\<And>e t. view (s_world t) = view (s_world s) \<Longrightarrow> Q (Inl e) t"
    and "\<And>v t. view (s_world t) = view (s_world s) \<Longrightarrow> lv_name v = n \<Longrightarrow>
           listed (view (s_world s)) (vg_name v) n = Some v \<Longrightarrow> Q (Inr v) t"
  shows "wp (getLogicalVolumeByName H n) Q s"
proof -
  have found: "listed V (vg_name v) n = Some v \<and> lv_name v = n"
    if "unique_by_name n None vs = Inr v" "\<And>vg m. lookup_in vg m vs = listed V vg m" for V vs v
  proof -
    have f: "filter (\<lambda>v. lv_name v = n) vs = [v]" using that(1) by (simp add: unique_by_name_iff)
    then have "v \<in> set (filter (\<lambda>v. lv_name v = n) vs)" by simp
    then have v: "v \<in> set vs" "lv_name v = n" by simp_all
    then obtain u where u: "lookup_in (vg_name v) n vs = Some u" using find_map_Some_iff [of "\<lambda>x. vg_name x = vg_name v \<and> lv_name x = n" vs] by auto
    then have "u \<in> set (filter (\<lambda>v. lv_name v = n) vs)" by (auto dest: find_Some_set)
    then show ?thesis using f u v that(2) by simp
  qed
  show ?thesis unfolding getLogicalVolumeByName_def
    by (intro wp_intro; (case_tac "unique_by_name n None vs")?) (auto intro: assms dest: found)
qed

lemma wp_getFilesystemType [wp_intro]:
  assumes "\<And>r t. view (s_world t) = view (s_world s) \<Longrightarrow> Q r t"
  shows "wp (getFilesystemType H ex p) Q s"
  unfolding getFilesystemType_def getFilesystemTypeFromWipefs_def Let_def
  by (intro wp_intro) (auto intro: assms)

lemma wp_resizeFilesystem [wp_intro]:
  assumes "\<And>r t. view (s_world t) = view (s_world s) \<Longrightarrow> Q r t"
  shows "wp (resizeFilesystem H ex v p) Q s"
  unfolding resizeFilesystem_def Let_def
  by (intro wp_intro wp_other) (auto simp: resize_command_def bystanders_def split: if_splits intro: assms)

lemma wp_ensureLogicalVolumeSize:
  assumes "listed (view (s_world s)) (vg_name v) n = Some v" and "lv_name v = n" and "sz \<le> max_uint64"
    and "\<And>out err t. extend_spec n sz (view (s_world s)) (err = None) (view (s_world t)) \<Longrightarrow> Q (out, err) t"
  shows "wp (ensureLogicalVolumeSize H ex v sz) Q s"
proof -
  from assms(1) obtain e where e: "view (s_world s) (vg_name v, n) = Some e" "v = logicalVolume.truncate e"
    by (auto simp: listed_def)
  with names have vg: "vg_component (vg_name v)" by auto
  have grown: "Q (out, err) t" if "grows (vg_name v) n (view (s_world s)) (view (s_world t))"
    "err = None \<longrightarrow> at_least (vg_name v) n sz (view (s_world t))" for out err t
    using that by (intro assms(4)) (auto simp: extend_spec_def)
  have "at_least (vg_name v) n sz (view (s_world s))" if "ParseUint (lv_size v) = Inr b" "sz \<le> b" for b
    using that e by (auto simp: at_least_def bytes_of_def)
  then show ?thesis unfolding ensureLogicalVolumeSize_def parseLogicalVolumeSize_def
    using assms(2) by (auto split: sum.split option.split intro!: wp_intro wp_lvextend [OF vg assms(3)] grown)
qed

lemma extend_spec_failed: "extend_spec n sz V ok V' \<Longrightarrow> extend_spec n sz V False V'"
  by (auto simp: extend_spec_def)

lemma wp_extendLVS [wp_intro]:
  assumes "sz \<le> max_uint64"
    and "\<And>out err t. extend_spec n sz (view (s_world s)) (err = None) (view (s_world t)) \<Longrightarrow> Q (out, err) t"
  shows "wp (extendLVS H n sz isBlock p) Q s"
proof -
  have same: "Q (out, Some e) t" if "view (s_world t) = view (s_world s)" for out e t
    using that by (intro assms(2)) (simp add: extend_spec_def)
  have kept: "Q (out, err) t" if "extend_spec n sz (view (s_world s)) True (view (s_world t))" for out err t
    using that extend_spec_failed [OF that] by (intro assms(2)) (cases err; simp)
  show ?thesis unfolding extendLVS_def
    by (intro wp_intro wp_ensureLogicalVolumeSize [OF _ _ assms(1)], simp_all)
      (erule same | rule kept, simp; fail | rule assms(2), simp; fail)+
qed

text \<open>The thin pool of a group is removed only when no volume is in it.\<close>

lemma wp_RemoveThinPool [wp_intro]:
  assumes "\<And>r t. view (s_world t) = view (s_world s)
      \<or> (removed vg (thin_pool_name vg) (view (s_world s)) (view (s_world t))
         \<and> (\<forall>n e. view (s_world s) (vg, n) = Some e \<longrightarrow> pool_lv e \<noteq> thin_pool_name vg)) \<Longrightarrow> Q r t"
  shows "wp (RemoveThinPool H vg) Q s"
proof -
  let ?Q = "\<lambda>r t. view (s_world t) = view (s_world s) \<and> (\<forall>info p c n e. r = Inr info \<longrightarrow> info p = Some c \<longrightarrow> c \<le> 0 \<longrightarrow>
      view (s_world s) (vg, n) = Some e \<longrightarrow> pool_lv e \<noteq> p)"
  have counts: "wp (getThinPoolAndCounts H vg) ?Q s"
    unfolding getThinPoolAndCounts_def thin_count_args_def [symmetric]
  proof (intro wp_bind wp_return wp_cases(4) wp_timeouts wp_command)
    fix ex :: executor and out err w out' err'
    assume x: "h_exec H (cmdTimeout ex) ''lvs'' thin_count_args (s_world s) = ((out, err), w)" "(out, err) = (out', err')"
    have "view w = view (s_world s)" using x other_commands [of "''lvs''" "cmdTimeout ex" thin_count_args "s_world s"]
      by (simp add: bystanders_def)
    then show "?Q (case err' of None \<Rightarrow> thin_counts vg Map.empty (split_on CHR 0x0A out') | Some e \<Rightarrow> Inl (CmdErr e))
        (after H ex ''lvs'' thin_count_args s)"
      using x lvs_thin_count [of "cmdTimeout ex" "s_world s" out w vg] by (auto split: option.splits)
  qed
  show ?thesis unfolding RemoveThinPool_def Let_def
    by (rule wp_bind, rule wp_mono [OF counts]) (auto intro!: wp_intro assms simp: remove_spec_def split: sum.split option.split)
qed

text \<open>The subcommands of the provisioner.\<close>

lemma wp_createLV:
  assumes "vg_component (c_String c flagVGName)" and "sound (view (s_world s))" and "c_Uint64 c flagLVSize \<le> max_uint64"
  shows "wp (createLV H c) (\<lambda>r t. create_spec (c_String c flagVGName) (c_String c flagLVName) (c_Uint64 c flagLVSize)
           (c_String c flagLVMType) (view (s_world s)) (r = None) (view (s_world t))) s"
  unfolding createLV_def require_def Let_def
  by (intro wp_intro assms) (auto simp: wrap_out_def create_spec_def assms split: option.split)

lemma wp_createSnap:
  "wp (createSnap H c) (\<lambda>r t. snapshot_spec (c_String c flagVGName) (backend_snapshot (c_String c flagSnapName))
     (c_String c flagLVName) (c_String c flagLVMType) (view (s_world s)) (r = None) (view (s_world t))) s"
  unfolding createSnap_def require_def Let_def
  by (intro wp_intro wp_CreateSnapshot [OF refl])
    (auto simp: wrap_out_def snapshot_spec_def createSnapshotForClone_def split: option.split)

lemma wp_deleteSnap:
  "wp (deleteSnap H c) (\<lambda>r t. remove_spec (c_String c flagVGName) (backend_snapshot (c_String c flagSnapName))
     (view (s_world s)) (r = None) (view (s_world t))) s"
  unfolding deleteSnap_def require_def Let_def
  by (intro wp_intro) (auto simp: wrap_out_def remove_spec_def split: option.split)

lemma wp_files [wp_intro]:
  assumes "\<And>r t. view (s_world t) = view (s_world s) \<Longrightarrow> Q r t"
  shows "wp (os_op a (h_open_read H) p) Q s" "wp (os_op a (h_open_write H) p) Q s" "wp (os_op a (h_close H) p) Q s"
    "wp (os_op a (h_copy H q) p) Q s" "wp (os_op a (h_sync H) p) Q s"
  by (simp_all add: wp_def run_simps assms files)

lemma wp_deleteLV:
  "wp (deleteLV H c) (\<lambda>r t. delete_volume_spec (c_String c flagSrcVGName) (c_String c flagLVName) (c_String c flagSrcType)
     (view (s_world s)) (r = None) (view (s_world t))) s"
proof -
  have same: "delete_volume_spec vg n ty V False V" for vg n ty V by (simp add: delete_volume_spec_def)
  show ?thesis unfolding deleteLV_def require_def Let_def
    by (intro wp_intro)
      (auto simp: same split: option.split
        intro: delete_volume_specI delete_volume_spec_failed [OF delete_volume_specI(1)] delete_volume_spec_failed [OF delete_volume_specI(2)])
qed

lemma create_clone_spec: "create_spec vg n sz ty V ok V' \<Longrightarrow> clone_spec vg n svg src sz ty False V ok V'"
  by (auto simp: create_spec_def clone_spec_def only_def split: if_splits)

lemma clone_spec_failed: "clone_spec vg n svg src sz ty thin V ok V' \<Longrightarrow> clone_spec vg n svg src sz ty thin V False V'"
  by (simp add: clone_spec_def)

lemma wp_copy_to_target [wp_intro]:
  assumes "\<And>r t. view (s_world t) = view (s_world s) \<Longrightarrow> Q r t"
  shows "wp (copy_to_target H src dst) Q s"
  unfolding copy_to_target_def deferred_close_def CloneDevice_def
  by (intro wp_intro) (auto intro: assms)

lemma wp_clone_by_copy:
  assumes "vg_component vg" and "sound (view (s_world s))" and "sz \<le> max_uint64"
    and "\<And>r t. clone_spec vg n svg src sz ty False (view (s_world s)) (r = None) (view (s_world t)) \<Longrightarrow> Q r t"
  shows "wp (clone_by_copy H svg src vg n sz ty) Q s"
proof -
  have cloned: "Q r t" if "create_spec vg n sz ty (view (s_world s)) True (view (s_world t))" for r t
    using create_clone_spec [OF that] clone_spec_failed [OF create_clone_spec [OF that]] by (intro assms(4)) (cases r; simp)
  have failed: "Q (Some e) t" if "create_spec vg n sz ty (view (s_world s)) False (view (s_world t))" for e t
    using create_clone_spec [OF that] by (intro assms(4)) simp
  have same: "create_spec vg n sz ty V False V" for V by (simp add: create_spec_def)
  show ?thesis
    unfolding clone_by_copy_def deferred_close_def Let_def
    by (intro wp_intro assms(1,3), simp_all add: assms(2))
      (rule cloned, simp; fail | rule failed, simp add: same; fail)+
qed

lemma wp_clonelv:
  assumes "vg_component (c_String c flagVGName)" and "sound (view (s_world s))" and "c_Uint64 c flagLVSize \<le> max_uint64"
  shows "wp (clonelv H c) (\<lambda>r t. clone_spec (c_String c flagVGName) (c_String c flagLVName) (c_String c flagSrcVGName)
     (c_String c flagSrcLVName) (c_Uint64 c flagLVSize) (c_String c flagLVMType) (is_thin_clone c)
     (view (s_world s)) (r = None) (view (s_world t))) s"
proof -
  have same: "clone_spec vg n svg src sz ty thin V False V" for vg n svg src sz ty thin V by (simp add: clone_spec_def)
  have thin: "clone_spec vg n svg src sz ty True V ok V'"
    if "thin_clone src svg sty vg ty" "snapshot_spec svg n src ty V ok V'" for vg n svg src sz sty ty V ok V'
    using that by (auto simp: snapshot_spec_def clone_spec_def only_def thin_clone_def)
  show ?thesis unfolding clonelv_def require_def Let_def is_thin_clone_def
    by (intro wp_intro wp_clone_by_copy assms(1,3) wp_CreateSnapshot [OF refl])
      (auto simp: same assms(2) createSnapshotForClone_def split: option.split intro: thin)
qed

end

end
