(* ===== verification/Lvm_Simulator.thy ===== *)
theory Lvm_Simulator
  imports Inventory
begin

section \<open>A concrete LVM\<close>

text \<open>
  An executable LVM on a list of entries, which answers the commands as the driver writes them: it
  prints the two \<open>lvs\<close> reports, refuses to create a volume that exists or a thin volume without a
  pool, and removes with a volume what hangs on it.  The laws of \<open>lvm_tools\<close> are discharged for it,
  and the witnesses of the properties run on it.
\<close>

subsection \<open>Words\<close>

definition plain_char :: "char \<Rightarrow> bool" where
  "plain_char c \<longleftrightarrow> 33 \<le> (of_char c :: nat) \<and> (of_char c :: nat) \<le> 126"

definition word :: "string \<Rightarrow> bool" where
  "word w \<longleftrightarrow> w \<noteq> [] \<and> list_all plain_char w"

lemma spaces_not_plain: "list_all (\<lambda>p. \<not> plain_char (hd p)) space_seqs"
  by code_simp

lemma strip_plain: "plain_char c \<Longrightarrow> strip_space space_seqs (c # s) = None"
  using spaces_not_plain by (auto simp: strip_space_def find_None_iff list_all_iff prefix_def neq_Nil_conv)

lemma fields_acc_plain: "list_all plain_char w \<Longrightarrow> fields_acc cur (w @ s) = fields_acc (cur @ w) s"
proof (induction w arbitrary: cur)
  case Nil
  then show ?case by simp
next
  case (Cons c w)
  then have "fields_acc cur (c # w @ s) = fields_acc (cur @ [c]) (w @ s)"
    by (subst fields_acc.simps) (simp add: strip_plain)
  with Cons show ?case by simp
qed

lemma fields_acc_space: "cur \<noteq> [] \<Longrightarrow> fields_acc cur (CHR '' '' # s) = cur # fields_acc [] s"
proof -
  have "strip_space space_seqs (CHR '' '' # s) = Some s" by (simp add: strip_space_def space_seqs_def)
  then show "cur \<noteq> [] \<Longrightarrow> fields_acc cur (CHR '' '' # s) = cur # fields_acc [] s"
    by (subst fields_acc.simps) simp
qed

lemma fields_acc_end: "cur \<noteq> [] \<Longrightarrow> fields_acc cur [] = [cur]"
  by (subst fields_acc.simps) simp

lemma Fields_words: "word a \<Longrightarrow> word b \<Longrightarrow> word c \<Longrightarrow> word d \<Longrightarrow>
  Fields (a @ '' '' @ b @ '' '' @ c @ '' '' @ d) = [a, b, c, d]"
  using fields_acc_plain [of d "[]" "[]"]
  by (simp add: Fields_def word_def fields_acc_plain fields_acc_space fields_acc_end)

lemma word_show_nat: "word (show_nat n)"
  using show_nat_digits [of n] by (auto simp: word_def plain_char_def is_digit_def list_all_iff)

lemma word_no_newline: "word w \<Longrightarrow> CHR 0x0A \<notin> set w"
  by (auto simp: word_def plain_char_def list_all_iff)

lemma rev_spaces_not_plain: "list_all (\<lambda>p. \<not> plain_char (hd p)) (map rev space_seqs)"
  by code_simp

lemma TrimSpace_word: "word w \<Longrightarrow> TrimSpace w = w"
proof -
  assume w: "word w"
  have left: "trim_left space_seqs w = w" using w strip_plain
    by (cases w) (auto simp: word_def intro!: trim_left_id)
  have "strip_space (map rev space_seqs) (rev w) = None"
  proof (cases w rule: rev_cases)
    case (snoc u c)
    then have "plain_char c" using w by (simp add: word_def)
    then show ?thesis using rev_spaces_not_plain snoc
      by (auto simp: strip_space_def find_None_iff list_all_iff prefix_def neq_Nil_conv)
  qed simp
  then show "TrimSpace w = w" using left by (simp add: TrimSpace_def trim_right_def trim_left_id)
qed

lemma TrimSpace_empty [simp]: "TrimSpace '''' = ''''"
  by (simp add: TrimSpace_def trim_right_def trim_left_id)

subsection \<open>The commands\<close>

definition at :: "string \<Rightarrow> string \<Rightarrow> lv_entry \<Rightarrow> bool" where
  "at vg n e \<longleftrightarrow> vg_name e = vg \<and> lv_name e = n"

definition sim_view :: "lv_entry list \<Rightarrow> inventory" where
  "sim_view w = (\<lambda>(vg, n). if vg_component vg \<and> n \<noteq> '''' then find (at vg n) w else None)"

definition clean :: "lv_entry \<Rightarrow> bool" where
  "clean e \<longleftrightarrow> normalizeLogicalVolume (logicalVolume.truncate e) = logicalVolume.truncate e
     \<and> vg_component (vg_name e) \<and> lv_name e \<noteq> ''''"

lemma clean_words:
  assumes "vg_component (vg_name e)" and "word (lv_name e)" and "word (vg_name e)"
    and "\<forall>f \<in> {lv_size e, segtype e, origin e}. f = '''' \<or> word f"
  shows "clean e"
proof -
  have "TrimSpace f = f" if "f = '''' \<or> word f" for f using that TrimSpace_word by auto
  then show ?thesis using assms
    by (auto simp: clean_def normalizeLogicalVolume_def logicalVolume.truncate_def word_def)
qed

definition thin_count :: "lv_entry list \<Rightarrow> lv_entry \<Rightarrow> nat" where
  "thin_count w p = length (filter (\<lambda>e. vg_name e = vg_name p \<and> pool_lv e = lv_name p) w)"

definition thin_line :: "lv_entry list \<Rightarrow> lv_entry \<Rightarrow> string" where
  "thin_line w p = vg_name p @ '' '' @ segtype p @ '' '' @ lv_name p @ '' '' @ show_nat (thin_count w p)"

definition plain_entry :: "lv_entry \<Rightarrow> bool" where
  "plain_entry e \<longleftrightarrow> word (vg_name e) \<and> word (segtype e) \<and> word (lv_name e)"

text \<open>The volume group and the volume that a reference names.\<close>

definition ref_parts :: "string \<Rightarrow> string \<times> string" where
  "ref_parts ref = (let r = trim_prefix ref ''/dev/''; vg = takeWhile (\<lambda>c. c \<noteq> CHR ''/'') r
     in (vg, drop (length vg + 1) r))"

definition create_entry ::
  "string \<Rightarrow> string \<Rightarrow> string \<Rightarrow> string \<Rightarrow> string \<Rightarrow> string \<Rightarrow> lv_entry" where
  "create_entry vg n sz seg orig pool = \<lparr>lv_name = n, vg_name = vg, lv_size = sz, segtype = seg, origin = orig, pool_lv = pool\<rparr>"

text \<open>The entry that an \<open>lvcreate\<close> command line asks for; a snapshot needs its origin.\<close>

definition asked :: "string list \<Rightarrow> lv_entry list \<Rightarrow> lv_entry option" where
  "asked args w =
     (if hd args = ''-s'' then
        (case ref_parts (last args) of (vg, src) \<Rightarrow>
           (let tagged = (args ! 2 = ''-a''); b = (if tagged then args ! 5 else args ! 3);
                thick = (length args = (if tagged then 9 else 7))
            in case sim_view w (vg, src) of
                 None \<Rightarrow> None
               | Some u \<Rightarrow> Some (create_entry vg b (lv_size u) (if thick then LinearType else ThinVolType) src
                                 (if thick then '''' else pool_lv u))))
      else if hd args = ''--type'' then
        Some (create_entry (last args) (args ! 3) ''0'' ThinPoolType '''' '''')
      else if args ! 6 = ''-V'' then
        Some (create_entry (args ! 10) (args ! 3) (butlast (args ! 7)) ThinVolType '''' (args ! 9))
      else Some (create_entry (args ! 12) (args ! 3) (butlast (args ! 7)) StripedType '''' ''''))"

definition set_size :: "string \<Rightarrow> string \<Rightarrow> string \<Rightarrow> lv_entry \<Rightarrow> lv_entry" where
  "set_size vg n sz e =
     (if at vg n e \<and> (case (ParseUint (lv_size e), ParseUint sz) of (Inr b, Inr b') \<Rightarrow> b < b' | _ \<Rightarrow> False)
      then e\<lparr>lv_size := sz\<rparr> else e)"

definition sim_exec ::
  "int \<Rightarrow> string \<Rightarrow> string list \<Rightarrow> lv_entry list \<Rightarrow> (string \<times> cmd_error option) \<times> lv_entry list" where
  "sim_exec t c args w =
     (let failed = (('''', Some (exit_error 5)), w) in
      if c = ''lvs'' \<and> args = lvs_args then
        (if list_all clean w then ((print_report [map logicalVolume.truncate w], None), w) else failed)
      else if c = ''lvs'' \<and> args = thin_count_args then
        (if list_all plain_entry w then
           ((join [CHR 0x0A] (map (thin_line w) (filter (\<lambda>e. segtype e = ThinPoolType) w)), None), w)
         else failed)
      else if c = ''lvs'' then ((''twi-aotz--'', None), w)
      else if c = ''vgs'' then ((if last args = ''pv_count'' then ''1'' else hd args, None), w)
      else if c = ''lvcreate'' then
        (case asked args w of
           None \<Rightarrow> failed
         | Some e \<Rightarrow>
             if vg_component (vg_name e) \<and> lv_name e \<noteq> '''' \<and> sim_view w (vg_name e, lv_name e) = None
                \<and> (pool_lv e = '''' \<or> sim_view w (vg_name e, pool_lv e) \<noteq> None)
             then (('''', None), e # w) else failed)
      else if c = ''lvremove'' then
        (case ref_parts (last args) of (vg, n) \<Rightarrow>
           (('''', None), filter (\<lambda>e. \<not> (vg_name e = vg \<and> (lv_name e = n \<or> origin e = n \<or> pool_lv e = n))) w))
      else if c = ''lvextend'' then
        (case ref_parts (last args) of (vg, n) \<Rightarrow>
           (case sim_view w (vg, n) of
              None \<Rightarrow> failed
            | Some e \<Rightarrow> (case ParseUint (lv_size e) of
                           Inl _ \<Rightarrow> failed
                         | Inr _ \<Rightarrow> (('''', None), map (set_size vg n (butlast (args ! 1))) w))))
      else (('''', None), w))"

definition sim_host :: "lv_entry list host" where
  "sim_host = quiet_host sim_exec"

lemma sim_host_simps [simp]: "h_exec sim_host = sim_exec" "h_timed sim_host"
  by (simp_all add: sim_host_def)

subsection \<open>The laws\<close>

lemma ref_parts_ref [simp]:
  "vg_component vg \<Longrightarrow> ref_parts (lv_ref vg n) = (vg, n)" "vg_component vg \<Longrightarrow> ref_parts (device_path vg n) = (vg, n)"
proof -
  assume vg: "vg_component vg"
  then have tw: "takeWhile (\<lambda>c. c \<noteq> CHR ''/'') (vg @ CHR ''/'' # n) = vg"
    unfolding vg_component_def by (subst takeWhile_append2) auto
  have "\<not> prefix ''/dev/'' (vg @ CHR ''/'' # n)" using vg by (cases vg) (auto simp: vg_component_def)
  then show "ref_parts (lv_ref vg n) = (vg, n)" using tw by (simp add: ref_parts_def lv_ref_def trim_prefix_def)
  show "ref_parts (device_path vg n) = (vg, n)" using tw
    by (simp add: ref_parts_def device_path_def trim_prefix_def)
qed

lemma find_filter_Some: "find P w = Some e \<Longrightarrow> R e \<Longrightarrow> find P (filter R w) = Some e"
  by (induction w) (auto split: if_splits)

lemma find_filter_None: "find P w = None \<Longrightarrow> find P (filter R w) = None"
  by (auto simp: find_None_iff)

lemma find_map_same: "(\<And>e. P (f e) = P e) \<Longrightarrow> find P (map f w) = map_option f (find P w)"
  by (induction w) auto

lemma lookup_sim:
  assumes "list_all clean w"
  shows "lookup_in vg n (map logicalVolume.truncate w) = listed (sim_view w) vg n"
proof -
  have "lookup_in vg n (map logicalVolume.truncate w) = map_option logicalVolume.truncate (find (at vg n) w)"
    by (induction w) (auto simp: at_def)
  moreover have "find (at vg n) w = None" if "\<not> (vg_component vg \<and> n \<noteq> '''')"
    using assms that by (auto simp: find_None_iff at_def list_all_iff clean_def)
  ultimately show ?thesis by (auto simp: listed_def sim_view_def)
qed

lemma lvs_sim: "list_all clean w \<Longrightarrow> lvs_volumes (print_report [map logicalVolume.truncate w], None) = Inr (map logicalVolume.truncate w)"
  by (induction w) (auto simp: lvs_volumes_def decode_print_report clean_def)

lemma sim_view_Nil [simp]: "sim_view [] = Map.empty"
  by (auto simp: sim_view_def fun_eq_iff)

lemma sim_view_Cons:
  "vg_component (vg_name e) \<Longrightarrow> lv_name e \<noteq> '''' \<Longrightarrow> sim_view (e # w) = (sim_view w)((vg_name e, lv_name e) := Some e)"
  by (auto simp: sim_view_def at_def fun_eq_iff)

lemma sim_create:
  assumes "sim_exec t ''lvcreate'' args w = ((out, err), w')"
  shows "case asked args w of
      None \<Rightarrow> err \<noteq> None \<and> w' = w
    | Some e \<Rightarrow> only {(vg_name e, lv_name e)} (sim_view w) (sim_view w')
        \<and> (err = None \<longrightarrow> sim_view w' (vg_name e, lv_name e) = Some e)"
  using assms sim_view_Cons [of _ w]
  by (auto simp: sim_exec_def only_def split: option.splits if_splits)

lemma asked_args:
  "asked (lvcreate_args vg n sz StripedType pool pvs) w = Some (create_entry vg n (show_nat sz) StripedType '''' '''')"
  "asked (lvcreate_args vg n sz DmThinType pool pvs) w = Some (create_entry vg n (show_nat sz) ThinVolType '''' pool)"
  "asked (thinPoolCreateArgs vg n) w = Some (create_entry vg n ''0'' ThinPoolType '''' '''')"
  by (simp_all add: asked_def lvcreate_args_def thinPoolCreateArgs_def bytes_arg_def lvm_types)

lemma asked_snapshot:
  assumes "vg_component vg" and "snapshot_args b src vg vsz ty clone = Some args"
  shows "asked args w = (case sim_view w (vg, src) of
      None \<Rightarrow> None
    | Some u \<Rightarrow> Some (create_entry vg b (lv_size u) (if ty = StripedType then LinearType else ThinVolType) src
                      (if ty = StripedType then '''' else pool_lv u)))"
proof -
  have ne: "DmThinType \<noteq> StripedType" by (simp add: lvm_types)
  from assms(2) consider "ty = StripedType" "args = [''-s'', ''-y'', ''-n'', b, ''-L'', show_int vsz @ ''b'', lv_ref vg src]"
    | "ty = StripedType" "args = [''-s'', ''-y'', ''-a'', ''n'', ''-n'', b, ''-L'', show_int vsz @ ''b'', lv_ref vg src]"
    | "ty = DmThinType" "args = [''-s'', ''-y'', ''-n'', b, lv_ref vg src]"
    | "ty = DmThinType" "args = [''-s'', ''-y'', ''-a'', ''n'', ''-n'', b, lv_ref vg src]"
    by (auto simp: snapshot_args_def Let_def split: if_splits)
  then show ?thesis by cases (simp_all add: asked_def assms(1) ne split: option.split)
qed

lemma create_entry_simps [simp]:
  "lv_name (create_entry vg n sz seg orig pool) = n" "vg_name (create_entry vg n sz seg orig pool) = vg"
  "lv_size (create_entry vg n sz seg orig pool) = sz" "segtype (create_entry vg n sz seg orig pool) = seg"
  "origin (create_entry vg n sz seg orig pool) = orig" "pool_lv (create_entry vg n sz seg orig pool) = pool"
  by (simp_all add: create_entry_def)

lemma sim_lvcreate:
  "vg_component vg \<Longrightarrow> ty = StripedType \<or> ty = DmThinType \<Longrightarrow> sz \<le> max_uint64 \<Longrightarrow>
     sim_exec t ''lvcreate'' (lvcreate_args vg n sz ty pool pvs) w = ((out, err), w') \<Longrightarrow>
     only {(vg, n)} (sim_view w) (sim_view w') \<and> (err = None \<longrightarrow> (\<exists>e. sim_view w' (vg, n) = Some e \<and> fits sz ty e))"
  "sim_exec t ''lvcreate'' (thinPoolCreateArgs vg pool) w = ((out, err), w') \<Longrightarrow> only {(vg, pool)} (sim_view w) (sim_view w')"
  using sim_create [of t "lvcreate_args vg n sz ty pool pvs" w out err w'] sim_create [of t "thinPoolCreateArgs vg pool" w out err w']
  by (auto simp: asked_args fits_def compatible_def ParseUint_show_nat)

lemma sim_snapshot:
  assumes "vg_component vg" and "snapshot_args b src vg vsz ty clone = Some args"
    and "sim_exec t ''lvcreate'' args w = ((out, err), w')"
  shows "only {(vg, b)} (sim_view w) (sim_view w') \<and>
      (err = None \<longrightarrow> (\<exists>e u. sim_view w' (vg, b) = Some e \<and> sim_view w (vg, src) = Some u \<and> origin e = src
         \<and> (ty = DmThinType \<longrightarrow> lv_size e = lv_size u)))"
  using sim_create [OF assms(3)] asked_snapshot [OF assms(1,2), of w] by (auto split: option.splits)

lemma sim_lvremove:
  assumes "vg_component vg" and "n \<noteq> ''''" and "ref = lv_ref vg n \<or> ref = device_path vg n"
    and "sim_exec t ''lvremove'' [''-q'', ''-y'', ref] w = ((out, err), w')"
  shows "removed vg n (sim_view w) (sim_view w') \<and> (err = None \<longrightarrow> sim_view w' (vg, n) = None)"
proof -
  let ?R = "\<lambda>e. \<not> (vg_name e = vg \<and> (lv_name e = n \<or> origin e = n \<or> pool_lv e = n))"
  have w': "w' = filter ?R w" using assms by (auto simp: sim_exec_def)
  have "sim_view w' k = Some e" if k: "sim_view w k = Some e" "\<not> hangs_on vg n k e" for k e
  proof -
    obtain g m where gm: "k = (g, m)" by (cases k)
    then have f: "find (at g m) w = Some e" "vg_component g \<and> m \<noteq> ''''" using k(1) by (auto simp: sim_view_def split: if_splits)
    then have "at g m e" by (auto dest: find_Some_set)
    then have "?R e" using k(2) gm by (auto simp: at_def hangs_on_def)
    then show ?thesis using find_filter_Some [OF f(1)] f(2) gm w' by (simp add: sim_view_def)
  qed
  moreover have "sim_view w' k = None" if "sim_view w k = None" for k
    using that w' by (auto simp: sim_view_def split: if_splits prod.splits intro: find_filter_None)
  moreover have "sim_view w' (vg, n) = None" using w' by (auto simp: sim_view_def find_None_iff at_def)
  ultimately show ?thesis by (simp add: removed_def)
qed

lemma set_size_at: "at g m (set_size vg n sz e) = at g m e"
  by (simp add: set_size_def at_def)

lemma find_set_size: "find (at g m) (map (set_size vg n sz) w) = map_option (set_size vg n sz) (find (at g m) w)"
  by (rule find_map_same) (rule set_size_at)

lemma sim_view_set_size:
  "sim_view (map (set_size vg n sz) w) k = (if k = (vg, n) then map_option (set_size vg n sz) (sim_view w k) else sim_view w k)"
proof -
  have "map_option (set_size vg n sz) (find (at g m) w) = find (at g m) w" if "(g, m) \<noteq> (vg, n)" for g m
  proof (cases "find (at g m) w")
    case (Some e)
    then have "at g m e" by (auto dest: find_Some_set)
    then show ?thesis using Some that by (auto simp: set_size_def at_def)
  qed simp
  then show ?thesis by (cases k) (auto simp: sim_view_def find_set_size)
qed

lemma sim_lvextend:
  assumes "vg_component vg" and "sz \<le> max_uint64"
    and "sim_exec t ''lvextend'' (buildLVExtendArgs vg n sz) w = ((out, err), w')"
  shows "grows vg n (sim_view w) (sim_view w') \<and> (err = None \<longrightarrow> at_least vg n sz (sim_view w'))"
proof -
  let ?f = "set_size vg n (show_nat sz)"
  have parts: "ref_parts (last (buildLVExtendArgs vg n sz)) = (vg, n)" "butlast (buildLVExtendArgs vg n sz ! 1) = show_nat sz"
    using assms(1) by (simp_all add: buildLVExtendArgs_def bytes_arg_def)
  consider "err \<noteq> None" "w' = w" | e b where "sim_view w (vg, n) = Some e" "bytes_of e b" "w' = map ?f w"
    using assms(3) parts by (auto simp: sim_exec_def bytes_of_def Let_def split: option.splits sum.splits)
  then show ?thesis
  proof cases
    case 1
    then show ?thesis by auto
  next
    case 2
    have "find (at vg n) w = Some e" using 2(1) by (auto simp: sim_view_def split: if_splits)
    then have e: "at vg n e" by (auto dest: find_Some_set)
    have new: "sim_view w' (vg, n) = Some (?f e)" using 2 by (simp add: sim_view_set_size)
    have size: "bytes_of (?f e) (max b sz)" "segtype (?f e) = segtype e" "origin (?f e) = origin e" "pool_lv (?f e) = pool_lv e"
      using e 2(2) ParseUint_show_nat [OF assms(2)] by (auto simp: set_size_def bytes_of_def max_def)
    have "grows vg n (sim_view w) (sim_view w')"
      unfolding grows_def
    proof (intro conjI allI impI)
      show "only {(vg, n)} (sim_view w) (sim_view w')" using 2(3) by (auto simp: only_def sim_view_set_size)
      fix e' b'
      assume "sim_view w (vg, n) = Some e'" "bytes_of e' b'"
      then have "e' = e" "b' = b" using 2(1,2) by (auto simp: bytes_of_def)
      then show "\<exists>e'' b''. sim_view w' (vg, n) = Some e'' \<and> bytes_of e'' b'' \<and> b' \<le> b'' \<and> segtype e'' = segtype e'
          \<and> origin e'' = origin e' \<and> pool_lv e'' = pool_lv e'"
        using new size by (intro exI [of _ "?f e"] exI [of _ "max b sz"]) simp
    qed
    moreover have "at_least vg n sz (sim_view w')" using new size(1) unfolding at_least_def
      by (intro exI [of _ "?f e"] exI [of _ "max b sz"]) simp
    ultimately show ?thesis by simp
  qed
qed

text \<open>The report of thin pools is read back as printed.\<close>

lemma Atoi_show_nat: "Atoi (show_nat n) = Inr i \<Longrightarrow> i = int n"
proof -
  have hd: "hd (show_nat n) \<noteq> CHR ''-''" "hd (show_nat n) \<noteq> CHR ''+''"
    using show_nat_hd_digit [of n] by (auto simp: is_digit_def)
  assume "Atoi (show_nat n) = Inr i"
  then show "i = int n" using hd
    by (auto simp: ParseInt_def ParseUint_def Let_def split: sum.splits if_splits)
qed

lemma thin_counts_lines:
  assumes "list_all plain_entry ps" and "thin_counts vg info (map (thin_line w) ps) = Inr info'" and "info' p = Some cnt"
  shows "info p = Some cnt \<or> (\<exists>q. vg_name q = vg \<and> lv_name q = p \<and> cnt = int (thin_count w q))"
  using assms
proof (induction ps arbitrary: info)
  case Nil
  then show ?case by simp
next
  case (Cons q ps)
  have q: "word (vg_name q)" "word (segtype q)" "word (lv_name q)" using Cons.prems(1) by (simp_all add: plain_entry_def)
  have f: "Fields (thin_line w q) = [vg_name q, segtype q, lv_name q, show_nat (thin_count w q)]"
    unfolding thin_line_def by (rule Fields_words [OF q word_show_nat])
  have ne: "thin_line w q \<noteq> ''''" using q(1) by (auto simp: thin_line_def)
  show ?case
  proof (cases "vg_name q = vg \<and> segtype q = ThinPoolType")
    case False
    then have "thin_counts vg info (map (thin_line w) ps) = Inr info'" using Cons.prems(2) f ne by (auto simp: Let_def)
    then show ?thesis using Cons by simp
  next
    case True
    obtain i where i: "Atoi (show_nat (thin_count w q)) = Inr i"
      and rest: "thin_counts vg (info(lv_name q \<mapsto> i)) (map (thin_line w) ps) = Inr info'"
      using Cons.prems(2) f ne True by (auto simp: Let_def split: sum.splits)
    have "(info(lv_name q \<mapsto> i)) p = Some cnt \<or> (\<exists>q. vg_name q = vg \<and> lv_name q = p \<and> cnt = int (thin_count w q))"
      using Cons.IH [OF _ rest Cons.prems(3)] Cons.prems(1) by simp
    then show ?thesis using True Atoi_show_nat [OF i] by (auto split: if_splits)
  qed
qed

lemma thin_line_no_newline: "plain_entry q \<Longrightarrow> CHR 0x0A \<notin> set (thin_line w q)"
  using word_no_newline [OF word_show_nat [of "thin_count w q"]]
  by (auto simp: thin_line_def plain_entry_def dest: word_no_newline)

lemma thin_report_lines:
  assumes "list_all plain_entry ps"
  shows "split_on CHR 0x0A (join [CHR 0x0A] (map (thin_line w) ps)) = (if ps = [] then [''''] else map (thin_line w) ps)"
proof (cases ps)
  case (Cons q qs)
  then show ?thesis using assms by (simp add: split_on_join thin_line_no_newline list_all_iff)
qed simp

lemma sim_thin_count:
  assumes "sim_exec t ''lvs'' thin_count_args w = ((out, None), w')"
    and "thin_counts vg Map.empty (split_on CHR 0x0A out) = Inr info" and "info p = Some cnt" and "cnt \<le> 0"
    and "sim_view w (vg, n) = Some e"
  shows "pool_lv e \<noteq> p"
proof
  assume p: "pool_lv e = p"
  let ?ps = "filter (\<lambda>e. segtype e = ThinPoolType) w"
  have "thin_count_args \<noteq> lvs_args" by (simp add: thin_count_args_def lvs_args_def)
  then have "list_all plain_entry w" and out: "out = join [CHR 0x0A] (map (thin_line w) ?ps)"
    using assms(1) by (auto simp: sim_exec_def Let_def split: if_splits)
  then have ps: "list_all plain_entry ?ps" by (auto simp: list_all_iff)
  have "thin_counts vg Map.empty (map (thin_line w) ?ps) = Inr info"
    using assms(2) thin_report_lines [OF ps, of w] unfolding out by (cases "?ps = []") auto
  from thin_counts_lines [OF ps this assms(3)] obtain q where q: "vg_name q = vg" "lv_name q = p" "thin_count w q = 0"
    using assms(4) by auto
  have "find (at vg n) w = Some e" using assms(5) by (auto simp: sim_view_def split: if_splits)
  then have "e \<in> set w" "vg_name e = vg" by (auto dest!: find_Some_set simp: at_def)
  then have "e \<in> set (filter (\<lambda>e. vg_name e = vg_name q \<and> pool_lv e = lv_name q) w)" using p q by simp
  then show False using q(3) unfolding thin_count_def by (cases "filter (\<lambda>e. vg_name e = vg_name q \<and> pool_lv e = lv_name q) w") auto
qed

interpretation sim: lvm_tools sim_host sim_view
proof unfold_locales
  show "lookup_in vg n vs = listed (sim_view w) vg n"
    if "h_exec sim_host t ''lvs'' lvs_args w = ((out, None), w')" "lvs_volumes (out, None) = Inr vs" for t w out w' vs vg n
  proof -
    have "list_all clean w \<and> out = print_report [map logicalVolume.truncate w]"
      using that(1) by (auto simp: sim_exec_def Let_def split: if_splits)
    then show ?thesis using that(2) lookup_sim [of w vg n] lvs_sim [of w] by auto
  qed
  show "sim_view (snd (h_exec sim_host t c args w)) = sim_view w" if "c \<in> bystanders" for t c args w
    using that by (auto simp: sim_exec_def Let_def bystanders_def)
  show "vg_component vg \<and> n \<noteq> ''''" if "sim_view w (vg, n) = Some e" for w vg n e
    using that by (auto simp: sim_view_def split: if_splits)
qed (auto simp: sim_host_def dest: sim_thin_count sim_lvcreate sim_snapshot sim_lvextend sim_lvremove)

end
