(* ===== verification/Command_Line.thy ===== *)
theory Command_Line
  imports Helper_Pod Provisioner
begin

section \<open>From the controller to the provisioner\<close>

text \<open>
  The controller and the provisioner meet in the arguments of a helper pod.  The command line library
  between them is a parameter: \<open>parsed flags c args\<close> is its documented behaviour on arguments of the
  form \<open>--flag value\<close>, that each names a declared flag and that the context \<open>c\<close> returns the value,
  read as the flag's kind.
\<close>

definition flag_set :: "(string \<times> flag_kind) list \<Rightarrow> cli_context \<Rightarrow> string \<Rightarrow> string \<Rightarrow> bool" where
  "flag_set flags c a v \<longleftrightarrow>
     (case find (\<lambda>(f, k). a = ''--'' @ f) flags of
        None \<Rightarrow> False
      | Some (f, StringFlag) \<Rightarrow> c_String c f = v
      | Some (f, Uint64Flag) \<Rightarrow> ParseUint v = Inr (c_Uint64 c f)
      | Some (f, Int64Flag) \<Rightarrow> ParseInt v = Inr (c_Int64 c f))"

fun parsed :: "(string \<times> flag_kind) list \<Rightarrow> cli_context \<Rightarrow> string list \<Rightarrow> bool" where
  "parsed flags c [] \<longleftrightarrow> True"
| "parsed flags c [a] \<longleftrightarrow> False"
| "parsed flags c (a # v # rest) \<longleftrightarrow> flag_set flags c a v \<and> parsed flags c rest"

text \<open>The values that the command of an action has to receive.\<close>

definition same_volume :: "volumeAction \<Rightarrow> cli_context \<Rightarrow> bool" where
  "same_volume a c \<longleftrightarrow> c_String c flagLVName = va_name a \<and>
     (if va_action a = actionTypeCreate then
        c_String c flagVGName = va_vgName a \<and> c_String c flagLVMType = va_lvmType a \<and> int (c_Uint64 c flagLVSize) = va_size a
      else \<exists>i. va_srcInfo a = Some i \<and> c_String c flagSrcVGName = srcVGName i \<and> c_String c flagSrcType = srcType i \<and>
        (va_action a = actionTypeDelete
         \<or> c_String c flagSrcLVName = srcLVName i \<and> c_String c flagVGName = va_vgName a
           \<and> c_String c flagLVMType = va_lvmType a \<and> int (c_Uint64 c flagLVSize) = va_size a))"

definition same_snapshot :: "snapshotAction \<Rightarrow> cli_context \<Rightarrow> bool" where
  "same_snapshot a c \<longleftrightarrow> c_String c flagSnapName = sa_snapshotName a \<and> c_String c flagVGName = sa_vgName a \<and>
     (sa_action a = actionTypeCreate \<longrightarrow> c_String c flagLVName = sa_srcVolName a \<and> c_String c flagLVMType = sa_lvType a
        \<and> c_Int64 c flagLVSize = sa_snapSize a)"

lemma flag_set_simps [simp]:
  "flag_set ((f, k) # flags) c a v \<longleftrightarrow>
     (if a = ''--'' @ f then
        (case k of StringFlag \<Rightarrow> c_String c f = v | Uint64Flag \<Rightarrow> ParseUint v = Inr (c_Uint64 c f)
         | Int64Flag \<Rightarrow> ParseInt v = Inr (c_Int64 c f))
      else flag_set flags c a v)"
  "flag_set [] c a v \<longleftrightarrow> False"
  by (simp_all add: flag_set_def split: flag_kind.splits)

lemma ParseUint_show_int: "0 \<le> n \<Longrightarrow> n \<le> int max_uint64 \<Longrightarrow> ParseUint (show_int n) = Inr (nat n)"
  by (simp add: show_int_def ParseUint_show_nat nat_le_iff)


lemmas command_tables = commands_def createLVCmd_def deleteLVCmd_def createSnapCmd_def deleteSnapCmd_def cloneLVCmd_def

lemma command_members:
  "createLVCmd H \<in> set (commands H)" "deleteLVCmd H \<in> set (commands H)" "createSnapCmd H \<in> set (commands H)"
  "deleteSnapCmd H \<in> set (commands H)" "cloneLVCmd H \<in> set (commands H)"
  "cmd_name (createLVCmd H) = ''createlv''" "cmd_name (deleteLVCmd H) = ''deletelv''" "cmd_name (createSnapCmd H) = ''createsnap''"
  "cmd_name (deleteSnapCmd H) = ''deletesnap''" "cmd_name (cloneLVCmd H) = ''clonelv''"
  by (simp_all add: command_tables)

text \<open>A context that returns the values of an association list and one number.\<close>

definition context_of :: "(string \<times> string) list \<Rightarrow> nat \<Rightarrow> int \<Rightarrow> cli_context" where
  "context_of strs n i = \<lparr>c_String = (\<lambda>f. case map_of strs f of None \<Rightarrow> '''' | Some v \<Rightarrow> v), c_Uint64 = (\<lambda>_. n), c_Int64 = (\<lambda>_. i),
     c_Duration = (\<lambda>_. 0)\<rparr>"

lemma context_of_simps [simp]:
  "c_String (context_of strs n i) f = (case map_of strs f of None \<Rightarrow> '''' | Some v \<Rightarrow> v)"
  "c_Uint64 (context_of strs n i) f = n" "c_Int64 (context_of strs n i) f = i"
  by (simp_all add: context_of_def)


subsection \<open>What a command gets\<close>

lemma parsed_append: "parsed flags c (xs @ ys) \<Longrightarrow> even (length xs) \<Longrightarrow> parsed flags c xs"
  by (induction flags c xs rule: parsed.induct) auto

lemma command_by_name:
  "cmd \<in> set (commands H) \<Longrightarrow> cmd_name cmd = ''createlv'' \<Longrightarrow> cmd = createLVCmd H"
  "cmd \<in> set (commands H) \<Longrightarrow> cmd_name cmd = ''deletelv'' \<Longrightarrow> cmd = deleteLVCmd H"
  "cmd \<in> set (commands H) \<Longrightarrow> cmd_name cmd = ''clonelv'' \<Longrightarrow> cmd = cloneLVCmd H"
  "cmd \<in> set (commands H) \<Longrightarrow> cmd_name cmd = ''createsnap'' \<Longrightarrow> cmd = createSnapCmd H"
  "cmd \<in> set (commands H) \<Longrightarrow> cmd_name cmd = ''deletesnap'' \<Longrightarrow> cmd = deleteSnapCmd H"
  by (auto simp: commands_def command_members; simp add: command_tables)+

lemma volume_args_cases:
  assumes "volumeHelperArgs a = Inr args"
  obtains (create) "va_action a = actionTypeCreate" "args = [''createlv'', ''--lvsize'', show_int (va_size a),
        ''--lvmtype'', va_lvmType a, ''--vgname'', va_vgName a, ''--lvname'', va_name a]"
  | (delete) i where "va_action a = actionTypeDelete" "va_srcInfo a = Some i"
        "args = [''deletelv'', ''--srcvgname'', srcVGName i, ''--srctype'', srcType i, ''--lvname'', va_name a]"
  | (clone) i where "va_action a = actionTypeClone" "va_srcInfo a = Some i"
        "args = [''clonelv'', ''--srclvname'', srcLVName i, ''--srcvgname'', srcVGName i, ''--srctype'', srcType i,
           ''--lvsize'', show_int (va_size a), ''--vgname'', va_vgName a, ''--lvmtype'', va_lvmType a, ''--lvname'', va_name a]"
  using assms unfolding volumeHelperArgs_def by (auto split: if_splits option.splits)

lemma snapshot_args_cases:
  assumes "snapshotHelperArgs a = Inr args"
  obtains (create) "sa_action a = actionTypeCreate" "args = [''createsnap'', ''--snapname'', sa_snapshotName a, ''--lvname'', sa_srcVolName a,
             ''--vgname'', sa_vgName a, ''--lvsize'', show_int (sa_snapSize a), ''--lvmtype'', sa_lvType a]"
  | (delete) "sa_action a = actionTypeDelete" "args = [''deletesnap'', ''--snapname'', sa_snapshotName a, ''--vgname'', sa_vgName a]"
  using assms unfolding snapshotHelperArgs_def by (auto split: if_splits)

lemma actions_differ [simp]:
  "actionTypeCreate \<noteq> actionTypeDelete" "actionTypeCreate \<noteq> actionTypeClone" "actionTypeDelete \<noteq> actionTypeClone"
  "actionTypeDelete \<noteq> actionTypeCreate" "actionTypeClone \<noteq> actionTypeCreate" "actionTypeClone \<noteq> actionTypeDelete"
  by (simp_all add: action_types)

text \<open>The command of an action.\<close>

definition volume_command :: "'w host \<Rightarrow> volumeAction \<Rightarrow> 'w command" where
  "volume_command H a =
     (if va_action a = actionTypeCreate then createLVCmd H
      else if va_action a = actionTypeDelete then deleteLVCmd H else cloneLVCmd H)"

definition snapshot_command :: "'w host \<Rightarrow> snapshotAction \<Rightarrow> 'w command" where
  "snapshot_command H a = (if sa_action a = actionTypeCreate then createSnapCmd H else deleteSnapCmd H)"

lemma volume_args_reach:
  assumes "volumeHelperArgs a = Inr args" and "0 \<le> va_size a" and "va_size a \<le> int max_uint64"
    and "cmd \<in> set (commands H)" and "args @ extra = cmd_name cmd # rest" and "parsed (cmd_flags cmd) c rest"
  shows "cmd = volume_command H a \<and> same_volume a c"
proof -
  note size = ParseUint_show_int [OF assms(2,3)]
  have rest: "rest = tl args @ extra" "hd args = cmd_name cmd" if "args \<noteq> []" using assms(5) that by (cases args; simp)+
  from assms(1) show ?thesis
  proof (cases rule: volume_args_cases)
    case create
    then have "cmd = createLVCmd H" using rest assms(4) command_by_name(1) by auto
    moreover have "parsed (cmd_flags cmd) c (tl args)" using parsed_append assms(6) rest create by auto
    ultimately show ?thesis using create assms(2)
      by (auto simp: volume_command_def command_tables flag_names size same_volume_def)
  next
    case (delete i)
    then have "cmd = deleteLVCmd H" using rest assms(4) command_by_name(2) by auto
    moreover have "parsed (cmd_flags cmd) c (tl args)" using parsed_append assms(6) rest delete by auto
    ultimately show ?thesis using delete
      by (auto simp: volume_command_def command_tables flag_names same_volume_def)
  next
    case (clone i)
    then have "cmd = cloneLVCmd H" using rest assms(4) command_by_name(3) by auto
    moreover have "parsed (cmd_flags cmd) c (tl args)" using parsed_append assms(6) rest clone by auto
    ultimately show ?thesis using clone assms(2)
      by (auto simp: volume_command_def command_tables flag_names size same_volume_def)
  qed
qed

lemma snapshot_args_reach:
  assumes "snapshotHelperArgs a = Inr args" and "- int (max_int64 + 1) \<le> sa_snapSize a" and "sa_snapSize a \<le> int max_int64"
    and "cmd \<in> set (commands H)" and "args @ extra = cmd_name cmd # rest" and "parsed (cmd_flags cmd) c rest"
  shows "cmd = snapshot_command H a \<and> same_snapshot a c"
proof -
  note size = ParseInt_show_int [OF assms(2,3)]
  have rest: "rest = tl args @ extra" "hd args = cmd_name cmd" if "args \<noteq> []" using assms(5) that by (cases args; simp)+
  from assms(1) show ?thesis
  proof (cases rule: snapshot_args_cases)
    case create
    then have "cmd = createSnapCmd H" using rest assms(4) command_by_name(4) by auto
    moreover have "parsed (cmd_flags cmd) c (tl args)" using parsed_append assms(6) rest create by auto
    ultimately show ?thesis using create
      by (auto simp: snapshot_command_def command_tables flag_names size same_snapshot_def)
  next
    case delete
    then have "cmd = deleteSnapCmd H" using rest assms(4) command_by_name(5) by auto
    moreover have "parsed (cmd_flags cmd) c (tl args)" using parsed_append assms(6) rest delete by auto
    ultimately show ?thesis using delete
      by (auto simp: snapshot_command_def command_tables flag_names same_snapshot_def)
  qed
qed

end
