(* ===== verification/Node_Server.thy ===== *)
theory Node_Server
  imports Validation "HOL-Library.Word"
begin

section \<open>The CSI node service (\<open>nodeserver.go\<close>)\<close>

text \<open>
  The handlers of the node service compose the validators with the mount and volume operations.
  An empty response is \<open>None\<close> (no error).  \<open>unix.Statfs\<close> is a parameter: its answer is a
  \<open>statfs\<close> record of 64-bit words, and the arithmetic of \<open>NodeGetVolumeStats\<close> is kept at 64 bits.
\<close>

record nodeServer =
  ns_nodeID :: string
  ns_maxVolumesPerNode :: int
  ns_devicesPattern :: string

definition newNodeServer :: "'w host \<Rightarrow> string \<Rightarrow> int \<Rightarrow> ('w, nodeServer res) op" where
  "newNodeServer H nodeID maxVolumesPerNode = do {
     err \<leftarrow> VgActivate H;
     State_Monad.return
       (case err of
          Some e \<Rightarrow> Inl (Errorf ''unable to initialize LVM volume groups: %w'' [] (Some e))
        | None \<Rightarrow> Inr \<lparr>ns_nodeID = nodeID, ns_maxVolumesPerNode = maxVolumesPerNode, ns_devicesPattern = ''''\<rparr>)
   }"

subsection \<open>Publishing\<close>

definition publishBlockVolume :: "'w host \<Rightarrow> node_publish_request \<Rightarrow> string \<Rightarrow> ('w, check) op" where
  "publishBlockVolume H req vgName = do {
     (output, err) \<leftarrow> bindMountLV H (np_volumeId req) (np_target req) vgName (np_readonly req);
     State_Monad.return
       (case err of
          Some e \<Rightarrow> Some (Errorf ''unable to bind mount lv: %w output:%s'' [output] (Some e))
        | None \<Rightarrow> None)
   }"

definition mount_of :: "node_publish_request \<Rightarrow> string \<times> string list" where
  "mount_of req = (case Option.bind (np_capability req) GetMount of None \<Rightarrow> ('''', []) | Some m \<Rightarrow> m)"

definition publishFilesystemVolume :: "'w host \<Rightarrow> node_publish_request \<Rightarrow> string \<Rightarrow> ('w, check) op" where
  "publishFilesystemVolume H req vgName = do {
     (output, err) \<leftarrow> mountLV H (np_volumeId req) (np_target req) vgName
                        (fst (mount_of req)) (snd (mount_of req)) (np_readonly req);
     State_Monad.return
       (case err of
          Some e \<Rightarrow> Some (Errorf ''unable to mount lv: %w output:%s'' [output] (Some e))
        | None \<Rightarrow> None)
   }"

definition NodePublishVolume :: "'w host \<Rightarrow> node_publish_request \<Rightarrow> ('w, check) op" where
  "NodePublishVolume H req =
     (case validateNodePublishRequest req of
        Inl e \<Rightarrow> State_Monad.return (Some (Status InvalidArgument e))
      | Inr vgName \<Rightarrow>
          if (case np_capability req of None \<Rightarrow> False | Some c \<Rightarrow> GetBlock c)
          then publishBlockVolume H req vgName
          else publishFilesystemVolume H req vgName)"

definition NodeUnpublishVolume :: "'w host \<Rightarrow> node_unpublish_request \<Rightarrow> ('w, check) op" where
  "NodeUnpublishVolume H req =
     (case validateNodeUnpublishRequest req of
        Inl e \<Rightarrow> State_Monad.return (Some (Status InvalidArgument e))
      | Inr (volID, targetPath) \<Rightarrow> do {
          err \<leftarrow> unmountTarget H targetPath;
          (case err of
             Some e \<Rightarrow> State_Monad.return (Some (Status Internal (Errorf ''failed to unmount volume %q: %v'' [volID] (Some e))))
           | None \<Rightarrow> do {
               rm \<leftarrow> os_op ''Remove'' (h_remove H) targetPath;
               State_Monad.return
                 (case rm of
                    None \<Rightarrow> None
                  | Some OsNotExist \<Rightarrow> None
                  | Some e \<Rightarrow> Some (Status Internal (Errorf ''failed to remove target path %q: %v'' [targetPath] (Some (OsErr e)))))
             })
        })"

subsection \<open>Staging, information\<close>

record stage_request =
  sg_volumeId :: string
  sg_target :: string
  sg_capability :: "volume_capability option"

definition NodeStageVolume :: "stage_request \<Rightarrow> check" where
  "NodeStageVolume req =
     (if length (sg_volumeId req) = 0 then Some (Status InvalidArgument (msg ''Volume ID missing in request''))
      else if length (sg_target req) = 0 then Some (Status InvalidArgument (msg ''Target path missing in request''))
      else if sg_capability req = None then Some (Status InvalidArgument (msg ''Volume Capability missing in request''))
      else None)"

definition NodeUnstageVolume :: "string \<Rightarrow> string \<Rightarrow> check" where
  "NodeUnstageVolume volumeId stagingTargetPath =
     (if length volumeId = 0 then Some (Status InvalidArgument (msg ''Volume ID missing in request''))
      else if length stagingTargetPath = 0 then Some (Status InvalidArgument (msg ''Target path missing in request''))
      else None)"

record node_info =
  ni_nodeId :: string
  ni_maxVolumes :: int
  ni_topology :: topology

definition NodeGetInfo :: "nodeServer \<Rightarrow> node_info" where
  "NodeGetInfo ns =
     \<lparr>ni_nodeId = ns_nodeID ns, ni_maxVolumes = ns_maxVolumesPerNode ns,
      ni_topology = [topologyKeyNode \<mapsto> ns_nodeID ns]\<rparr>"

datatype node_capability = STAGE_UNSTAGE_VOLUME | NODE_EXPAND_VOLUME | GET_VOLUME_STATS

definition NodeGetCapabilities :: "node_capability list" where
  "NodeGetCapabilities = [STAGE_UNSTAGE_VOLUME, NODE_EXPAND_VOLUME, GET_VOLUME_STATS]"

subsection \<open>Volume statistics\<close>

record statfs =
  Blocks :: "64 word"
  Bfree :: "64 word"
  Bsize :: "64 word"
  Files :: "64 word"
  Ffree :: "64 word"

record volume_usage =
  Available :: "64 word"
  Total :: "64 word"
  Used :: "64 word"
  UnitBytes :: bool

definition NodeGetVolumeStats :: "(string \<Rightarrow> goerr + statfs) \<Rightarrow> string \<Rightarrow> volume_usage list res" where
  "NodeGetVolumeStats Statfs volumePath =
     (case Statfs volumePath of
        Inl e \<Rightarrow> Inl e
      | Inr fs \<Rightarrow>
          let diskFree = Bfree fs * Bsize fs; diskTotal = Blocks fs * Bsize fs;
              inodesFree = Ffree fs; inodesTotal = Files fs
          in Inr [\<lparr>Available = diskFree, Total = diskTotal, Used = diskTotal - diskFree, UnitBytes = True\<rparr>,
                  \<lparr>Available = inodesFree, Total = inodesTotal, Used = inodesTotal - inodesFree, UnitBytes = False\<rparr>])"

subsection \<open>Expansion\<close>

definition isBlockVolumePath :: "'w host \<Rightarrow> string \<Rightarrow> ('w, bool res) op" where
  "isBlockVolumePath H volumePath = do {
     info \<leftarrow> os_query (h_stat H) volumePath;
     State_Monad.return
       (case info of
          Inl e \<Rightarrow> Inl (Errorf ''could not get file information about block volume: %w'' [] (Some (OsErr e)))
        | Inr i \<Rightarrow> Inr (\<not> fi_dir i))
   }"

text \<open>\<open>uint64(capacity)\<close> on a signed 64-bit value.\<close>

definition uint64_of_int64 :: "int \<Rightarrow> nat" where
  "uint64_of_int64 i = nat (i mod 2 ^ 64)"

definition NodeExpandVolume :: "'w host \<Rightarrow> node_expand_request \<Rightarrow> ('w, int res) op" where
  "NodeExpandVolume H req =
     (case validateNodeExpandRequest req of
        Inl e \<Rightarrow> State_Monad.return (Inl (Status InvalidArgument e))
      | Inr (volID, volPath, capacity) \<Rightarrow> do {
          b \<leftarrow> isBlockVolumePath H volPath;
          (case b of
             Inl e \<Rightarrow> State_Monad.return (Inl (Status InvalidArgument e))
           | Inr isBlock \<Rightarrow> do {
               (output, err) \<leftarrow> extendLVS H volID (uint64_of_int64 capacity) isBlock volPath;
               State_Monad.return
                 (case err of
                    Some e \<Rightarrow> Inl (Status Internal (Errorf ''unable to expand volume %q: %v output: %s'' [volID, output] (Some e)))
                  | None \<Rightarrow> Inr capacity)
             })
        })"

subsection \<open>Publishing: what a request may do\<close>

lemma unmountTarget_op [op_intro]:
  "(\<And>a t out err. E (ECmd ''umount'' a t out err)) \<Longrightarrow> keeps (logs E) (unmountTarget H target)"
  unfolding unmountTarget_def forceUnmount_def lazyUnmount_def Let_def by (intro op_intro) auto

lemma bindMountLV_op:
  assumes "\<And>c a t out err. c \<in> {''mount'', ''umount''} \<Longrightarrow> E (ECmd c a t out err)" and "\<And>p q e. E (EOs p q e)"
  shows "keeps (logs E) (bindMountLV H lvname mountPath vgName readOnly)"
  unfolding bindMountLV_def prepareBindMountTarget_def validateExistingBindMountTarget_def
    performBindMount_def remountBindReadOnly_def Let_def
  by (auto intro!: op_intro assms split: option.split os_error.split)

text \<open>
  What the publication of a file system on the device \<open>dev\<close> may run: the two probes, \<open>mkfs\<close> on that
  device, the mount and the look at an existing mount, and file operations; no LVM command.
\<close>

definition filesystem_event :: "string \<Rightarrow> event \<Rightarrow> bool" where
  "filesystem_event dev e \<longleftrightarrow> (\<exists>c \<in> {''blkid'', ''wipefs'', ''mount'', ''findmnt''}. ran c e)
     \<or> (\<exists>ty. ran (''mkfs.'' @ ty) e \<and> ev_args e = [dev]) \<or> (\<exists>p q x. e = EOs p q x)"

lemma filesystem_event_no_lvm:
  "filesystem_event dev e \<Longrightarrow> \<not> ran ''lvcreate'' e \<and> \<not> ran ''lvremove'' e \<and> \<not> ran ''lvextend'' e"
  by (cases e) (auto simp: filesystem_event_def)

lemma mountLV_op: "keeps (logs (filesystem_event (device_path vg lv))) (mountLV H lv path vg fsType opts ro)"
  unfolding mountLV_def ensureFilesystem_def getFilesystemType_def getFilesystemTypeFromWipefs_def mountFilesystem_def
    performFilesystemMount_def validateExistingMount_def Let_def
  by (intro op_intro) (auto simp: filesystem_event_def)

text \<open>
  C36: a publication request that fails validation is answered \<open>InvalidArgument\<close> and touches
  nothing; a valid block request only binds, remounts and unmounts, so it neither formats nor creates
  a logical volume; a valid file system request runs only the probes, \<open>mkfs\<close> on the device of the
  requested volume and mounts, so it creates, removes and extends no logical volume, and it never runs
  \<open>mkfs\<close> when that volume carries a signature.
\<close>

theorem NodePublishVolume_safe:
  assumes "probes_faithful H sigs"
    and "run_state (NodePublishVolume H req) s = (r, t)"
  shows "(\<forall>e. validateNodePublishRequest req = Inl e \<longrightarrow> r = Some (Status InvalidArgument e) \<and> t = s)
    \<and> (\<forall>vg c. validateNodePublishRequest req = Inr vg \<and> np_capability req = Some c \<longrightarrow>
         (GetBlock c \<longrightarrow> logs (\<lambda>e. ran ''mount'' e \<or> ran ''umount'' e \<or> (\<exists>o' p x. e = EOs o' p x)) s t)
         \<and> (\<not> GetBlock c \<longrightarrow> logs (filesystem_event (device_path vg (np_volumeId req))) s t
              \<and> logs (\<lambda>e. \<not> ran ''lvcreate'' e \<and> \<not> ran ''lvremove'' e \<and> \<not> ran ''lvextend'' e) s t)
         \<and> (\<not> GetBlock c \<and> sigs (s_world s) (device_path vg (np_volumeId req)) \<noteq> [] \<longrightarrow>
              logs (\<lambda>e. \<not> is_mkfs e) s t))"
proof (intro conjI allI impI)
  fix e assume "validateNodePublishRequest req = Inl e"
  then show "r = Some (Status InvalidArgument e)" "t = s" using assms(2) by (simp_all add: NodePublishVolume_def)
next
  fix vg c assume v: "validateNodePublishRequest req = Inr vg \<and> np_capability req = Some c" and b: "GetBlock c"
  let ?E = "\<lambda>e. ran ''mount'' e \<or> ran ''umount'' e \<or> (\<exists>o' p x. e = EOs o' p x)"
  have "keeps (logs ?E) (publishBlockVolume H req vg)"
    unfolding publishBlockVolume_def by (intro op_intro bindMountLV_op) auto
  then show "logs ?E s t" using assms(2) v b by (auto simp: NodePublishVolume_def elim: keepsD)
next
  fix vg c assume v: "validateNodePublishRequest req = Inr vg \<and> np_capability req = Some c" and b: "\<not> GetBlock c"
  have "logs (filesystem_event (device_path vg (np_volumeId req))) s (snd (run_state (publishFilesystemVolume H req vg) s))"
    using keepsD' [OF mountLV_op] by (simp add: publishFilesystemVolume_def run_simps case_prod_beta)
  then show only: "logs (filesystem_event (device_path vg (np_volumeId req))) s t"
    using assms(2) v b by (simp add: NodePublishVolume_def)
  show "logs (\<lambda>e. \<not> ran ''lvcreate'' e \<and> \<not> ran ''lvremove'' e \<and> \<not> ran ''lvextend'' e) s t"
    by (rule logs_mono [OF only]) (rule filesystem_event_no_lvm)
next
  fix vg c assume v: "validateNodePublishRequest req = Inr vg \<and> np_capability req = Some c"
    and f: "\<not> GetBlock c \<and> sigs (s_world s) (device_path vg (np_volumeId req)) \<noteq> []"
  have "logs (\<lambda>e. \<not> is_mkfs e) s (snd (run_state (publishFilesystemVolume H req vg) s))"
    using mountLV_keeps_signed [OF assms(1)] f
    by (simp add: publishFilesystemVolume_def run_simps case_prod_beta)
  then show "logs (\<lambda>e. \<not> is_mkfs e) s t" using assms(2) v f by (simp add: NodePublishVolume_def)
qed


definition publish_x :: node_publish_request where
  "publish_x = \<lparr>np_volumeId = ''pvc-1'', np_target = ''/t'',
     np_capability = Some \<lparr>cap_access = Some (MountVolume ''ext4'' []), cap_mode = Some SINGLE_NODE_WRITER\<rparr>,
     np_readonly = False, np_context = [''vgName'' \<mapsto> ''vg'']\<rparr>"

theorem NodePublishVolume_safe_witness:
  "logs (\<lambda>e. \<not> is_mkfs e) (start (\<lambda>_. [''xfs'']))
     (snd (run_state (NodePublishVolume (quiet_host sig_exec) publish_x) (start (\<lambda>_. [''xfs'']))))"
proof -
  have "vg_name_ok ''vg''" by code_simp
  then have v: "validateNodePublishRequest publish_x = Inr ''vg''"
    unfolding validateNodePublishRequest_def
    by (simp add: publish_x_def IsAbs_def validateNodePublishCapability_def validateVolumeCapabilities_def
        validateCapability_def GetBlock_def GetMount_def vg_name.accepts)
  obtain r t where run: "run_state (NodePublishVolume (quiet_host sig_exec) publish_x) (start (\<lambda>_. [''xfs''])) = (r, t)"
    by (rule prod.exhaust)
  from NodePublishVolume_safe [OF sig_exec_faithful run] v run show ?thesis
    by (simp add: publish_x_def GetBlock_def)
qed

text \<open>
  An unpublication succeeds exactly when the unmount completed and the target path is then
  removed or already gone; the path is never removed while the unmount has not completed; the
  errors are \<open>InvalidArgument\<close> for the request, without any effect, and \<open>Internal\<close> otherwise.
\<close>

lemma NodeUnpublishVolume_spec:
  assumes "run_state (NodeUnpublishVolume H req) s = (r, t)"
  shows "(\<forall>e. validateNodeUnpublishRequest req = Inl e \<longrightarrow> r = Some (Status InvalidArgument e) \<and> t = s)
    \<and> (\<forall>v p u s1. validateNodeUnpublishRequest req = Inr (v, p) \<and> run_state (unmountTarget H p) s = (u, s1) \<longrightarrow>
         (u \<noteq> None \<longrightarrow> t = s1 \<and> (\<exists>e. r = Some (Status Internal e)))
         \<and> (u = None \<longrightarrow> (\<exists>x. s_log t = s_log s1 @ [EOs ''Remove'' p x] \<and> fst (h_remove H p (s_world s1)) = x
                \<and> (r = None \<longleftrightarrow> x \<in> {None, Some OsNotExist})
                \<and> (r \<noteq> None \<longrightarrow> (\<exists>e. r = Some (Status Internal e))))))"
  using assms
  by (cases "validateNodeUnpublishRequest req")
    (auto simp: NodeUnpublishVolume_def run_simps split: option.splits os_error.splits prod.splits)

definition unpublish_x :: node_unpublish_request where
  "unpublish_x = \<lparr>nu_volumeId = ''pvc-1'', nu_target = ''/t''\<rparr>"

subsection \<open>Expansion and statistics\<close>

lemma uint64_of_int64_pos: "0 \<le> i \<Longrightarrow> i \<le> int max_int64 \<Longrightarrow> uint64_of_int64 i = nat i"
  by (simp add: uint64_of_int64_def max_int64_def)

text \<open>
  An expansion request with a bad argument is answered \<open>InvalidArgument\<close> before any command
  runs; otherwise the answered capacity is the required one, \<open>lvextend\<close> is given exactly that
  number of bytes and runs only on the one volume of that name and only when it is smaller.
\<close>

lemma NodeExpandVolume_grows:
  assumes "lvs_reports H lvsOf" and "run_state (NodeExpandVolume H req) s = (r, t)"
    and "ne_range req = Some cr" and "required_bytes cr \<le> int max_int64"
  shows "logs (grows_only (lvsOf (s_world s)) (ne_volumeId req) (nat (required_bytes cr))) s t
    \<and> (ne_volumeId req = '''' \<or> ne_path req = '''' \<or> required_bytes cr \<le> 0 \<longrightarrow>
         t = s \<and> (\<exists>e. r = Inl (Status InvalidArgument e)))
    \<and> (\<forall>c. r = Inr c \<longrightarrow> c = required_bytes cr)"
proof (cases "validateNodeExpandRequest req")
  case (Inl e)
  then have "t = s" "r = Inl (Status InvalidArgument e)" using assms(2) by (simp_all add: NodeExpandVolume_def)
  then show ?thesis by (simp add: logs_def)
next
  case (Inr v)
  then have v: "v = (ne_volumeId req, ne_path req, required_bytes cr)" "0 < required_bytes cr"
    "ne_volumeId req \<noteq> ''''" "ne_path req \<noteq> ''''"
    using assms(3) by (auto simp: validateNodeExpandRequest_def validateCapacityRange_def split: if_splits)
  then have sz: "uint64_of_int64 (required_bytes cr) = nat (required_bytes cr)"
    using assms(4) by (intro uint64_of_int64_pos) auto
  show ?thesis
  proof (cases "h_stat H (ne_path req) (s_world s)")
    case (Inl e)
    then have "t = s" "\<exists>e. r = Inl e" using assms(2) Inr v
      by (auto simp: NodeExpandVolume_def isBlockVolumePath_def run_simps)
    then show ?thesis using v by (auto simp: logs_def)
  next
    case (Inr i)
    obtain out err t' where x: "run_state (extendLVS H (ne_volumeId req) (nat (required_bytes cr)) (\<not> fi_dir i) (ne_path req)) s = ((out, err), t')"
      by (metis prod.exhaust)
    have "t' = t \<and> (\<forall>c. r = Inr c \<longrightarrow> c = required_bytes cr)"
      using assms(2) \<open>validateNodeExpandRequest req = Inr v\<close> v Inr x sz
      by (auto simp: NodeExpandVolume_def isBlockVolumePath_def run_simps split: option.splits)
    with extendLVS_grows [OF assms(1) x] v show ?thesis by simp
  qed
qed

definition expand_x :: node_expand_request where
  "expand_x = \<lparr>ne_volumeId = ''pvc-1'', ne_path = ''/p'', ne_range = Some \<lparr>required_bytes = 8388608, limit_bytes = 0\<rparr>\<rparr>"

lemma NodeExpandVolume_grows_example:
  "logs (grows_only [volume_x] ''pvc-1'' 8388608) (start [volume_x])
     (snd (run_state (NodeExpandVolume lvm_host expand_x) (start [volume_x])))"
proof -
  obtain r t where run: "run_state (NodeExpandVolume lvm_host expand_x) (start [volume_x]) = (r, t)"
    by (rule prod.exhaust)
  from NodeExpandVolume_grows [OF lvm_host_reports run, of "\<lparr>required_bytes = 8388608, limit_bytes = 0\<rparr>"] run
  show ?thesis by (simp add: max_int64_def expand_x_def normalize_volume_x)
qed

text \<open>
  C37 (bounds): the byte counts of a file system are computed with 64-bit products.  When the real
  size fits a signed 64-bit integer and the free blocks do not exceed the blocks, no product wraps:
  total, available and used bytes are the exact, non-negative values and used plus available is total.
\<close>

theorem NodeGetVolumeStats_exact:
  assumes "Statfs p = Inr fs"
    and "uint (Blocks fs) * uint (Bsize fs) < 2 ^ 63" and "uint (Bfree fs) \<le> uint (Blocks fs)"
  shows "\<exists>bytes inodes. NodeGetVolumeStats Statfs p = Inr [bytes, inodes]
    \<and> sint (Total bytes) = uint (Blocks fs) * uint (Bsize fs)
    \<and> sint (Available bytes) = uint (Bfree fs) * uint (Bsize fs)
    \<and> sint (Used bytes) = sint (Total bytes) - sint (Available bytes)
    \<and> 0 \<le> sint (Used bytes) \<and> sint (Used bytes) \<le> sint (Total bytes)"
proof -
  let ?t = "uint (Blocks fs) * uint (Bsize fs)" and ?f = "uint (Bfree fs) * uint (Bsize fs)"
  have le: "0 \<le> ?f" "?f \<le> ?t" using assms(3) by (simp_all add: mult_right_mono)
  have small: "sint (word_of_int i :: 64 word) = i" if "0 \<le> i" "i < 2 ^ 63" for i
    using that by (simp add: sint_uint uint_word_of_int signed_take_bit_int_eq_self take_bit_int_eq_self)
  have "sint (Blocks fs * Bsize fs) = ?t" using small [of ?t] le assms(2) by simp
  moreover have "sint (Bfree fs * Bsize fs) = ?f" using small [of ?f] le assms(2) by simp
  moreover have "sint (Blocks fs * Bsize fs - Bfree fs * Bsize fs) = ?t - ?f"
    using small [of "?t - ?f"] le order.strict_trans1 [OF _ assms(2), of "?t - ?f"] by simp
  ultimately show ?thesis using le by (simp add: NodeGetVolumeStats_def assms(1) Let_def)
qed

theorem NodeGetVolumeStats_exact_witness:
  "\<exists>bytes inodes. NodeGetVolumeStats (\<lambda>_. Inr \<lparr>Blocks = 1000, Bfree = 400, Bsize = 4096, Files = 10, Ffree = 3\<rparr>) ''/t''
     = Inr [bytes, inodes] \<and> sint (Used bytes) = 600 * 4096"
  using NodeGetVolumeStats_exact [of "\<lambda>_. Inr \<lparr>Blocks = 1000, Bfree = 400, Bsize = 4096, Files = 10, Ffree = 3\<rparr>" "''/t''"
      "\<lparr>Blocks = 1000, Bfree = 400, Bsize = 4096, Files = 10, Ffree = 3\<rparr>"] by auto

end
