(* ===== verification/Node_Contract.thy ===== *)
theory Node_Contract
  imports Lvm_Simulator Command_Line Node_Server
begin

section \<open>The contract of the provisioner\<close>

text \<open>
  Each subcommand, run as the provisioner runs it, refines its specification on the inventory of
  the node, whatever the tools answer and wherever it fails.  The hypothesis is \<open>lvm_tools\<close>, the
  documented behaviour of LVM; the witnesses run on the concrete LVM of \<open>Lvm_Simulator\<close>.
\<close>

lemma wp_run_provisioner:
  assumes "\<And>s'. s_world s' = s_world s \<Longrightarrow> wp (cmd_action cmd c) Q s'"
    and "\<And>e s'. s_world s' = s_world s \<Longrightarrow> Q (Some e) s'"
  shows "wp (run_provisioner cmd c) Q s"
proof -
  obtain r s1 where b: "run_state (provisioner_before c) s = (r, s1)" by (rule prod.exhaust)
  then have "s_world s1 = s_world s"
    by (auto simp: provisioner_before_def SetCommandTimeout_def SetThinPoolCreateTimeout_def split: if_splits)
  then show ?thesis using b assms unfolding run_provisioner_def wp_def by (cases r) auto
qed

lemma run_command:
  assumes "\<And>s'. P (view (s_world s')) \<Longrightarrow> wp (cmd_action cmd c) (\<lambda>r t. spec (view (s_world s')) (r = None) (view (s_world t))) s'"
    and "\<And>V. spec V False V" and "P (view (s_world s))" and "run_state (run_provisioner cmd c) s = (r, t)"
  shows "spec (view (s_world s)) (r = None) (view (s_world t))"
proof (rule wpD [OF wp_run_provisioner assms(4)])
  fix s' :: "'a sys"
  assume "s_world s' = s_world s"
  then show "wp (cmd_action cmd c) (\<lambda>r t. spec (view (s_world s)) (r = None) (view (s_world t))) s'"
    using assms(1) [of s'] assms(3) by simp
qed (simp add: assms(2))

lemmas specs = create_spec_def delete_volume_spec_def snapshot_spec_def remove_spec_def clone_spec_def

lemma run_createlv:
  assumes "lvm_tools H view" and "vg_component (c_String c flagVGName)" and "c_Uint64 c flagLVSize \<le> max_uint64"
    and "sound (view (s_world s))" and "run_state (run_provisioner (createLVCmd H) c) s = (r, t)"
  shows "create_spec (c_String c flagVGName) (c_String c flagLVName) (c_Uint64 c flagLVSize) (c_String c flagLVMType)
    (view (s_world s)) (r = None) (view (s_world t))"
  by (rule run_command [where P = sound and view = view, OF _ _ assms(4,5)])
    (simp add: createLVCmd_def lvm_tools.wp_createLV [OF assms(1,2) _ assms(3)], simp add: specs)

lemma run_clonelv:
  assumes "lvm_tools H view" and "vg_component (c_String c flagVGName)" and "c_Uint64 c flagLVSize \<le> max_uint64"
    and "sound (view (s_world s))" and "run_state (run_provisioner (cloneLVCmd H) c) s = (r, t)"
  shows "clone_spec (c_String c flagVGName) (c_String c flagLVName) (c_String c flagSrcVGName) (c_String c flagSrcLVName)
    (c_Uint64 c flagLVSize) (c_String c flagLVMType) (is_thin_clone c) (view (s_world s)) (r = None) (view (s_world t))"
  by (rule run_command [where P = sound and view = view, OF _ _ assms(4,5)])
    (simp add: cloneLVCmd_def lvm_tools.wp_clonelv [OF assms(1,2) _ assms(3)], simp add: specs)

lemma run_deletelv:
  assumes "lvm_tools H view" and "run_state (run_provisioner (deleteLVCmd H) c) s = (r, t)"
  shows "delete_volume_spec (c_String c flagSrcVGName) (c_String c flagLVName) (c_String c flagSrcType)
    (view (s_world s)) (r = None) (view (s_world t))"
  by (rule run_command [where P = "\<lambda>_. True" and view = view, OF _ _ TrueI assms(2)])
    (simp add: deleteLVCmd_def lvm_tools.wp_deleteLV [OF assms(1)], simp add: specs)

lemma run_createsnap:
  assumes "lvm_tools H view" and "run_state (run_provisioner (createSnapCmd H) c) s = (r, t)"
  shows "snapshot_spec (c_String c flagVGName) (backend_snapshot (c_String c flagSnapName)) (c_String c flagLVName)
    (c_String c flagLVMType) (view (s_world s)) (r = None) (view (s_world t))"
  by (rule run_command [where P = "\<lambda>_. True" and view = view, OF _ _ TrueI assms(2)])
    (simp add: createSnapCmd_def lvm_tools.wp_createSnap [OF assms(1)], simp add: specs)

lemma run_deletesnap:
  assumes "lvm_tools H view" and "run_state (run_provisioner (deleteSnapCmd H) c) s = (r, t)"
  shows "remove_spec (c_String c flagVGName) (backend_snapshot (c_String c flagSnapName))
    (view (s_world s)) (r = None) (view (s_world t))"
  by (rule run_command [where P = "\<lambda>_. True" and view = view, OF _ _ TrueI assms(2)])
    (simp add: deleteSnapCmd_def lvm_tools.wp_deleteSnap [OF assms(1)], simp add: specs)

subsection \<open>Runs on the concrete LVM\<close>

definition timed :: "cli_context \<Rightarrow> cli_context" where
  "timed c = c\<lparr>c_Duration := (\<lambda>_. minute)\<rparr>"

lemma timed_simps [simp]:
  "c_String (timed c) = c_String c" "c_Uint64 (timed c) = c_Uint64 c" "c_Int64 (timed c) = c_Int64 c"
  by (simp_all add: timed_def)

lemma before_timed: "run_state (provisioner_before (timed c)) s = (None, s\<lparr>s_cmdTimeout := minute, s_poolTimeout := minute\<rparr>)"
  by (simp add: provisioner_before_def timed_def SetCommandTimeout_def SetThinPoolCreateTimeout_def minute_def second_def)

lemma TrimSpace_x: "TrimSpace ''vg1'' = ''vg1''" "TrimSpace ''1'' = ''1''" by code_simp+

lemma Atoi_1: "Atoi ''1'' = Inr 1"
  by (simp add: ParseInt_def ParseUint_def is_digit_def digits_value_def digit_val_def max_uint64_def max_int64_def)

lemma sim_EnsureVG: "\<exists>t. run_state (EnsureVG sim_host ''vg1'') s = (None, t) \<and> s_world t = s_world s"
  by (simp add: EnsureVG_def ensureVGDiscovered_def VgExists_def activateVolumeGroups_def run_simps exec_of_def sim_exec_def
      TrimSpace_x)

lemma sim_get: "list_all clean (s_world s) \<Longrightarrow>
  \<exists>t. run_state (getLogicalVolume sim_host vg n) s = (Inr (listed (sim_view (s_world s)) vg n), t) \<and> s_world t = s_world s"
  using lvs_sim [of "s_world s"] lookup_sim [of "s_world s" vg n]
  by (simp add: getLogicalVolume_def listLogicalVolumes_def run_simps exec_of_def sim_exec_def)

lemma sim_pvCount: "\<exists>t. run_state (pvCount sim_host vg) s = (Inr 1, t) \<and> s_world t = s_world s"
  by (simp add: pvCount_def run_simps exec_of_def sim_exec_def TrimSpace_x Atoi_1)

definition create_ctx :: cli_context where
  "create_ctx = timed (context_of [(''lvname'', ''pvc-1''), (''vgname'', ''vg1''), (''lvmtype'', ''striped'')] 4096 0)"

definition entry_x :: lv_entry where
  "entry_x = create_entry ''vg1'' ''pvc-1'' (show_nat 4096) StripedType '''' ''''"

lemma create_ctx_simps [simp]:
  "c_String create_ctx flagLVName = ''pvc-1''" "c_String create_ctx flagVGName = ''vg1''"
  "c_String create_ctx flagLVMType = StripedType" "c_Uint64 create_ctx flagLVSize = 4096"
  by (simp_all add: create_ctx_def flag_names lvm_types)

lemma component_x [simp]: "vg_component ''vg1''"
  by (simp add: vg_component_def)

lemma sim_CreateLVS:
  assumes "list_all clean (s_world s)" and "sim_view (s_world s) (''vg1'', n) = None" and "n \<noteq> ''''"
  shows "\<exists>t. run_state (CreateLVS sim_host ''vg1'' n 4096 StripedType) s = (('''', None), t)
    \<and> s_world t = create_entry ''vg1'' n (show_nat 4096) StripedType '''' '''' # s_world s"
proof -
  obtain s2 where s2: "run_state (getLogicalVolume sim_host ''vg1'' n) s = (Inr None, s2)" "s_world s2 = s_world s"
    using sim_get [OF assms(1), of "''vg1''" n] assms(2) by (auto simp: listed_def)
  obtain s3 where s3: "run_state (pvCount sim_host ''vg1'') s2 = (Inr 1, s3)" "s_world s3 = s_world s"
    using sim_pvCount [of "''vg1''" s2] s2 by auto
  have ne: "StripedType \<noteq> DmThinType" by (simp add: lvm_types)
  have e: "sim_exec t ''lvcreate'' (lvcreate_args ''vg1'' n 4096 StripedType '''' 1) (s_world s)
      = (('''', None), create_entry ''vg1'' n (show_nat 4096) StripedType '''' '''' # s_world s)" for t
    using asked_args(1) [of "''vg1''" n 4096 "''''" 1 "s_world s"] assms(2,3) by (simp add: sim_exec_def)
  show ?thesis using s2 s3 ne e assms(3)
    by (simp add: CreateLVS_def prepareThinPool_def run_Execute run_newCommandExecutor exec_of_def Let_def)
qed

lemma sim_createlv:
  assumes c: "c_String c flagLVName = ''pvc-1''" "c_String c flagVGName = ''vg1''" "c_String c flagLVMType = StripedType"
    "c_Uint64 c flagLVSize = 4096"
  shows "\<exists>t. run_state (run_provisioner (createLVCmd sim_host) (timed c)) (start []) = (None, t) \<and> s_world t = [entry_x]"
proof -
  let ?s = "(start [])\<lparr>s_cmdTimeout := minute, s_poolTimeout := minute\<rparr> :: lv_entry list sys"
  obtain s1 where s1: "run_state (EnsureVG sim_host ''vg1'') ?s = (None, s1)" "s_world s1 = []"
    using sim_EnsureVG [of ?s] by auto
  obtain t where t: "run_state (CreateLVS sim_host ''vg1'' ''pvc-1'' 4096 StripedType) s1 = (('''', None), t)" "s_world t = [entry_x]"
    using sim_CreateLVS [of s1 "''pvc-1''"] s1 by (auto simp: entry_x_def)
  have ne: "StripedType \<noteq> ''''" by (simp add: lvm_types)
  show ?thesis unfolding run_provisioner_def before_timed run_bind_eq [OF before_timed]
    using s1 t ne c by (simp add: createLVCmd_def createLV_def require_def wrap_out_def Let_def)
qed

lemma sim_createlv_ctx: "\<exists>t. run_state (run_provisioner (createLVCmd sim_host) create_ctx) (start []) = (None, t) \<and> s_world t = [entry_x]"
  unfolding create_ctx_def by (rule sim_createlv) (simp_all add: flag_names lvm_types)

subsection \<open>The contracts\<close>

text \<open>
  C3 (creating): whatever the tools answer and wherever it fails, \<open>createlv\<close> leaves every volume that was
  there as it was, adds at most the volume asked for and, for a thin volume, the thin pool of its
  group, changes nothing when the volume exists, and reports success only when the volume is
  there with at least the size and with the type asked for.
\<close>

theorem createlv_contract:
  assumes "lvm_tools H view" and "vg_component (c_String c flagVGName)" and "c_Uint64 c flagLVSize \<le> max_uint64"
    and "sound (view (s_world s))" and "run_state (run_provisioner (createLVCmd H) c) s = (r, t)"
  shows "create_spec (c_String c flagVGName) (c_String c flagLVName) (c_Uint64 c flagLVSize) (c_String c flagLVMType)
    (view (s_world s)) (r = None) (view (s_world t))"
  using assms by (rule run_createlv)

lemma sound_empty [simp]: "sound (\<lambda>x. None)"
  by (simp add: sound_def)

theorem createlv_contract_witness:
  "\<exists>t e. run_state (run_provisioner (createLVCmd sim_host) create_ctx) (start []) = (None, t)
     \<and> sim_view (s_world t) (''vg1'', ''pvc-1'') = Some e \<and> fits 4096 StripedType e"
proof -
  obtain t where t: "run_state (run_provisioner (createLVCmd sim_host) create_ctx) (start []) = (None, t)"
    using sim_createlv_ctx by blast
  have "create_spec ''vg1'' ''pvc-1'' 4096 StripedType Map.empty True (sim_view (s_world t))"
    using createlv_contract [OF sim.lvm_tools_axioms _ _ _ t] by (simp add: max_uint64_def)
  then show ?thesis using t by (auto simp: create_spec_def)
qed

text \<open>
  Retry: once \<open>createlv\<close> has succeeded, running it again, in any later process that finds the same
  inventory, changes nothing, whatever it reports; the volume is still there.
\<close>

lemma createlv_retry:
  assumes "lvm_tools H view" and "vg_component (c_String c flagVGName)" and "c_Uint64 c flagLVSize \<le> max_uint64"
    and "sound (view (s_world s))" and "run_state (run_provisioner (createLVCmd H) c) s = (None, t)"
    and "sound (view (s_world s'))" and "view (s_world s') = view (s_world t)"
    and "run_state (run_provisioner (createLVCmd H) c) s' = (r, t')"
  shows "view (s_world t') = view (s_world t)
    \<and> (\<exists>e. view (s_world t') (c_String c flagVGName, c_String c flagLVName) = Some e
         \<and> fits (c_Uint64 c flagLVSize) (c_String c flagLVMType) e)"
  using run_createlv [OF assms(1-5)] run_createlv [OF assms(1-3,6,8)] assms(7)
  by (auto simp: create_spec_def)

lemma sound_entry_x: "sound (sim_view [entry_x])"
  by (auto simp: sound_def sim_view_def at_def entry_x_def split: if_splits)

lemma createlv_retry_example:
  "\<exists>r t. run_state (run_provisioner (createLVCmd sim_host) create_ctx) (start [entry_x]) = (r, t)
     \<and> sim_view (s_world t) = sim_view [entry_x]"
proof -
  obtain t where t: "run_state (run_provisioner (createLVCmd sim_host) create_ctx) (start []) = (None, t)" "s_world t = [entry_x]"
    using sim_createlv_ctx by blast
  obtain r t' where r: "run_state (run_provisioner (createLVCmd sim_host) create_ctx) (start [entry_x]) = (r, t')"
    by (rule prod.exhaust)
  show ?thesis
    using createlv_retry [OF sim.lvm_tools_axioms _ _ _ t(1) _ _ r] r t(2) sound_entry_x by (auto simp: max_uint64_def)
qed

text \<open>
  C8 (deleting): \<open>deletelv\<close> takes the volume, its snapshots, and for a thin volume possibly the thin pool of
  the group, but never a pool with a volume in it: every other volume survives as it was, nothing
  appears, and success means that the volume is gone.
\<close>

theorem deletelv_contract:
  assumes "lvm_tools H view" and "run_state (run_provisioner (deleteLVCmd H) c) s = (r, t)"
  shows "delete_volume_spec (c_String c flagSrcVGName) (c_String c flagLVName) (c_String c flagSrcType)
    (view (s_world s)) (r = None) (view (s_world t))"
  using assms by (rule run_deletelv)

definition delete_ctx :: cli_context where
  "delete_ctx = timed (context_of [(''lvname'', ''pvc-1''), (''srcvgname'', ''vg1''), (''srctype'', ''striped'')] 0 0)"

lemma delete_ctx_simps [simp]:
  "c_String delete_ctx flagLVName = ''pvc-1''" "c_String delete_ctx flagSrcVGName = ''vg1''"
  "c_String delete_ctx flagSrcType = StripedType"
  by (simp_all add: delete_ctx_def flag_names lvm_types)

lemma word_x [simp]:
  "word ''vg1''" "word ''pvc-1''" "word ''lvm-snapshot-1''" "word ''vg1-thinpool''"
  "word ''striped''" "word ''linear''" "word ''thin''" "word ''thin-pool''"
  by (simp_all add: word_def plain_char_def)

lemma clean_entry_x: "clean entry_x"
  by (auto simp: entry_x_def word_show_nat lvm_types intro!: clean_words)

lemma sim_deletelv:
  assumes c: "c_String c flagLVName = ''pvc-1''" "c_String c flagSrcVGName = ''vg1''" "c_String c flagSrcType = StripedType"
  shows "\<exists>t. run_state (run_provisioner (deleteLVCmd sim_host) (timed c)) (start [entry_x]) = (None, t)"
proof -
  let ?s = "(start [entry_x])\<lparr>s_cmdTimeout := minute, s_poolTimeout := minute\<rparr> :: lv_entry list sys"
  obtain s1 where s1: "run_state (getLogicalVolume sim_host ''vg1'' ''pvc-1'') ?s = (Inr (Some (logicalVolume.truncate entry_x)), s1)"
    using sim_get [of ?s "''vg1''" "''pvc-1''"] clean_entry_x by (auto simp: listed_def sim_view_def at_def entry_x_def)
  have ne: "StripedType \<noteq> DmThinType" "StripedType \<noteq> ''''" by (simp_all add: lvm_types)
  show ?thesis unfolding run_provisioner_def before_timed run_bind_eq [OF before_timed]
    using s1 ne c
    by (simp add: deleteLVCmd_def deleteLV_def require_def RemoveLVSInVG_def
        run_Execute run_newCommandExecutor exec_of_def sim_exec_def Let_def case_prod_beta)
qed

lemma sim_deletelv_ctx: "\<exists>t. run_state (run_provisioner (deleteLVCmd sim_host) delete_ctx) (start [entry_x]) = (None, t)"
  unfolding delete_ctx_def by (rule sim_deletelv) (simp_all add: flag_names lvm_types)

theorem deletelv_contract_witness:
  "\<exists>t. run_state (run_provisioner (deleteLVCmd sim_host) delete_ctx) (start [entry_x]) = (None, t)
     \<and> sim_view (s_world t) (''vg1'', ''pvc-1'') = None"
proof -
  obtain t where t: "run_state (run_provisioner (deleteLVCmd sim_host) delete_ctx) (start [entry_x]) = (None, t)"
    using sim_deletelv_ctx by blast
  show ?thesis using deletelv_contract [OF sim.lvm_tools_axioms t] t by (simp add: delete_volume_spec_def)
qed


definition snap_ctx :: cli_context where
  "snap_ctx = timed (context_of [(''lvname'', ''pvc-1''), (''vgname'', ''vg1''), (''snapname'', ''snapshot-1''),
     (''lvmtype'', ''striped'')] 0 4096)"

lemma snap_ctx_simps [simp]:
  "c_String snap_ctx flagLVName = ''pvc-1''" "c_String snap_ctx flagVGName = ''vg1''"
  "c_String snap_ctx flagSnapName = ''snapshot-1''" "c_String snap_ctx flagLVMType = StripedType" "c_Int64 snap_ctx flagLVSize = 4096"
  by (simp_all add: snap_ctx_def flag_names lvm_types)

lemma sim_deletesnap:
  assumes "list_all clean w"
  shows "\<exists>t. run_state (run_provisioner (deleteSnapCmd sim_host) snap_ctx) (start w) = (None, t)"
proof -
  let ?s = "(start w)\<lparr>s_cmdTimeout := minute, s_poolTimeout := minute\<rparr> :: lv_entry list sys"
  obtain v s1 where "run_state (getLogicalVolume sim_host ''vg1'' (backend_snapshot ''snapshot-1'')) ?s = (Inr v, s1)"
    using sim_get [of ?s "''vg1''" "backend_snapshot ''snapshot-1''"] assms by auto
  then show ?thesis unfolding run_provisioner_def snap_ctx_def before_timed run_bind_eq [OF before_timed]
    by (cases v) (simp_all add: snap_ctx_def [symmetric] deleteSnapCmd_def deleteSnap_def require_def DeleteSnapshot_def wrap_out_def
        run_Execute run_newCommandExecutor exec_of_def sim_exec_def Let_def case_prod_beta)
qed

definition snap_entry :: lv_entry where
  "snap_entry = create_entry ''vg1'' ''lvm-snapshot-1'' (show_nat 4096) LinearType ''pvc-1'' ''''"

lemma sim_createsnap:
  assumes c: "c_String c flagLVName = ''pvc-1''" "c_String c flagVGName = ''vg1''" "c_String c flagSnapName = ''snapshot-1''"
    "c_String c flagLVMType = StripedType" "c_Int64 c flagLVSize = 4096"
  shows "\<exists>t. run_state (run_provisioner (createSnapCmd sim_host) (timed c)) (start [entry_x]) = (None, t) \<and> s_world t = [snap_entry, entry_x]"
proof -
  let ?s = "(start [entry_x])\<lparr>s_cmdTimeout := minute, s_poolTimeout := minute\<rparr> :: lv_entry list sys"
  obtain s1 where s1: "run_state (EnsureVG sim_host ''vg1'') ?s = (None, s1)" "s_world s1 = [entry_x]"
    using sim_EnsureVG [of ?s] by auto
  obtain u s2 where s2: "run_state (getLogicalVolume sim_host ''vg1'' ''pvc-1'') s1 = (Inr (Some u), s2)" "s_world s2 = [entry_x]"
    using sim_get [of s1 "''vg1''" "''pvc-1''"] s1 clean_entry_x by (auto simp: listed_def sim_view_def at_def entry_x_def)
  have b: "backend_snapshot ''snapshot-1'' = ''lvm-snapshot-1''" by (simp add: backend_snapshot_def)
  obtain s3 where s3: "run_state (getLogicalVolume sim_host ''vg1'' ''lvm-snapshot-1'') s2 = (Inr None, s3)" "s_world s3 = [entry_x]"
    using sim_get [of s2 "''vg1''" "''lvm-snapshot-1''"] s2 clean_entry_x by (auto simp: listed_def sim_view_def at_def entry_x_def)
  obtain args where args: "snapshot_args ''lvm-snapshot-1'' ''pvc-1'' ''vg1'' 4096 StripedType False = Some args"
    by (simp add: snapshot_args_def)
  have "sim_exec t ''lvcreate'' args [entry_x] = (('''', None), [snap_entry, entry_x])" for t
    using asked_snapshot [OF component_x args, of "[entry_x]"]
    by (simp add: sim_exec_def sim_view_def at_def entry_x_def snap_entry_def)
  moreover have "StripedType \<noteq> ''''" by (simp add: lvm_types)
  ultimately show ?thesis unfolding run_provisioner_def before_timed run_bind_eq [OF before_timed]
    using s1 s2 s3 args c
    by (simp add: createSnapCmd_def createSnap_def require_def wrap_out_def b
        CreateSnapshot_def createSnapshotForClone_def run_Execute run_newCommandExecutor exec_of_def Let_def case_prod_beta)
qed

lemma sim_createsnap_ctx:
  "\<exists>t. run_state (run_provisioner (createSnapCmd sim_host) snap_ctx) (start [entry_x]) = (None, t) \<and> s_world t = [snap_entry, entry_x]"
  unfolding snap_ctx_def by (rule sim_createsnap) (simp_all add: flag_names lvm_types)



text \<open>A snapshot of 4096 bytes in a thin pool, and a clone of it for which 8192 bytes are asked.\<close>

definition thin_node :: "lv_entry list" where
  "thin_node = [create_entry ''vg1'' ''lvm-snapshot-1'' (show_nat 4096) ThinVolType '''' ''vg1-thinpool'',
     create_entry ''vg1'' ''vg1-thinpool'' (show_nat 65536) ThinPoolType '''' '''']"

definition clone_ctx :: cli_context where
  "clone_ctx = timed (context_of [(''srclvname'', ''lvm-snapshot-1''), (''srcvgname'', ''vg1''), (''srctype'', ''dm-thin''),
     (''lvname'', ''pvc-2''), (''vgname'', ''vg1''), (''lvmtype'', ''dm-thin'')] 8192 0)"

lemma clone_ctx_simps [simp]:
  "c_String clone_ctx flagSrcLVName = ''lvm-snapshot-1''" "c_String clone_ctx flagSrcVGName = ''vg1''"
  "c_String clone_ctx flagSrcType = DmThinType" "c_String clone_ctx flagLVName = ''pvc-2''"
  "c_String clone_ctx flagVGName = ''vg1''" "c_String clone_ctx flagLVMType = DmThinType" "c_Uint64 clone_ctx flagLVSize = 8192"
  by (simp_all add: clone_ctx_def flag_names lvm_types)

lemma thin_node_clean: "list_all clean thin_node"
  by (auto simp: thin_node_def word_show_nat lvm_types intro!: clean_words)

lemma thin_node_sound: "sound (sim_view thin_node)"
proof -
  have "sim_view thin_node = Map.empty((''vg1'', ''vg1-thinpool'') \<mapsto> thin_node ! 1, (''vg1'', ''lvm-snapshot-1'') \<mapsto> hd thin_node)"
    unfolding thin_node_def by (simp add: sim_view_Cons)
  then show ?thesis by (auto simp: sound_def thin_node_def)
qed

lemma sim_clonelv: "\<exists>t. run_state (run_provisioner (cloneLVCmd sim_host) clone_ctx) (start thin_node) = (None, t)"
proof -
  let ?s = "(start thin_node)\<lparr>s_cmdTimeout := minute, s_poolTimeout := minute\<rparr> :: lv_entry list sys"
  obtain s1 where s1: "run_state (EnsureVG sim_host ''vg1'') ?s = (None, s1)" "s_world s1 = thin_node"
    using sim_EnsureVG [of ?s] by auto
  obtain u s2 where s2: "run_state (getLogicalVolume sim_host ''vg1'' ''lvm-snapshot-1'') s1 = (Inr (Some u), s2)" "s_world s2 = thin_node"
    using sim_get [of s1 "''vg1''" "''lvm-snapshot-1''"] s1 thin_node_clean by (auto simp: listed_def sim_view_def at_def thin_node_def)
  obtain s3 where s3: "run_state (getLogicalVolume sim_host ''vg1'' ''pvc-2'') s2 = (Inr None, s3)" "s_world s3 = thin_node"
    using sim_get [of s2 "''vg1''" "''pvc-2''"] s2 thin_node_clean by (auto simp: listed_def sim_view_def at_def thin_node_def)
  have args: "snapshot_args ''pvc-2'' ''lvm-snapshot-1'' ''vg1'' n DmThinType True = Some [''-s'', ''-y'', ''-n'', ''pvc-2'', ''vg1/lvm-snapshot-1'']" for n
    by (simp add: snapshot_args_def lvm_types lv_ref_def)
  have "snd (fst (sim_exec t ''lvcreate'' [''-s'', ''-y'', ''-n'', ''pvc-2'', ''vg1/lvm-snapshot-1''] thin_node)) = None" for t
    using asked_snapshot [OF component_x args [of 0], of thin_node]
    by (simp add: sim_exec_def sim_view_def at_def thin_node_def lvm_types)
  moreover have "prefix snapshotPrefix ''lvm-snapshot-1''" "DmThinType \<noteq> ''''" by (simp_all add: snapshotPrefix_def lvm_types)
  ultimately show ?thesis unfolding run_provisioner_def clone_ctx_def before_timed run_bind_eq [OF before_timed]
    using s1 s2 s3 args
    by (simp add: clone_ctx_def [symmetric] cloneLVCmd_def clonelv_def require_def ensureCloneVolumeGroups_def thin_clone_def
        CreateSnapshot_def createSnapshotForClone_def run_Execute run_newCommandExecutor exec_of_def Let_def case_prod_beta
        int64_of_uint64_def)
qed

text \<open>A clone by copy of a striped volume.\<close>

lemma sim_copy_clone:
  assumes c: "c_String c flagSrcLVName = ''pvc-1''" "c_String c flagSrcVGName = ''vg1''" "c_String c flagSrcType = StripedType"
    "c_String c flagLVName = ''pvc-2''" "c_String c flagVGName = ''vg1''" "c_String c flagLVMType = StripedType"
    "c_Uint64 c flagLVSize = 4096"
  shows "\<exists>t. run_state (run_provisioner (cloneLVCmd sim_host) (timed c)) (start [entry_x]) = (None, t)"
proof -
  let ?s = "(start [entry_x])\<lparr>s_cmdTimeout := minute, s_poolTimeout := minute\<rparr> :: lv_entry list sys"
  obtain s1 where s1: "run_state (EnsureVG sim_host ''vg1'') ?s = (None, s1)" "s_world s1 = [entry_x]"
    using sim_EnsureVG [of ?s] by auto
  have fresh: "sim_view [entry_x] (''vg1'', ''pvc-2'') = None" by (simp add: sim_view_def at_def entry_x_def)
  have new: "\<exists>t. run_state (CreateLVS sim_host ''vg1'' ''pvc-2'' 4096 StripedType) s = (('''', None), t)"
    if "s_world s = [entry_x]" for s
    using sim_CreateLVS [of s "''pvc-2''"] that fresh clean_entry_x by auto
  have devices: "run_state (os_op n (h_open_read sim_host) p) s = (None, s\<lparr>s_log := s_log s @ [EOs n p None]\<rparr>)"
    "fst (run_state (os_op n (h_open_write sim_host) p) s) = None" "fst (run_state (os_op n (h_copy sim_host q) p) s) = None"
    "fst (run_state (os_op n (h_sync sim_host) p) s) = None" for n p q s
    by (simp_all add: sim_host_def run_os_op)
  have ne: "StripedType \<noteq> DmThinType" "StripedType \<noteq> ''''" by (simp_all add: lvm_types)
  have copied: "fst (run_state (copy_to_target sim_host p q) s) = None" for p q s
    using devices by (simp add: copy_to_target_def deferred_close_def CloneDevice_def case_prod_beta)
  have "fst (run_state (clone_by_copy sim_host ''vg1'' ''pvc-1'' ''vg1'' ''pvc-2'' 4096 StripedType) s1) = None"
    using new [of "s1\<lparr>s_log := s_log s1 @ [EOs ''OpenRead'' (device_path ''vg1'' ''pvc-1'') None]\<rparr>"] s1(2) copied
    by (auto simp: clone_by_copy_def devices(1) deferred_close_def case_prod_beta Let_def)
  then obtain t where "run_state (clone_by_copy sim_host ''vg1'' ''pvc-1'' ''vg1'' ''pvc-2'' 4096 StripedType) s1 = (None, t)"
    by (metis prod.collapse)
  then show ?thesis unfolding run_provisioner_def before_timed run_bind_eq [OF before_timed]
    using s1 ne c by (simp add: cloneLVCmd_def clonelv_def require_def ensureCloneVolumeGroups_def thin_clone_def Let_def)
qed


text \<open>
  C18 (expanding): \<open>NodeExpandVolume\<close> changes at most one volume of the node, one of the requested name, and
  that one never shrinks nor changes its type, origin or pool; the answer is the requested capacity,
  and then the volume has at least that size.
\<close>

theorem expand_contract:
  assumes "lvm_tools H view" and "run_state (NodeExpandVolume H req) s = (r, t)"
    and "ne_range req = Some cr" and "required_bytes cr \<le> int max_int64"
  shows "extend_spec (ne_volumeId req) (nat (required_bytes cr)) (view (s_world s)) (\<exists>c. r = Inr c) (view (s_world t))
    \<and> (\<forall>c. r = Inr c \<longrightarrow> c = required_bytes cr)"
proof (cases "validateNodeExpandRequest req")
  case (Inl e)
  then have "t = s" "r = Inl (Status InvalidArgument e)" using assms(2) by (simp_all add: NodeExpandVolume_def)
  then show ?thesis by (auto simp: extend_spec_def)
next
  case (Inr v)
  then have v: "v = (ne_volumeId req, ne_path req, required_bytes cr)" "0 < required_bytes cr"
    using assms(3) by (auto simp: validateNodeExpandRequest_def validateCapacityRange_def split: if_splits)
  then have sz: "uint64_of_int64 (required_bytes cr) = nat (required_bytes cr)"
    using assms(4) by (intro uint64_of_int64_pos) auto
  have max: "nat (required_bytes cr) \<le> max_uint64" using assms(4) by (simp add: max_int64_def max_uint64_def)
  show ?thesis
  proof (cases "h_stat H (ne_path req) (s_world s)")
    case (Inl e)
    then have "t = s" "\<exists>e. r = Inl e" using assms(2) Inr v
      by (auto simp: NodeExpandVolume_def isBlockVolumePath_def run_simps)
    then show ?thesis by (auto simp: extend_spec_def)
  next
    case (Inr i)
    obtain out err t' where x: "run_state (extendLVS H (ne_volumeId req) (nat (required_bytes cr)) (\<not> fi_dir i) (ne_path req)) s = ((out, err), t')"
      by (metis prod.exhaust)
    have r: "t' = t" "r = (case err of Some e \<Rightarrow> Inl (Status Internal (Errorf ''unable to expand volume %q: %v output: %s'' [ne_volumeId req, out] (Some e)))
        | None \<Rightarrow> Inr (required_bytes cr))"
      using assms(2) \<open>validateNodeExpandRequest req = Inr v\<close> v Inr x sz
      by (auto simp: NodeExpandVolume_def isBlockVolumePath_def run_simps split: option.splits)
    have "wp (extendLVS H (ne_volumeId req) (nat (required_bytes cr)) (\<not> fi_dir i) (ne_path req))
        (\<lambda>(out, err) t. extend_spec (ne_volumeId req) (nat (required_bytes cr)) (view (s_world s)) (err = None) (view (s_world t))) s"
      by (rule lvm_tools.wp_extendLVS [OF assms(1) max]) simp
    from wpD [OF this x] r show ?thesis by (cases err) auto
  qed
qed

text \<open>The concrete LVM on a node whose volume paths are block devices.\<close>

definition block_host :: "lv_entry list host" where
  "block_host = sim_host\<lparr>h_stat := \<lambda>_ _. Inr \<lparr>fi_dir = False, fi_symlink = False\<rparr>\<rparr>"

lemma block_host_tools: "lvm_tools block_host sim_view"
proof -
  have same: "h_exec block_host = h_exec sim_host" "h_timed block_host = h_timed sim_host" "h_open_read block_host = h_open_read sim_host"
    "h_open_write block_host = h_open_write sim_host" "h_close block_host = h_close sim_host" "h_copy block_host = h_copy sim_host"
    "h_sync block_host = h_sync sim_host"
    by (simp_all add: block_host_def)
  show ?thesis using sim.lvm_tools_axioms unfolding lvm_tools_def same .
qed

definition grow_request :: node_expand_request where
  "grow_request = \<lparr>ne_volumeId = ''pvc-1'', ne_path = ''/p'', ne_range = Some \<lparr>required_bytes = 8192, limit_bytes = 0\<rparr>\<rparr>"

lemma sim_expand: "\<exists>t. run_state (NodeExpandVolume block_host grow_request) (start [entry_x]) = (Inr 8192, t)"
proof -
  let ?u = "logicalVolume.truncate entry_x"
  have l: "\<exists>t. run_state (listLogicalVolumes block_host) (start [entry_x]) = (Inr [?u], t) \<and> s_world t = [entry_x]"
    using lvs_sim [of "[entry_x]"] clean_entry_x
    by (simp add: listLogicalVolumes_def run_simps exec_of_def sim_exec_def block_host_def)
  then obtain t where t: "run_state (getLogicalVolumeByName block_host ''pvc-1'') (start [entry_x]) = (Inr ?u, t)" "s_world t = [entry_x]"
    by (auto simp: getLogicalVolumeByName_def entry_x_def)
  have size: "parseLogicalVolumeSize ?u = Inr 4096"
    using ParseUint_show_nat [of 4096] by (simp add: parseLogicalVolumeSize_def entry_x_def max_uint64_def)
  have view: "sim_view [entry_x] (''vg1'', ''pvc-1'') = Some entry_x" by (simp add: sim_view_def at_def entry_x_def)
  have "lv_size entry_x = show_nat 4096" by (simp add: entry_x_def)
  then have e: "sim_exec n ''lvextend'' (buildLVExtendArgs ''vg1'' ''pvc-1'' 8192) [entry_x]
      = (('''', None), map (set_size ''vg1'' ''pvc-1'' (show_nat 8192)) [entry_x])" for n
    using view ParseUint_show_nat [of 4096] by (simp add: sim_exec_def buildLVExtendArgs_def bytes_arg_def max_uint64_def)
  have "vg_name ?u = ''vg1''" "lv_name ?u = ''pvc-1''" by (simp_all add: entry_x_def)
  then have "\<exists>t'. run_state (extendLVS block_host ''pvc-1'' 8192 True ''/p'') (start [entry_x]) = (('''', None), t')"
    using t size e by (simp add: extendLVS_def ensureLogicalVolumeSize_def run_Execute run_newCommandExecutor exec_of_def
        block_host_def)
  then show ?thesis
    by (auto simp: NodeExpandVolume_def validateNodeExpandRequest_def validateCapacityRange_def grow_request_def
        isBlockVolumePath_def run_simps block_host_def uint64_of_int64_def)
qed

theorem expand_contract_witness:
  "\<exists>t vg. run_state (NodeExpandVolume block_host grow_request) (start [entry_x]) = (Inr 8192, t)
     \<and> at_least vg ''pvc-1'' 8192 (sim_view (s_world t))"
proof -
  obtain t where t: "run_state (NodeExpandVolume block_host grow_request) (start [entry_x]) = (Inr 8192, t)"
    using sim_expand by blast
  from expand_contract [OF block_host_tools t, of "\<lparr>required_bytes = 8192, limit_bytes = 0\<rparr>"] t show ?thesis
    by (auto simp: grow_request_def max_int64_def extend_spec_def)
qed

end
