(* ===== verification/Cluster.thy ===== *)
theory Cluster
  imports Controller Node_Contract
begin

section \<open>From a request to the node\<close>

text \<open>
  The controller, the helper pods and the provisioner together: when a CSI call reports success, the
  provisioner has run on the node of the volume and has done there what the request asks for.  What
  Kubernetes contributes is the locale \<open>helper_cluster\<close>: a pod that is read as succeeded has run its
  container's command line to its end without an error on its node, and the pod that the controller
  waits for is not replaced by another client's.
\<close>

subsection \<open>Runs of the provisioner\<close>

text \<open>A run of a helper's container: the node, the arguments, the states of the node around it and the result.\<close>

record 'w helper_run =
  hr_node :: string
  hr_args :: "string list"
  hr_before :: "'w sys"
  hr_result :: check
  hr_after :: "'w sys"

text \<open>
  The program of the container: two global flags for the timeouts, the name of a command and its
  flags, which the command line library reads into the context of the run.
\<close>

definition genuine :: "'w host \<Rightarrow> 'w helper_run \<Rightarrow> bool" where
  "genuine H r \<longleftrightarrow> (\<exists>cmd \<in> set (commands H). \<exists>g1 g2 rest c. hr_args r = g1 # g2 # cmd_name cmd # rest
     \<and> parsed (cmd_flags cmd) c rest \<and> run_state (run_provisioner cmd c) (hr_before r) = (hr_result r, hr_after r))"

text \<open>
  What \<open>DeepDerivative\<close> says of two pod specifications (\<open>deep_equal.go\<close> of the vendored apimachinery): an
  empty string of the first matches every string, and a list of the second may be longer.
\<close>

definition derives :: "string \<Rightarrow> string \<Rightarrow> bool" where
  "derives d e \<longleftrightarrow> d = '''' \<or> d = e"

definition list_derives :: "('a \<Rightarrow> 'a \<Rightarrow> bool) \<Rightarrow> 'a list \<Rightarrow> 'a list \<Rightarrow> bool" where
  "list_derives R ds es \<longleftrightarrow> length ds \<le> length es \<and> list_all2 R ds (take (length ds) es)"

definition container_derives :: "container \<Rightarrow> container \<Rightarrow> bool" where
  "container_derives d e \<longleftrightarrow> list_derives derives (co_command d) (co_command e) \<and> list_derives derives (co_args d) (co_args e)"

definition spec_derives :: "pod_spec \<Rightarrow> pod_spec \<Rightarrow> bool" where
  "spec_derives d e \<longleftrightarrow> derives (ps_nodeName d) (ps_nodeName e)
     \<and> list_derives container_derives (ps_containers d) (ps_containers e)"

lemma list_derives_append:
  assumes "list_derives derives ds es" and "'''' \<notin> set ds"
  shows "\<exists>extra. es = ds @ extra"
proof -
  have "ds = take (length ds) es"
    using assms unfolding list_derives_def derives_def list_all2_conv_all_nth
    by (intro nth_equalityI) (auto simp: in_set_conv_nth)
  then show ?thesis by (metis append_take_drop_id)
qed

lemma show_int_nonempty [simp]: "show_int n \<noteq> []" "[] \<noteq> show_int n"
  by (metis append_is_Nil_conv list.distinct(1) show_int_def show_nat_nonempty)+

lemma spec_derives_refl: "spec_derives d d"
  by (simp add: spec_derives_def list_derives_def container_derives_def derives_def list_all2_same)

lemma wait_loop_keeps:
  assumes "wait_loop K ns n resource action s = (r, t)" and "P (c_world s)"
    and "\<And>w. P w \<Longrightarrow> P (snd (k_getPod K ns n w))" and "\<And>w. P w \<Longrightarrow> P (k_tick K w)"
  shows "P (c_world t)"
  using assms
proof (induction K ns n resource action s rule: wait_loop.induct)
  case (1 K ns n resource action s)
  obtain x s1 where g: "run_state (getPod K ns n) s = (x, s1)" by (rule prod.exhaust)
  obtain res where h: "run_state (helperResult K x n resource action) s1 = (res, s1)"
    by (metis helperResult_same prod.collapse)
  obtain e s2 where w: "run_state (waitForRetry K) s1 = (e, s2)" by (rule prod.exhaust)
  have P: "P (c_world s1)" using g "1.prems"(2,3) by (auto simp: getPod_def run_simps)
  then have P2: "P (c_world s2)" using w "1.prems"(4) by (auto simp: waitForRetry_def split: nat.splits)
  show ?case
  proof (cases "fst res \<or> snd res \<noteq> None \<or> e \<noteq> None")
    case True
    then show ?thesis using "1.prems"(1) g h w P P2 by (auto simp: wait_loop.simps [of K ns n resource action s] split: if_splits)
  next
    case False
    then have "wait_loop K ns n resource action s2 = (r, t)" using "1.prems"(1) g h w by (simp add: wait_loop.simps [of K ns n resource action s])
    then show ?thesis using "1.IH" [OF g [symmetric] refl h [symmetric] refl _ w [symmetric] refl] False P2 "1.prems"(3,4) by simp
  qed
qed

subsection \<open>The cluster\<close>

text \<open>
  \<open>performed_run view R node Q\<close>: among the runs \<open>R\<close> one on \<open>node\<close> started with a sound inventory, ended
  without an error and led from its first state to its last as \<open>Q\<close> says; \<open>performed view R node spec\<close>
  when what \<open>spec\<close> says of a success is said of the inventories of these states.
\<close>

definition performed_run ::
  "('w \<Rightarrow> inventory) \<Rightarrow> 'w helper_run set \<Rightarrow> string \<Rightarrow> ('w sys \<Rightarrow> 'w sys \<Rightarrow> bool) \<Rightarrow> bool" where
  "performed_run view R node Q \<longleftrightarrow> (\<exists>r \<in> R. hr_node r = node \<and> hr_result r = None
     \<and> sound (view (s_world (hr_before r))) \<and> Q (hr_before r) (hr_after r))"

definition performed ::
  "('w \<Rightarrow> inventory) \<Rightarrow> 'w helper_run set \<Rightarrow> string \<Rightarrow> (inventory \<Rightarrow> bool \<Rightarrow> inventory \<Rightarrow> bool) \<Rightarrow> bool" where
  "performed view R node spec \<longleftrightarrow> performed_run view R node (\<lambda>s t. spec (view (s_world s)) True (view (s_world t)))"

lemma performed_run_mono: "performed_run view R node P \<Longrightarrow> (\<And>s t. P s t \<Longrightarrow> Q s t) \<Longrightarrow> performed_run view R node Q"
  by (auto simp: performed_run_def)

text \<open>A clone is done by a thin snapshot, or the source's device is copied onto the new one and synced.\<close>

definition cloned ::
  "('w \<Rightarrow> inventory) \<Rightarrow> string \<Rightarrow> string \<Rightarrow> srcInfo \<Rightarrow> nat \<Rightarrow> string \<Rightarrow> 'w sys \<Rightarrow> 'w sys \<Rightarrow> bool" where
  "cloned view vg n src sz ty s t \<longleftrightarrow>
     (let thin = thin_clone (srcLVName src) (srcVGName src) (srcType src) vg ty in
      clone_spec vg n (srcVGName src) (srcLVName src) sz ty thin (view (s_world s)) True (view (s_world t))
      \<and> (thin \<or> copied (device_path (srcVGName src) (srcLVName src)) (device_path vg n) (s_log s) (s_log t)))"

lemma run_clonelv_copied:
  assumes "run_state (run_provisioner (cloneLVCmd H) c) s = (None, t)" and "\<not> is_thin_clone c"
  shows "copied (src_dev c) (dst_dev c) (s_log s) (s_log t)"
proof -
  obtain x u where b: "run_state (provisioner_before c) s = (x, u)" by (rule prod.exhaust)
  then have "x = None \<longrightarrow> s_log u = s_log s"
    by (auto simp: provisioner_before_def SetCommandTimeout_def SetThinPoolCreateTimeout_def split: if_splits)
  then show ?thesis using assms b clonelv_copied [of H c u t]
    by (cases x) (auto simp: run_provisioner_def cloneLVCmd_def run_bind_eq)
qed

text \<open>
  The cluster: \<open>spec_of ns n w\<close> is the specification under which the pod \<open>n\<close> was last created, and \<open>history w\<close>
  the runs of helpers up to \<open>w\<close>.  The law \<open>stable\<close> excludes that another client replaces a pod while
  the controller waits for it; the source relies on it, as it waits for a name.  The law \<open>own\<close> says
  that a pod from which the driver's specification derives is the driver's own: its container's
  command has no further words.
\<close>

locale helper_cluster =
  fixes K :: "'k kube" and H :: "string \<Rightarrow> 'w host" and view :: "'w \<Rightarrow> inventory"
    and spec_of :: "string \<Rightarrow> string \<Rightarrow> 'k \<Rightarrow> pod_spec option" and history :: "'k \<Rightarrow> 'w helper_run set"
  assumes tools: "lvm_tools (H node) view"
    and history: "r \<in> history w \<Longrightarrow> sound (view (s_world (hr_before r))) \<and> genuine (H (hr_node r)) r"
    and reads: "k_getPod K ns n w = (Inr (Some p), w') \<Longrightarrow> spec_of ns n w' = Some (p_spec p)"
    and stable: "spec_of ns n w = Some e \<Longrightarrow> spec_of ns n (snd (k_getPod K ns n w)) = Some e"
      "spec_of ns n w = Some e \<Longrightarrow> spec_of ns n (k_tick K w) = Some e"
    and created: "k_createPod K ns d w = (None, w') \<Longrightarrow> \<exists>e. spec_of ns (p_name d) w' = Some e \<and> k_derivative K (p_spec d) e"
    and derivative: "k_derivative K sp e \<Longrightarrow> spec_derives sp e"
    and own: "spec_of ns n w = Some e \<Longrightarrow> k_derivative K sp e \<Longrightarrow> ps_containers sp = mine # cs1 \<Longrightarrow> ps_containers e = co # cs2 \<Longrightarrow>
      length (co_command co) = length (co_command mine)"
    and succeeded: "k_getPod K ns n w = (Inr (Some p), w') \<Longrightarrow> p_phase p = PodSucceeded \<Longrightarrow> co \<in> set (ps_containers (p_spec p)) \<Longrightarrow>
      co_command co = [''csi-lvmplugin-provisioner''] \<Longrightarrow>
      \<exists>r \<in> history w'. hr_node r = ps_nodeName (p_spec p) \<and> hr_args r = co_args co \<and> hr_result r = None"
    and named: "k_getPV K n w = (Inr (Some v), w') \<Longrightarrow> pv_name v = n"
    and kept: "history w \<subseteq> history (snd (k_deletePod K ns n g w))"
begin

definition same_spec :: "string \<Rightarrow> pod \<Rightarrow> 'k \<Rightarrow> bool" where
  "same_spec ns d w \<longleftrightarrow> (\<exists>e. spec_of ns (p_name d) w = Some e \<and> k_derivative K (p_spec d) e)"

lemma existing_spec:
  assumes "run_state (useExistingHelper K ns d x) s = (None, t)" and "k_getPod K ns (p_name d) w = (Inr x, c_world s)"
  shows "same_spec ns d (c_world t)"
proof -
  obtain p where p: "x = Some p" "k_derivative K (p_spec d) (p_spec p)" "t = s"
    using assms(1)
    by (auto simp: useExistingHelper_def forceDeleteHelper_def retireHelper_def api_calls run_simps split: option.splits if_splits)
  then show ?thesis using reads [of ns "p_name d" w p "c_world s"] assms(2) by (auto simp: same_spec_def)
qed

lemma ensured_spec:
  assumes "run_state (ensureHelper K ns d m) s = (None, t)"
  shows "same_spec ns d (c_world t)"
proof -
  have reuse: "same_spec ns d (c_world t')" if "run_state (reuseHelper K ns d) s' = (None, t')" for s' t'
  proof -
    obtain x w where x: "k_getPod K ns (p_name d) (c_world s') = (x, w)" by (rule prod.exhaust)
    then show ?thesis using that existing_spec [of ns d _ "s'\<lparr>c_world := w\<rparr>" t']
      by (cases x) (auto simp: reuseHelper_def api_calls run_simps)
  qed
  obtain x w where x: "k_getPod K ns (p_name d) (c_world s) = (x, w)" by (rule prod.exhaust)
  show ?thesis
  proof (cases x)
    case (Inr p)
    then show ?thesis using assms x existing_spec [of ns d p "s\<lparr>c_world := w\<rparr>" t] by (simp add: ensureHelper_def api_calls run_simps)
  next
    case (Inl e)
    obtain a s2 where a: "run_state (admitHelper K ns d m) (s\<lparr>c_world := w\<rparr>) = (a, s2)" by (rule prod.exhaust)
    obtain c w3 where c: "k_createPod K ns d (c_world s2) = (c, w3)" by (rule prod.exhaust)
    have "a = None" using assms x Inl a by (auto simp: ensureHelper_def api_calls run_simps split: if_splits option.splits)
    then show ?thesis using assms x Inl a c reuse created [of ns d "c_world s2" w3]
      by (cases c) (auto simp: ensureHelper_def api_calls run_simps same_spec_def split: if_splits)
  qed
qed

lemma wait_success:
  assumes "wait_loop K ns n resource action s = ((terminal, None), t)" and "spec_of ns n (c_world s) = Some e"
  shows "\<exists>w p. k_getPod K ns n w = (Inr (Some p), c_world t) \<and> p_phase p = PodSucceeded \<and> p_spec p = e"
proof -
  have "seen K ns n t PodSucceeded" using wait_loop_outcome [OF assms(1)] by (auto split: if_splits)
  moreover have "spec_of ns n (c_world t) = Some e"
    by (rule wait_loop_keeps [OF assms(1), where P = "\<lambda>w. spec_of ns n w = Some e", OF assms(2)]) (erule stable)+
  ultimately show ?thesis using reads by (fastforce simp: seen_def)
qed

lemma runHelper_executed:
  assumes run: "run_state (runHelper K ns (newHelperPod params args) params) s = (None, t)"
    and node: "hp_nodeName params \<noteq> ''''" and args: "'''' \<notin> set args"
  shows "\<exists>r \<in> history (c_world t). hr_node r = hp_nodeName params \<and> hr_result r = None
    \<and> (\<exists>g1 g2 extra. hr_args r = g1 # g2 # args @ extra)"
  using run
proof (cases rule: runHelper_cases)
  case (2 s1 terminal u)
  let ?d = "newHelperPod params args"
  let ?co = "newHelperContainer params (helperOperation params) args"
  obtain e where e: "spec_of ns (p_name ?d) (c_world s1) = Some e" "k_derivative K (p_spec ?d) e"
    using ensured_spec [OF 2(1)] by (auto simp: same_spec_def)
  obtain w p where p: "k_getPod K ns (p_name ?d) w = (Inr (Some p), c_world u)" "p_phase p = PodSucceeded" "p_spec p = e"
    using wait_success [OF 2(2) e(1)] by blast
  have spec: "p_spec ?d = helperSpec params (helperOperation params) args"
    by (simp add: newHelperPod_def helperMetadata_def Let_def)
  have "spec_derives (p_spec ?d) e" by (rule derivative [OF e(2)])
  then obtain co rest where co: "ps_nodeName e = hp_nodeName params" "ps_containers e = co # rest" "container_derives ?co co"
    using node by (cases "ps_containers e") (auto simp: spec spec_derives_def helperSpec_def derives_def list_derives_def)
  then have "'''' \<notin> set (co_args ?co)" "list_derives derives (co_args ?co) (co_args co)" using args
    by (auto simp: container_derives_def newHelperContainer_def)
  then obtain extra where extra: "co_args co = co_args ?co @ extra" using list_derives_append by blast
  have "list_derives derives [''csi-lvmplugin-provisioner''] (co_command co)"
    using co(3) by (simp add: container_derives_def newHelperContainer_def)
  then obtain more where "co_command co = [''csi-lvmplugin-provisioner''] @ more" using list_derives_append by fastforce
  moreover have "length (co_command co) = 1"
    using own [OF e _ co(2)] by (simp add: spec helperSpec_def newHelperContainer_def)
  ultimately have "co_command co = [''csi-lvmplugin-provisioner'']" by simp
  with succeeded [OF p(1,2)] co(1,2) p(3) obtain r where r: "r \<in> history (c_world u)" "hr_node r = hp_nodeName params"
      "hr_args r = co_args co" "hr_result r = None"
    by auto
  have terminal using wait_loop_outcome [OF 2(2)] by (auto split: if_splits)
  then have "history (c_world u) \<subseteq> history (c_world t)" using 2(3) kept by (simp add: api_calls run_simps)
  then show ?thesis using r extra by (auto simp: newHelperContainer_def)
qed simp

lemma helper_command:
  assumes "run_state (runHelper K ns (newHelperPod params args) params) s = (None, t)"
    and "hp_nodeName params \<noteq> ''''" and "'''' \<notin> set args"
  obtains r cmd rest c extra where "r \<in> history (c_world t)" "hr_node r = hp_nodeName params" "hr_result r = None"
    "sound (view (s_world (hr_before r)))" "cmd \<in> set (commands (H (hp_nodeName params)))" "args @ extra = cmd_name cmd # rest"
    "parsed (cmd_flags cmd) c rest" "run_state (run_provisioner cmd c) (hr_before r) = (None, hr_after r)"
proof -
  obtain r g1 g2 extra where r: "r \<in> history (c_world t)" "hr_node r = hp_nodeName params" "hr_result r = None"
      "hr_args r = g1 # g2 # args @ extra"
    using runHelper_executed [OF assms] by auto
  show thesis using history [OF r(1)] r by (auto simp: genuine_def intro!: that)
qed

lemma volume_helper_executed:
  assumes run: "run_state (createVolumeHelper K a) s = (None, t)"
    and node: "va_nodeName a \<noteq> ''''" and size: "0 \<le> va_size a" "va_size a \<le> int max_uint64"
    and args: "\<And>args. volumeHelperArgs a = Inr args \<Longrightarrow> '''' \<notin> set args"
    and spec: "\<And>c b r. same_volume a c \<Longrightarrow> sound (view (s_world b)) \<Longrightarrow>
      run_state (run_provisioner (volume_command (H (va_nodeName a)) a) c) b = (None, r) \<Longrightarrow> Q b r"
  shows "performed_run view (history (c_world t)) (va_nodeName a) Q"
proof -
  obtain args where a: "volumeHelperArgs a = Inr args"
      "run_state (runHelper K (va_namespace a) (newHelperPod (volume_helperParams a) args) (volume_helperParams a)) s = (None, t)"
    using run by (auto simp: createVolumeHelper_def Let_def split: sum.splits)
  have n: "hp_nodeName (volume_helperParams a) = va_nodeName a" by (simp add: volume_helperParams_def)
  show ?thesis
  proof (rule helper_command [OF a(2) _ args [OF a(1)], unfolded n, OF node])
    fix r cmd rest c extra
    assume r: "r \<in> history (c_world t)" "hr_node r = va_nodeName a" "hr_result r = None" "sound (view (s_world (hr_before r)))"
      "run_state (run_provisioner cmd c) (hr_before r) = (None, hr_after r)"
      and c: "cmd \<in> set (commands (H (va_nodeName a)))" "args @ extra = cmd_name cmd # rest" "parsed (cmd_flags cmd) c rest"
    from volume_args_reach [OF a(1) size c] r spec show ?thesis by (auto simp: performed_run_def)
  qed
qed

lemma snapshot_helper_executed:
  assumes run: "run_state (createSnapshotHelper K a) s = (None, t)"
    and node: "sa_nodeName a \<noteq> ''''" and size: "- int (max_int64 + 1) \<le> sa_snapSize a" "sa_snapSize a \<le> int max_int64"
    and args: "\<And>args. snapshotHelperArgs a = Inr args \<Longrightarrow> '''' \<notin> set args"
    and spec: "\<And>c b r. same_snapshot a c \<Longrightarrow>
      run_state (run_provisioner (snapshot_command (H (sa_nodeName a)) a) c) b = (None, r) \<Longrightarrow>
      spec (view (s_world b)) True (view (s_world r))"
  shows "performed view (history (c_world t)) (sa_nodeName a) spec"
proof -
  obtain args where a: "snapshotHelperArgs a = Inr args"
      "run_state (runHelper K (sa_namespace a) (newHelperPod (snapshot_helperParams a) args) (snapshot_helperParams a)) s = (None, t)"
    using run by (auto simp: createSnapshotHelper_def Let_def split: sum.splits)
  have n: "hp_nodeName (snapshot_helperParams a) = sa_nodeName a" by (simp add: snapshot_helperParams_def)
  show ?thesis
  proof (rule helper_command [OF a(2) _ args [OF a(1)], unfolded n, OF node])
    fix r cmd rest c extra
    assume r: "r \<in> history (c_world t)" "hr_node r = sa_nodeName a" "hr_result r = None" "sound (view (s_world (hr_before r)))"
      "run_state (run_provisioner cmd c) (hr_before r) = (None, hr_after r)"
      and c: "cmd \<in> set (commands (H (sa_nodeName a)))" "args @ extra = cmd_name cmd # rest" "parsed (cmd_flags cmd) c rest"
    from snapshot_args_reach [OF a(1) size c] r spec show ?thesis by (auto simp: performed_def performed_run_def)
  qed
qed

text \<open>The actions of the controller, on the inventory of their node.\<close>

lemma creation_executed:
  assumes "run_state (createVolumeHelper K (newCreateVolumeAction cs n node ty vg b)) s = (None, t)"
    and "n \<noteq> ''''" "node \<noteq> ''''" "ty \<noteq> ''''" "vg_component vg" "0 \<le> b" "b \<le> int max_uint64"
  shows "performed view (history (c_world t)) node (create_spec vg n (nat b) ty)"
proof -
  let ?a = "newCreateVolumeAction cs n node ty vg b"
  have "performed view (history (c_world t)) (va_nodeName ?a) (create_spec vg n (nat b) ty)"
    unfolding performed_def
  proof (rule volume_helper_executed [OF assms(1)])
    fix c x r
    assume *: "same_volume ?a c" "sound (view (s_world x))"
      "run_state (run_provisioner (volume_command (H (va_nodeName ?a)) ?a) c) x = (None, r)"
    then have c: "c_String c flagLVName = n" "c_String c flagVGName = vg" "c_String c flagLVMType = ty" "c_Uint64 c flagLVSize = nat b"
      by (auto simp: same_volume_def newCreateVolumeAction_def)
    from * have "run_state (run_provisioner (createLVCmd (H node)) c) x = (None, r)"
      by (simp add: volume_command_def newCreateVolumeAction_def)
    from run_createlv [OF tools _ _ *(2) this, unfolded c] assms(5,7)
    show "create_spec vg n (nat b) ty (view (s_world x)) True (view (s_world r))" by simp
  qed (use assms in \<open>auto simp: newCreateVolumeAction_def volumeHelperArgs_def action_types vg_component_def\<close>)
  then show ?thesis by (simp add: newCreateVolumeAction_def)
qed

lemma clone_executed:
  assumes "run_state (createVolumeHelper K (clone_of cs src n node ty vg b)) s = (None, t)"
    and "n \<noteq> ''''" "node \<noteq> ''''" "ty \<noteq> ''''" "vg_component vg" "0 \<le> b" "b \<le> int max_uint64"
    and "srcLVName src \<noteq> ''''" "srcVGName src \<noteq> ''''" "srcType src \<noteq> ''''"
  shows "performed_run view (history (c_world t)) node (cloned view vg n src (nat b) ty)"
proof -
  let ?a = "clone_of cs src n node ty vg b"
  have "performed_run view (history (c_world t)) (va_nodeName ?a) (cloned view vg n src (nat b) ty)"
  proof (rule volume_helper_executed [OF assms(1)])
    fix c x r
    assume *: "same_volume ?a c" "sound (view (s_world x))"
      "run_state (run_provisioner (volume_command (H (va_nodeName ?a)) ?a) c) x = (None, r)"
    then have c: "c_String c flagLVName = n" "c_String c flagVGName = vg" "c_String c flagLVMType = ty" "c_Uint64 c flagLVSize = nat b"
        "c_String c flagSrcLVName = srcLVName src" "c_String c flagSrcVGName = srcVGName src" "c_String c flagSrcType = srcType src"
      by (auto simp: same_volume_def clone_of_def newCreateVolumeAction_def)
    from * have run: "run_state (run_provisioner (cloneLVCmd (H node)) c) x = (None, r)"
      by (simp add: volume_command_def clone_of_def newCreateVolumeAction_def)
    from run_clonelv [OF tools _ _ *(2) run, unfolded c is_thin_clone_def] assms(5,7)
      run_clonelv_copied [OF run, unfolded c is_thin_clone_def src_dev_def dst_dev_def]
    show "cloned view vg n src (nat b) ty x r" by (auto simp: cloned_def Let_def)
  qed (use assms in \<open>auto simp: clone_of_def newCreateVolumeAction_def volumeHelperArgs_def action_types vg_component_def\<close>)
  then show ?thesis by (simp add: clone_of_def newCreateVolumeAction_def)
qed

lemma deletion_executed:
  assumes "run_state (createVolumeHelper K (newDeleteVolumeAction cs n node vg ty)) s = (None, t)"
    and "n \<noteq> ''''" "node \<noteq> ''''" "ty \<noteq> ''''" "vg \<noteq> ''''"
  shows "performed view (history (c_world t)) node (delete_volume_spec vg n ty)"
proof -
  let ?a = "newDeleteVolumeAction cs n node vg ty"
  have "performed view (history (c_world t)) (va_nodeName ?a) (delete_volume_spec vg n ty)"
    unfolding performed_def
  proof (rule volume_helper_executed [OF assms(1)])
    fix c x r
    assume *: "same_volume ?a c" "sound (view (s_world x))"
      "run_state (run_provisioner (volume_command (H (va_nodeName ?a)) ?a) c) x = (None, r)"
    then have c: "c_String c flagLVName = n" "c_String c flagSrcVGName = vg" "c_String c flagSrcType = ty"
      by (auto simp: same_volume_def newDeleteVolumeAction_def)
    from * have "run_state (run_provisioner (deleteLVCmd (H node)) c) x = (None, r)"
      by (simp add: volume_command_def newDeleteVolumeAction_def)
    from run_deletelv [OF tools this, unfolded c]
    show "delete_volume_spec vg n ty (view (s_world x)) True (view (s_world r))" by simp
  qed (use assms in \<open>auto simp: newDeleteVolumeAction_def volumeHelperArgs_def action_types max_uint64_def\<close>)
  then show ?thesis by (simp add: newDeleteVolumeAction_def)
qed

lemma snapshot_executed:
  assumes "run_state (createSnapshotHelper K (newCreateSnapshotAction cs n src node vg ty b)) s = (None, t)"
    and "n \<noteq> ''''" "src \<noteq> ''''" "node \<noteq> ''''" "ty \<noteq> ''''" "vg \<noteq> ''''" "0 \<le> b" "b \<le> int max_int64"
  shows "performed view (history (c_world t)) node (snapshot_spec vg (backend_snapshot n) src ty)"
proof -
  let ?a = "newCreateSnapshotAction cs n src node vg ty b"
  have "performed view (history (c_world t)) (sa_nodeName ?a) (snapshot_spec vg (backend_snapshot n) src ty)"
  proof (rule snapshot_helper_executed [OF assms(1)])
    fix c x r
    assume *: "same_snapshot ?a c"
      "run_state (run_provisioner (snapshot_command (H (sa_nodeName ?a)) ?a) c) x = (None, r)"
    then have c: "c_String c flagSnapName = n" "c_String c flagLVName = src" "c_String c flagVGName = vg" "c_String c flagLVMType = ty"
      by (auto simp: same_snapshot_def newCreateSnapshotAction_def)
    from * have "run_state (run_provisioner (createSnapCmd (H node)) c) x = (None, r)"
      by (simp add: snapshot_command_def newCreateSnapshotAction_def)
    from run_createsnap [OF tools this, unfolded c]
    show "snapshot_spec vg (backend_snapshot n) src ty (view (s_world x)) True (view (s_world r))" by simp
  qed (use assms in \<open>auto simp: newCreateSnapshotAction_def snapshotHelperArgs_def action_types max_int64_def\<close>)
  then show ?thesis by (simp add: newCreateSnapshotAction_def)
qed

end

subsection \<open>The calls\<close>

lemma params_component:
  "parseLVMParameters p = Inr (ty, vg) \<Longrightarrow> vg_component vg"
  "metadataFromPV v = Inr (node, vg, ty) \<Longrightarrow> vg_component vg"
proof -
  have *: "vg_name_ok vg \<Longrightarrow> vg_component vg" using vg_name_no_slash by (auto simp: vg_component_def vg_name_ok_def)
  then show "parseLVMParameters p = Inr (ty, vg) \<Longrightarrow> vg_component vg" by (simp add: parseLVMParameters_Inr)
  show "metadataFromPV v = Inr (node, vg, ty) \<Longrightarrow> vg_component vg"
    by (rule *) (auto simp: metadataFromPV_def lvmAttributesFromPV_def vg_name.check_iff Let_def
        split: option.splits sum.splits prod.splits if_splits)
qed

lemma component_nonempty: "vg_component vg \<Longrightarrow> vg \<noteq> ''''"
  by (simp add: vg_component_def)

lemma CreateVolume_success:
  assumes "run_state (CreateVolume K cs req) s = (Inr v, t)"
    and "validateControllerServiceRequest cs RPC_CREATE_DELETE_VOLUME = None"
  obtains ty vg b node where "create_params req ty vg b node" "run_state (provisionVolume K cs req node ty vg b) s = (None, t)"
    "vol_id v = cv_name req" "vol_capacity v = b" "vol_topology v = [[topologyKeyNode \<mapsto> node]]"
    "vol_context v = buildVolumeContext (cv_parameters req) b"
proof -
  obtain ty vg b node where p: "create_params req ty vg b node"
    using assms(1) CreateVolume_invalid [OF assms(2), of req K] by force
  then show thesis using assms(1) CreateVolume_valid [OF assms(2) p, of K] that
    by (auto simp: buildVolumeContext_def split: prod.splits option.splits)
qed

lemma provision_executed:
  assumes "helper_cluster K H view spec_of history" and "create_params req ty vg b node" and "cv_source req = None"
    and "run_state (provisionVolume K cs req node ty vg b) s = (None, t)" and "b \<le> int max_int64"
  shows "performed view (history (c_world t)) node (create_spec vg (cv_name req) (nat b) ty)"
proof -
  have "parseLVMParameters (cv_parameters req) = Inr (ty, vg)" "0 \<le> b"
    using assms(2) by (auto simp: create_params_def validateCapacityRange_def split: option.splits if_splits)
  moreover have "b \<le> int max_uint64" using assms(5) by (simp add: max_int64_def max_uint64_def)
  ultimately show ?thesis
    using assms(3,4) create_params_nonempty [OF assms(2)] params_component(1)
    by (intro helper_cluster.creation_executed [OF assms(1)]) (auto simp: provisionVolume_def)
qed


text \<open>The names of a source are never empty.\<close>

lemma clone_source_nonempty:
  assumes "clone_source K cs source ty node b src" and "ty \<noteq> ''''"
    and "\<And>n w v w'. k_getPV K n w = (Inr (Some v), w') \<Longrightarrow> pv_name v = n"
  shows "srcLVName src \<noteq> ''''" "srcVGName src \<noteq> ''''" "srcType src \<noteq> ''''"
proof -
  have named: "pv_name v = n" if "answers (k_getPV K n) (Inr (Some v))" for n v
    using that assms(3) by (metis answers_def prod.collapse)
  have meta: "vg \<noteq> '''' \<and> lvmType \<noteq> ''''" if "metadataFromPV v = Inr (node', vg, lvmType)" for v node' vg lvmType
    using component_nonempty [OF params_component(2) [OF that]] metadataFromPV_nonempty(2) [OF that] by auto
  have loc: "vg \<noteq> ''''" if "located K cs h c node' vg" for h c node' vg
    using that snapshotLocationFromConfigMap_sound [of _ h]
    by (fastforce simp: located_def location_ok_def vg_name.check_iff vg_name_ok_def split: if_splits)
  have "srcLVName src \<noteq> '''' \<and> srcVGName src \<noteq> '''' \<and> srcType src \<noteq> ''''"
    using assms(1,2) unfolding clone_source_def snapshot_source_def volume_source_def
    by (auto split: option.splits content_kind.splits if_splits dest: named dest!: meta loc)
  then show "srcLVName src \<noteq> ''''" "srcVGName src \<noteq> ''''" "srcType src \<noteq> ''''" by simp_all
qed


lemma DeleteVolume_run:
  assumes "run_state (DeleteVolume K cs volID) s = (None, t)" and "k_getPV K volID (c_world s) = (Inr (Some v), w)"
    and "metadataFromPV (Some v) = Inr (node, vg, ty)" and "k_getNode K node w = (n, w')"
  shows "volID \<noteq> ''''"
    and "if n = None then run_state (createVolumeHelper K (newDeleteVolumeAction cs volID node vg ty)) (s\<lparr>c_world := w'\<rparr>) = (None, t)
      else n = Some ApiNotFound \<and> c_log t = c_log s"
proof -
  have valid: "validateDeleteVolumeRequest volID = None" "validateControllerServiceRequest cs RPC_CREATE_DELETE_VOLUME = None"
    using assms(1) by (auto simp: DeleteVolume_def split: option.splits)
  then show "volID \<noteq> ''''" by (auto simp: validateDeleteVolumeRequest_def)
  show "if n = None then run_state (createVolumeHelper K (newDeleteVolumeAction cs volID node vg ty)) (s\<lparr>c_world := w'\<rparr>) = (None, t)
      else n = Some ApiNotFound \<and> c_log t = c_log s"
    using assms valid
    by (auto simp: DeleteVolume_def persistentVolumeForDeletion_def nodeAvailableForDeletion_def api_calls run_simps
        split: option.splits if_splits)
qed



subsection \<open>A concrete cluster\<close>

text \<open>
  A cluster whose nodes run the concrete LVM of \<open>Lvm_Simulator\<close>.  A pod is kept with the inventory its
  node had when it was created; when it is read, its phase is computed by running the provisioner
  on that inventory.  \<open>lc_log\<close> has all pods that were ever created, the latest first, \<open>lc_live\<close> the
  names of those that still exist.
\<close>

fun flag_values :: "string list \<Rightarrow> (string \<times> string) list" where
  "flag_values (a # v # rest) = (a, v) # flag_values rest"
| "flag_values _ = []"

definition value_of :: "string list \<Rightarrow> string \<Rightarrow> string" where
  "value_of args f = (case map_of (flag_values args) (''--'' @ f) of None \<Rightarrow> '''' | Some v \<Rightarrow> v)"

definition context_from :: "string list \<Rightarrow> cli_context" where
  "context_from args = \<lparr>
     c_String = value_of args,
     c_Uint64 = (\<lambda>f. case ParseUint (value_of args f) of Inr n \<Rightarrow> n | Inl _ \<Rightarrow> 0),
     c_Int64 = (\<lambda>f. case ParseInt (value_of args f) of Inr n \<Rightarrow> n | Inl _ \<Rightarrow> 0),
     c_Duration = (\<lambda>_. 0)\<rparr>"

definition sound_list :: "lv_entry list \<Rightarrow> bool" where
  "sound_list w \<longleftrightarrow> list_all (\<lambda>e. (origin e \<noteq> '''' \<longrightarrow> sim_view w (vg_name e, origin e) \<noteq> None)
     \<and> (pool_lv e \<noteq> '''' \<longrightarrow> sim_view w (vg_name e, pool_lv e) \<noteq> None)) w"

definition command_run :: "string \<Rightarrow> string list \<Rightarrow> lv_entry list \<Rightarrow> lv_entry list helper_run option" where
  "command_run node args old =
     (case args of
        g1 # g2 # n # rest \<Rightarrow>
          (case find (\<lambda>cmd. cmd_name cmd = n) (commands sim_host) of
             None \<Rightarrow> None
           | Some cmd \<Rightarrow>
               let c = timed (context_from rest) in
               if sound_list old \<and> parsed (cmd_flags cmd) c rest then
                 (case run_state (run_provisioner cmd c) (start old) of
                    (r, t) \<Rightarrow> Some \<lparr>hr_node = node, hr_args = args, hr_before = start old, hr_result = r, hr_after = t\<rparr>)
               else None)
      | _ \<Rightarrow> None)"

definition pod_run :: "pod \<Rightarrow> lv_entry list \<Rightarrow> lv_entry list helper_run option" where
  "pod_run p old =
     (case ps_containers (p_spec p) of
        [co] \<Rightarrow> if co_command co = [''csi-lvmplugin-provisioner''] then command_run (ps_nodeName (p_spec p)) (co_args co) old else None
      | _ \<Rightarrow> None)"

definition run_phase :: "pod \<Rightarrow> lv_entry list \<Rightarrow> string" where
  "run_phase p old = (case pod_run p old of
     Some r \<Rightarrow> if hr_result r = None then PodSucceeded else PodFailed | None \<Rightarrow> PodFailed)"

record live_cluster =
  lc_log :: "(pod \<times> lv_entry list) list"
  lc_live :: "string list"
  lc_inventory :: "string \<Rightarrow> lv_entry list"
  lc_pvs :: "persistent_volume list"
  lc_nodes :: "string list"
  lc_maps :: "config_map list"

definition logged :: "string \<Rightarrow> live_cluster \<Rightarrow> (pod \<times> lv_entry list) option" where
  "logged n w = find (\<lambda>(p, _). p_name p = n) (lc_log w)"

definition live_pod :: "string \<Rightarrow> live_cluster \<Rightarrow> pod option" where
  "live_pod n w = (if n \<in> set (lc_live w) then map_option (\<lambda>(p, old). p\<lparr>p_phase := run_phase p old\<rparr>) (logged n w) else None)"

definition start_pod :: "pod \<Rightarrow> live_cluster \<Rightarrow> live_cluster" where
  "start_pod p w =
     (let node = ps_nodeName (p_spec p); old = lc_inventory w node;
          old' = (case pod_run p old of Some r \<Rightarrow> s_world (hr_after r) | None \<Rightarrow> old)
      in w\<lparr>lc_log := (p, old) # lc_log w, lc_live := p_name p # lc_live w, lc_inventory := (lc_inventory w)(node := old')\<rparr>)"

definition live_kube :: "live_cluster kube" where
  "live_kube = \<lparr>
     k_getPod = (\<lambda>_ n w. (found (live_pod n w), w)),
     k_listPods = (\<lambda>_ w. (Inr (List.map_filter (\<lambda>n. live_pod n w) (lc_live w)), w)),
     k_createPod = (\<lambda>_ p w. if p_name p \<in> set (lc_live w) then (Some ApiAlreadyExists, w) else (None, start_pod p w)),
     k_deletePod = (\<lambda>_ n _ w. (None, w\<lparr>lc_live := removeAll n (lc_live w)\<rparr>)),
     k_getPV = (\<lambda>n w. (found (find (\<lambda>v. pv_name v = n) (lc_pvs w)), w)),
     k_getNode = (\<lambda>n w. (if n \<in> set (lc_nodes w) then None else Some ApiNotFound, w)),
     k_listContents = (\<lambda>w. (Inr [], w)),
     k_createConfigMap = (\<lambda>_ c w. if \<exists>d \<in> set (lc_maps w). cm_name d = cm_name c then (Some ApiAlreadyExists, w)
                        else (None, w\<lparr>lc_maps := c # lc_maps w\<rparr>)),
     k_getConfigMap = (\<lambda>_ n w. (found (find (\<lambda>c. cm_name c = n) (lc_maps w)), w)),
     k_deleteConfigMap = (\<lambda>_ n w. (None, w\<lparr>lc_maps := filter (\<lambda>c. cm_name c \<noteq> n) (lc_maps w)\<rparr>)),
     k_ctxErr = (\<lambda>_. None), k_tick = (\<lambda>w. w), k_now = (\<lambda>_. 0),
     k_derivative = (=), k_sha256hex = (\<lambda>s. s)\<rparr>"

definition live_spec :: "string \<Rightarrow> string \<Rightarrow> live_cluster \<Rightarrow> pod_spec option" where
  "live_spec _ n w = map_option (\<lambda>(p, _). p_spec p) (logged n w)"

definition live_history :: "live_cluster \<Rightarrow> lv_entry list helper_run set" where
  "live_history w = {r. \<exists>(p, old) \<in> set (lc_log w). pod_run p old = Some r}"

lemma view_entry: "sim_view w (vg, n) = Some e \<Longrightarrow> e \<in> set w \<and> vg_name e = vg"
  by (auto simp: sim_view_def at_def find_Some_iff split: if_splits)

lemma sound_list_sound:
  assumes "sound_list w"
  shows "sound (sim_view w)"
  unfolding sound_def
proof (intro allI impI)
  fix vg n e
  assume "sim_view w (vg, n) = Some e"
  with view_entry have "e \<in> set w" "vg_name e = vg" by auto
  then show "(origin e \<noteq> '''' \<longrightarrow> sim_view w (vg, origin e) \<noteq> None) \<and> (pool_lv e \<noteq> '''' \<longrightarrow> sim_view w (vg, pool_lv e) \<noteq> None)"
    using assms unfolding sound_list_def list_all_iff by blast
qed

lemma command_run_genuine:
  assumes "command_run node args old = Some r"
  shows "hr_node r = node" "hr_args r = args" "sound (sim_view (s_world (hr_before r)))" "genuine sim_host r"
proof -
  obtain g1 g2 n rest cmd where a: "args = g1 # g2 # n # rest" "find (\<lambda>cmd. cmd_name cmd = n) (commands sim_host) = Some cmd"
    using assms by (auto simp: command_run_def split: list.splits option.splits)
  let ?c = "timed (context_from rest)"
  have c: "cmd \<in> set (commands sim_host)" "n = cmd_name cmd" using a(2) by (auto simp: find_Some_iff)
  obtain x t where run: "run_state (run_provisioner cmd ?c) (start old) = (x, t)" by (rule prod.exhaust)
  have r: "sound_list old" "parsed (cmd_flags cmd) ?c rest"
      "r = \<lparr>hr_node = node, hr_args = args, hr_before = start old, hr_result = x, hr_after = t\<rparr>"
    using assms a run by (auto simp: command_run_def Let_def split: if_splits)
  then show "hr_node r = node" "hr_args r = args" "sound (sim_view (s_world (hr_before r)))" by (simp_all add: sound_list_sound)
  show "genuine sim_host r" unfolding genuine_def using r run a(1) c by auto
qed

lemma pod_run_genuine:
  assumes "pod_run p old = Some r"
  shows "hr_node r = ps_nodeName (p_spec p)" "sound (sim_view (s_world (hr_before r)))" "genuine sim_host r"
    and "co \<in> set (ps_containers (p_spec p)) \<Longrightarrow> hr_args r = co_args co"
  using assms command_run_genuine by (auto simp: pod_run_def split: list.splits if_splits)

lemma live_calls:
  "k_getPod live_kube ns n w = (found (live_pod n w), w)"
  "k_listPods live_kube ns w = (Inr (List.map_filter (\<lambda>n. live_pod n w) (lc_live w)), w)"
  "k_createPod live_kube ns p w = (if p_name p \<in> set (lc_live w) then (Some ApiAlreadyExists, w) else (None, start_pod p w))"
  "k_deletePod live_kube ns n g w = (None, w\<lparr>lc_live := removeAll n (lc_live w)\<rparr>)"
  "k_getPV live_kube n w = (found (find (\<lambda>v. pv_name v = n) (lc_pvs w)), w)"
  "k_getNode live_kube n w = (if n \<in> set (lc_nodes w) then None else Some ApiNotFound, w)"
  "k_createConfigMap live_kube ns c w =
     (if \<exists>d \<in> set (lc_maps w). cm_name d = cm_name c then (Some ApiAlreadyExists, w) else (None, w\<lparr>lc_maps := c # lc_maps w\<rparr>))"
  "k_getConfigMap live_kube ns n w = (found (find (\<lambda>c. cm_name c = n) (lc_maps w)), w)"
  "k_ctxErr live_kube w = None" "k_tick live_kube w = w" "k_derivative live_kube = (=)" "k_sha256hex live_kube = (\<lambda>s. s)"
  by (simp_all add: live_kube_def)

lemma live_pod_Some:
  assumes "found (live_pod n w) = Inr (Some p)"
  obtains q old where "logged n w = Some (q, old)" "(q, old) \<in> set (lc_log w)" "p = q\<lparr>p_phase := run_phase q old\<rparr>"
proof -
  obtain q old where q: "logged n w = Some (q, old)" "p = q\<lparr>p_phase := run_phase q old\<rparr>"
    using assms by (auto simp: found_def live_pod_def split: if_splits option.splits)
  then have "(q, old) \<in> set (lc_log w)" by (metis find_Some_iff logged_def nth_mem)
  then show thesis using q that by blast
qed

interpretation live: helper_cluster live_kube "\<lambda>_. sim_host" sim_view live_spec live_history
proof (rule helper_cluster.intro)
  show "lvm_tools sim_host sim_view" by (rule sim.lvm_tools_axioms)
next
  fix r w
  assume "r \<in> live_history w"
  then show "sound (sim_view (s_world (hr_before r))) \<and> genuine sim_host r"
    using pod_run_genuine by (auto simp: live_history_def)
next
  fix ns n w p w'
  assume "k_getPod live_kube ns n w = (Inr (Some p), w')"
  then show "live_spec ns n w' = Some (p_spec p)" by (auto simp: live_calls live_spec_def elim!: live_pod_Some)
next
  fix ns n w p w' co
  assume "k_getPod live_kube ns n w = (Inr (Some p), w')" and ph: "p_phase p = PodSucceeded" and co: "co \<in> set (ps_containers (p_spec p))"
  then obtain q old where q: "w' = w" "(q, old) \<in> set (lc_log w)" "p = q\<lparr>p_phase := run_phase q old\<rparr>"
    by (auto simp: live_calls elim!: live_pod_Some)
  then obtain r where r: "pod_run q old = Some r" "hr_result r = None"
    using ph by (auto simp: run_phase_def split: option.splits if_splits)
  with q co pod_run_genuine [OF r(1)] show "\<exists>r \<in> live_history w'. hr_node r = ps_nodeName (p_spec p) \<and> hr_args r = co_args co \<and> hr_result r = None"
    by (auto simp: live_history_def intro!: bexI [of _ r])
next
  fix ns d w w'
  assume "k_createPod live_kube ns d w = (None, w')"
  then show "\<exists>e. live_spec ns (p_name d) w' = Some e \<and> k_derivative live_kube (p_spec d) e"
    by (auto simp: live_calls live_spec_def logged_def start_pod_def Let_def split: if_splits)
next
  fix n w v w'
  assume "k_getPV live_kube n w = (Inr (Some v), w')"
  then show "pv_name v = n" by (auto simp: live_calls found_def find_Some_iff split: option.splits)
qed (auto simp: live_calls spec_derives_refl live_history_def live_spec_def logged_def)

subsection \<open>Examples\<close>

lemma live_runHelper:
  assumes "helperVGs p \<noteq> []" and "0 < MaxActive (hp_config params)" and "lc_live (c_world s) = []"
    and "pod_run p (lc_inventory (c_world s) (ps_nodeName (p_spec p))) = Some r" and "hr_result r = None"
  shows "\<exists>t. run_state (runHelper live_kube ns p params) s = (None, t)"
proof -
  let ?s1 = "s\<lparr>c_world := start_pod p (c_world s), c_log := c_log s @ [KCreatePod ns p None]\<rparr>"
  let ?q = "p\<lparr>p_phase := run_phase p (lc_inventory (c_world s) (ps_nodeName (p_spec p)))\<rparr>"
  have adm: "first_error (vg_admission [] p (MaxActive (hp_config params))) (helperVGs p) = None"
    using assms(2) by (simp add: vg_limit.check_iff countActiveHelpers_def)
  have en: "run_state (ensureHelper live_kube ns p (MaxActive (hp_config params))) s = (None, ?s1)"
    using assms(1-3)
    by (simp add: adm ensureHelper_def admitHelper_def api_calls run_simps live_calls found_def not_found_def live_pod_def Let_def
        map_filter_simps)
  have "live_pod (p_name p) (c_world ?s1) = Some ?q" by (simp add: live_pod_def start_pod_def logged_def Let_def)
  moreover have "p_phase ?q = PodSucceeded" using assms(4,5) by (simp add: run_phase_def)
  ultimately have "wait_loop live_kube ns (p_name p) (hp_resource params) (hp_action params) ?s1 = ((True, None), ?s1)"
    using wait_loop_succeeds [of 0 live_kube ns "p_name p" ?s1 _ ?q] by (simp add: live_calls found_def)
  then show ?thesis using en
    by (simp add: runHelper_def waitForHelper_def deleteHelper_def api_calls run_simps live_calls)
qed

definition fresh :: live_cluster where
  "fresh = \<lparr>lc_log = [], lc_live = [], lc_inventory = (\<lambda>_. []), lc_pvs = [pv_x], lc_nodes = [''node1''], lc_maps = []\<rparr>"

lemma fresh_simps [simp]:
  "lc_log fresh = []" "lc_live fresh = []" "lc_inventory fresh = (\<lambda>_. [])" "lc_pvs fresh = [pv_x]" "lc_nodes fresh = [''node1'']"
  "lc_maps fresh = []"
  by (simp_all add: fresh_def)

lemma sound_lists [simp]: "sound_list []" "sound_list [entry_x]"
  by (simp_all add: sound_list_def entry_x_def)

lemma context_values [simp]:
  "c_String (context_from args) = value_of args"
  "c_Uint64 (context_from args) f = (case ParseUint (value_of args f) of Inr n \<Rightarrow> n | Inl _ \<Rightarrow> 0)"
  "c_Int64 (context_from args) f = (case ParseInt (value_of args f) of Inr n \<Rightarrow> n | Inl _ \<Rightarrow> 0)"
  by (simp_all add: context_from_def)

lemma show_4096: "ParseUint (show_int 4096) = Inr 4096" "ParseInt (show_int 4096) = Inr 4096"
  by (simp_all add: ParseUint_show_int max_uint64_def, rule ParseInt_show_int) (simp_all add: max_int64_def)

lemma command_runs:
  assumes "find (\<lambda>cmd. cmd_name cmd = n) (commands sim_host) = Some cmd" and "sound_list old"
    and "parsed (cmd_flags cmd) (timed (context_from rest)) rest"
    and "\<exists>t. run_state (run_provisioner cmd (timed (context_from rest))) (start old) = (None, t)"
  shows "\<exists>r. command_run node (g1 # g2 # n # rest) old = Some r \<and> hr_result r = None"
  using assms by (auto simp: command_run_def Let_def)

lemmas run_simps_x = commands_def command_members command_tables flag_names lvm_types value_of_def show_4096

lemma run_create:
  "\<exists>r. command_run node (g1 # g2 # [''createlv'', ''--lvsize'', show_int 4096, ''--lvmtype'', ''striped'', ''--vgname'', ''vg1'',
     ''--lvname'', ''pvc-1'']) [] = Some r \<and> hr_result r = None"
  by (rule command_runs [of _ "createLVCmd sim_host"])
    (use sim_createlv [of "context_from [''--lvsize'', show_int 4096, ''--lvmtype'', ''striped'', ''--vgname'', ''vg1'',
       ''--lvname'', ''pvc-1'']"] in \<open>auto simp: run_simps_x\<close>)

lemma run_delete:
  "\<exists>r. command_run node (g1 # g2 # [''deletelv'', ''--srcvgname'', ''vg1'', ''--srctype'', ''striped'', ''--lvname'', ''pvc-1'']) [entry_x]
     = Some r \<and> hr_result r = None"
  by (rule command_runs [of _ "deleteLVCmd sim_host"])
    (use sim_deletelv [of "context_from [''--srcvgname'', ''vg1'', ''--srctype'', ''striped'', ''--lvname'', ''pvc-1'']"]
      in \<open>auto simp: run_simps_x\<close>)

lemma run_snapshot:
  "\<exists>r. command_run node (g1 # g2 # [''createsnap'', ''--snapname'', ''snapshot-1'', ''--lvname'', ''pvc-1'', ''--vgname'', ''vg1'',
     ''--lvsize'', show_int 4096, ''--lvmtype'', ''striped'']) [entry_x] = Some r \<and> hr_result r = None"
  by (rule command_runs [of _ "createSnapCmd sim_host"])
    (use sim_createsnap [of "context_from [''--snapname'', ''snapshot-1'', ''--lvname'', ''pvc-1'', ''--vgname'', ''vg1'',
       ''--lvsize'', show_int 4096, ''--lvmtype'', ''striped'']"] in \<open>auto simp: run_simps_x\<close>)

lemma run_clone:
  "\<exists>r. command_run node (g1 # g2 # [''clonelv'', ''--srclvname'', ''pvc-1'', ''--srcvgname'', ''vg1'', ''--srctype'', ''striped'',
     ''--lvsize'', show_int 4096, ''--vgname'', ''vg1'', ''--lvmtype'', ''striped'', ''--lvname'', ''pvc-2'']) [entry_x]
     = Some r \<and> hr_result r = None"
  by (rule command_runs [of _ "cloneLVCmd sim_host"])
    (use sim_copy_clone [of "context_from [''--srclvname'', ''pvc-1'', ''--srcvgname'', ''vg1'', ''--srctype'', ''striped'',
       ''--lvsize'', show_int 4096, ''--vgname'', ''vg1'', ''--lvmtype'', ''striped'', ''--lvname'', ''pvc-2'']"]
      in \<open>auto simp: run_simps_x\<close>)

lemma helper_run_of:
  assumes "\<And>g1 g2. \<exists>r. command_run (hp_nodeName params) (g1 # g2 # args) (lc_inventory (c_world s) (hp_nodeName params)) = Some r
      \<and> hr_result r = None"
    and "hp_vgName params \<noteq> ''''" and "0 < MaxActive (hp_config params)" and "lc_live (c_world s) = []"
  shows "\<exists>t. run_state (runHelper live_kube ns (newHelperPod params args) params) s = (None, t)"
proof -
  let ?p = "newHelperPod params args"
  let ?g1 = "''--command-timeout='' @ Duration_String (CommandTimeout (hp_config params))"
  let ?g2 = "''--thin-pool-create-timeout='' @ Duration_String (ThinPoolCreateTimeout (hp_config params))"
  obtain r where r: "command_run (hp_nodeName params) (?g1 # ?g2 # args) (lc_inventory (c_world s) (hp_nodeName params)) = Some r"
      "hr_result r = None"
    using assms(1) by blast
  have spec: "p_spec ?p = helperSpec params (helperOperation params) args" by (simp add: newHelperPod_def helperMetadata_def Let_def)
  have run: "pod_run ?p old = command_run (hp_nodeName params) (?g1 # ?g2 # args) old" "ps_nodeName (p_spec ?p) = hp_nodeName params" for old
    by (simp_all add: pod_run_def spec helperSpec_def newHelperContainer_def)
  have "hp_vgName params \<in> set (helperVGs ?p)" using assms(2) by (simp add: newHelperPod_groups)
  then have "helperVGs ?p \<noteq> []" by auto
  from live_runHelper [OF this assms(3,4), of r] r run show ?thesis by simp
qed

lemma live_createVolumeHelper:
  assumes "volumeHelperArgs a = Inr args"
    and "\<And>g1 g2. \<exists>r. command_run node (g1 # g2 # args) old = Some r \<and> hr_result r = None"
    and "va_nodeName a = node" and "lc_inventory (c_world s) node = old"
    and "va_vgName a \<noteq> []" and "0 < MaxActive (va_helperConfig a)" and "lc_live (c_world s) = []"
  shows "\<exists>t. run_state (createVolumeHelper live_kube a) s = (None, t)"
  using helper_run_of [of "volume_helperParams a" args s] assms
  by (simp add: createVolumeHelper_def volume_helperParams_def Let_def)

lemma live_createSnapshotHelper:
  assumes "snapshotHelperArgs a = Inr args"
    and "\<And>g1 g2. \<exists>r. command_run node (g1 # g2 # args) old = Some r \<and> hr_result r = None"
    and "sa_nodeName a = node" and "lc_inventory (c_world s) node = old"
    and "sa_vgName a \<noteq> []" and "0 < MaxActive (sa_helperConfig a)" and "lc_live (c_world s) = []"
  shows "\<exists>t. run_state (createSnapshotHelper live_kube a) s = (None, t)"
  using helper_run_of [of "snapshot_helperParams a" args s] assms
  by (simp add: createSnapshotHelper_def snapshot_helperParams_def Let_def)

lemma server_x_config [simp]: "0 < MaxActive (srv_helperConfig server_x)"
  by (simp add: server_x_def DefaultHelperConfig_def)

lemma create_x_run:
  "\<exists>v t. run_state (CreateVolume live_kube server_x create_x) (k_start fresh) = (Inr v, t) \<and> vol_id v = ''pvc-1''
     \<and> vol_capacity v = 4096 \<and> vol_context v = (cv_parameters create_x)(''RequiredBytes'' \<mapsto> show_int 4096)
     \<and> vol_topology v = [[topologyKeyNode \<mapsto> ''node1'']]"
proof -
  let ?a = "newCreateVolumeAction server_x ''pvc-1'' ''node1'' ''striped'' ''vg1'' 4096"
  obtain t where t: "run_state (createVolumeHelper live_kube ?a) (k_start fresh) = (None, t)"
    using live_createVolumeHelper [where a = ?a and s = "k_start fresh", OF _ run_create]
    by (auto simp: newCreateVolumeAction_def volumeHelperArgs_def action_types)
  have src: "cv_source create_x = None" "cv_name create_x = ''pvc-1''" by (simp_all add: create_x_def)
  then show ?thesis
    using CreateVolume_valid [OF server_x_caps create_x_params, of live_kube] t by (simp add: provisionVolume_def src)
qed


definition stocked :: live_cluster where
  "stocked = fresh\<lparr>lc_inventory := (\<lambda>_. [entry_x])\<rparr>"

lemma stocked_simps [simp]:
  "lc_log stocked = []" "lc_live stocked = []" "lc_inventory stocked = (\<lambda>_. [entry_x])" "lc_pvs stocked = [pv_x]"
  "lc_nodes stocked = [''node1'']" "lc_maps stocked = []"
  by (simp_all add: stocked_def)

lemma pv_x_name [simp]: "pv_name pv_x = ''pvc-1''"
  by (simp add: pv_x_def)

lemmas live_simps = api_calls run_simps live_calls found_def pv_x_metadata k_start_same

text \<open>A request for a copy of the volume of \<open>stocked\<close>.\<close>

definition clone_request :: create_volume_request where
  "clone_request = create_x\<lparr>cv_name := ''pvc-2'', cv_source := Some \<lparr>vcs_type = Some (VolumeSource ''pvc-1'')\<rparr>\<rparr>"

lemma clone_request_simps [simp]:
  "cv_name clone_request = ''pvc-2''" "cv_source clone_request = Some \<lparr>vcs_type = Some (VolumeSource ''pvc-1'')\<rparr>"
  by (simp_all add: clone_request_def)

lemma clone_request_params: "create_params clone_request ty vg b node \<longleftrightarrow> ty = ''striped'' \<and> vg = ''vg1'' \<and> b = 4096 \<and> node = ''node1''"
  using create_x_params by (auto simp: create_params_def clone_request_def)

lemma clone_request_run:
  "\<exists>v t. run_state (CreateVolume live_kube server_x clone_request) (k_start stocked) = (Inr v, t) \<and> vol_id v = ''pvc-2''
     \<and> vol_capacity v = 4096"
proof -
  let ?src = "\<lparr>srcLVName = ''pvc-1'', srcVGName = ''vg1'', srcType = ''striped''\<rparr>"
  let ?a = "clone_of server_x ?src ''pvc-2'' ''node1'' ''striped'' ''vg1'' 4096"
  obtain t where t: "run_state (createVolumeHelper live_kube ?a) (k_start stocked) = (None, t)"
    using live_createVolumeHelper [where a = ?a and s = "k_start stocked", OF _ run_clone]
    by (auto simp: clone_of_def newCreateVolumeAction_def volumeHelperArgs_def action_types)
  have act: "generateVolumeActionForClone server_x (Some pv_x) ''pvc-1'' ''pvc-2'' ''node1'' ''striped'' ''vg1'' 4096 4096 = Inr ?a"
    by (simp add: generateVolumeActionForClone_iff pv_x_metadata)
  have "run_state (provisionVolume live_kube server_x clone_request ''node1'' ''striped'' ''vg1'' 4096) (k_start stocked) = (None, t)"
    using t act by (simp add: provisionVolume_def cloneFromContentSource_def cloneFromVolumeSource_def cloneFromVolume_def
        run_action_def live_simps)
  then show ?thesis
    using CreateVolume_valid [OF server_x_caps, of clone_request "''striped''" "''vg1''" 4096 "''node1''" live_kube]
      clone_request_params by simp
qed

lemma clone_request_source:
  "clone_source live_kube server_x (cv_source clone_request) ty node b src \<Longrightarrow> srcLVName src = ''pvc-1''"
  by (auto simp: clone_source_def volume_source_def answers_def live_calls found_def find_Some_iff split: option.splits)


lemma stocked_answers:
  "k_getPV live_kube ''pvc-1'' (c_world (k_start stocked)) = (Inr (Some pv_x), stocked)"
  "fst (k_getNode live_kube ''node1'' stocked) = None"
  by (simp_all add: live_calls found_def)

lemma delete_run: "\<exists>t. run_state (DeleteVolume live_kube server_x ''pvc-1'') (k_start stocked) = (None, t)"
proof -
  let ?a = "newDeleteVolumeAction server_x ''pvc-1'' ''node1'' ''vg1'' ''striped''"
  obtain t where t: "run_state (createVolumeHelper live_kube ?a) (k_start stocked) = (None, t)"
    using live_createVolumeHelper [where a = ?a and s = "k_start stocked", OF _ run_delete]
    by (auto simp: newDeleteVolumeAction_def volumeHelperArgs_def action_types)
  then show ?thesis using stocked_answers
    by (simp add: DeleteVolume_def validateDeleteVolumeRequest_def server_x_caps persistentVolumeForDeletion_def
        nodeAvailableForDeletion_def live_simps)
qed



end
