(* ===== verification/Admission.thy ===== *)
theory Admission
  imports Helper_Pod
begin

section \<open>Concurrent admission of helpers (\<open>helperAdmissionMu\<close>)\<close>

text \<open>
  Requests are served concurrently, and \<open>ensureHelper\<close> checks the limit and creates the pod in two
  separate API calls.  What makes the limit hold is the mutex around them.  This theory is the
  interleaving of any number of requests: each has a program counter in \<open>ensureHelper\<close>, the mutex has
  at most one holder, and between any two API calls the cluster may change a pod's status, remove
  a pod or gain a pod that is no helper.  The guards are those of \<open>helper_pod.go\<close> (the definitions
  of \<open>Helper_Pod\<close>); the theory shows that in every reachable state no node has more than
  \<open>maxActive\<close> active helpers on a volume group, and that the operation \<open>ensureHelper\<close>, on every API server that
  keeps pods as documented, is a run of these steps whose writes are the writes of the operation.

  A creation that fails may have created the pod, and then it has done so when the call returns; a request
  that reaches the API server only after the caller has given up is not among the steps.
\<close>

subsection \<open>States and steps\<close>

text \<open>
  Where a request is in \<open>ensureHelper\<close>: at the mutex, before it reads its pod, with an existing pod in its
  hands, before the listing, before the creation, and before the second reading, after a creation
  that found the name taken.
\<close>

datatype adm_pc =
    Idle
  | Waiting pod
  | Holding pod
  | Found pod pod
  | Checked pod
  | Listed pod
  | Existing pod

record adm =
  a_pods :: "pod list"
  a_pc :: "nat \<Rightarrow> adm_pc"
  a_holder :: "nat option"

definition has_name :: "string \<Rightarrow> pod list \<Rightarrow> bool" where
  "has_name n ps \<longleftrightarrow> (\<exists>p \<in> set ps. p_name p = n)"

definition move :: "nat \<Rightarrow> adm_pc \<Rightarrow> adm \<Rightarrow> adm" where
  "move i pc a = a\<lparr>a_pc := (a_pc a)(i := pc)\<rparr>"

definition leave :: "nat \<Rightarrow> adm \<Rightarrow> adm" where
  "leave i a = a\<lparr>a_pc := (a_pc a)(i := Idle), a_holder := None\<rparr>"

text \<open>What the cluster may do to a pod: the identity and the spec stay, a terminal pod stays terminal.\<close>

definition same_pod :: "pod \<Rightarrow> pod \<Rightarrow> bool" where
  "same_pod p q \<longleftrightarrow> p_name q = p_name p \<and> p_spec q = p_spec p \<and> p_labels q = p_labels p
     \<and> p_annotations q = p_annotations p \<and> (podTerminal p \<longrightarrow> podTerminal q)"

inductive pods_env :: "pod list \<Rightarrow> pod list \<Rightarrow> bool" where
  env_status: "same_pod p q \<Longrightarrow> pods_env (xs @ p # ys) (xs @ q # ys)"
| env_delete: "pods_env ps (filter P ps)"
| env_other: "\<not> isHelper p \<Longrightarrow> pods_env ps (p # ps)"

text \<open>
  The steps of the request \<open>i\<close>, with the writes they log.  A deletion may remove the pod at once or
  leave that to the cluster.
\<close>

inductive adm_call :: "int \<Rightarrow> string \<Rightarrow> nat \<Rightarrow> kevent list \<Rightarrow> adm \<Rightarrow> adm \<Rightarrow> bool"
  for maxActive :: int and ns :: string and i :: nat where
  request: "a_pc a i = Idle \<Longrightarrow> adm_call maxActive ns i [] a (move i (Waiting d) a)"
| lock: "a_pc a i = Waiting d \<Longrightarrow> a_holder a = None \<Longrightarrow>
    adm_call maxActive ns i [] a ((move i (Holding d) a)\<lparr>a_holder := Some i\<rparr>)"
| get_missing: "a_pc a i = Holding d \<Longrightarrow> \<not> has_name (p_name d) (a_pods a) \<Longrightarrow>
    adm_call maxActive ns i [] a (move i (Checked d) a)"
| get_found: "a_pc a i = Holding d \<or> a_pc a i = Existing d \<Longrightarrow> q \<in> set (a_pods a) \<Longrightarrow> p_name q = p_name d \<Longrightarrow>
    adm_call maxActive ns i [] a (move i (Found d q) a)"
| get_failed: "a_pc a i = Holding d \<or> a_pc a i = Existing d \<Longrightarrow> adm_call maxActive ns i [] a (leave i a)"
| reuse: "a_pc a i = Found d q \<Longrightarrow> adm_call maxActive ns i [] a (leave i a)"
| retire: "a_pc a i = Found d q \<Longrightarrow> p_deletionTimestamp q \<noteq> None \<or> podTerminal q \<Longrightarrow>
    g = (if p_deletionTimestamp q \<noteq> None then Some 0 else None) \<Longrightarrow>
    ps = a_pods a \<or> ps = filter (\<lambda>p. p_name p \<noteq> p_name q) (a_pods a) \<Longrightarrow>
    adm_call maxActive ns i [KDeletePod ns (p_name q) g x] a ((leave i a)\<lparr>a_pods := ps\<rparr>)"
| admit: "a_pc a i = Checked d \<Longrightarrow> admitted (a_pods a) d maxActive \<Longrightarrow> adm_call maxActive ns i [] a (move i (Listed d) a)"
| refuse: "a_pc a i = Checked d \<Longrightarrow> adm_call maxActive ns i [] a (leave i a)"
| create: "a_pc a i = Listed d \<Longrightarrow> \<not> has_name (p_name d) (a_pods a) \<Longrightarrow> x \<noteq> Some ApiAlreadyExists \<Longrightarrow>
    adm_call maxActive ns i [KCreatePod ns d x] a ((leave i a)\<lparr>a_pods := d # a_pods a\<rparr>)"
| create_failed: "a_pc a i = Listed d \<Longrightarrow> x \<noteq> None \<Longrightarrow> x \<noteq> Some ApiAlreadyExists \<Longrightarrow>
    adm_call maxActive ns i [KCreatePod ns d x] a (leave i a)"
| create_exists: "a_pc a i = Listed d \<Longrightarrow>
    adm_call maxActive ns i [KCreatePod ns d (Some ApiAlreadyExists)] a (move i (Existing d) a)"

inductive adm_step :: "int \<Rightarrow> adm \<Rightarrow> adm \<Rightarrow> bool" for maxActive :: int where
  call: "adm_call maxActive ns i evs a b \<Longrightarrow> adm_step maxActive a b"
| cluster: "pods_env (a_pods a) ps \<Longrightarrow> adm_step maxActive a (a\<lparr>a_pods := ps\<rparr>)"

subsection \<open>Counting\<close>

definition on_vg :: "string \<Rightarrow> string \<Rightarrow> pod \<Rightarrow> bool" where
  "on_vg node vg p \<longleftrightarrow> ps_nodeName (p_spec p) = node \<and> activeHelper p \<and> helperUsesVG p vg"

definition active_on :: "pod list \<Rightarrow> string \<Rightarrow> string \<Rightarrow> int" where
  "active_on ps node vg = int (length (filter (on_vg node vg) ps))"

lemma active_on_Cons: "active_on (p # ps) node vg = (if on_vg node vg p then 1 else 0) + active_on ps node vg"
  by (simp add: active_on_def)

lemma active_on_append: "active_on (xs @ ys) node vg = active_on xs node vg + active_on ys node vg"
  by (simp add: active_on_def)

lemma active_on_filter: "active_on (filter P ps) node vg \<le> active_on ps node vg"
  by (induction ps) (auto simp: active_on_Cons)

lemma same_pod_on_vg: "same_pod p q \<Longrightarrow> on_vg node vg q \<Longrightarrow> on_vg node vg p"
  by (auto simp: same_pod_def on_vg_def activeHelper_def isHelper_def helperUsesVG_def helperVGs_def)

lemma countActiveHelpers_fresh:
  "\<not> has_name (p_name d) ps \<Longrightarrow> countActiveHelpers ps d vg = active_on ps (ps_nodeName (p_spec d)) vg"
  unfolding countActiveHelpers_def active_on_def has_name_def
  by (intro arg_cong [where f = "\<lambda>xs. int (length xs)"] filter_cong) (auto simp: on_vg_def)

lemma countActiveHelpers_filter:
  "countActiveHelpers ps d vg = active_on (filter (\<lambda>p. p_name p \<noteq> p_name d) ps) (ps_nodeName (p_spec d)) vg"
  unfolding countActiveHelpers_def active_on_def filter_filter
  by (intro arg_cong [where f = "\<lambda>xs. int (length xs)"] filter_cong) (auto simp: on_vg_def)

text \<open>\<open>shrinks ps qs\<close>: no node and volume group has more active helpers in \<open>qs\<close> than in \<open>ps\<close>, for any one name left out.\<close>

definition shrinks :: "pod list \<Rightarrow> pod list \<Rightarrow> bool" where
  "shrinks ps qs \<longleftrightarrow> (\<forall>P node vg. (\<exists>n. P = (\<lambda>p. p_name p \<noteq> n)) \<or> P = (\<lambda>_. True) \<longrightarrow>
     active_on (filter P qs) node vg \<le> active_on (filter P ps) node vg)"

lemma shrinks_active_on: "shrinks ps qs \<Longrightarrow> active_on qs node vg \<le> active_on ps node vg"
  unfolding shrinks_def by (drule spec [of _ "\<lambda>_. True"]) simp

lemma shrinks_count: "shrinks ps qs \<Longrightarrow> countActiveHelpers qs d vg \<le> countActiveHelpers ps d vg"
  unfolding shrinks_def countActiveHelpers_filter by blast

lemma shrinks_refl [simp]: "shrinks ps ps"
  by (simp add: shrinks_def)

lemma shrinks_filter: "shrinks ps (filter P ps)"
  unfolding shrinks_def
proof (intro allI impI)
  fix Q node vg
  have "filter Q (filter P ps) = filter P (filter Q ps)" by (simp add: conj_commute)
  then show "active_on (filter Q (filter P ps)) node vg \<le> active_on (filter Q ps) node vg"
    by (simp only: active_on_filter)
qed

lemma shrinks_status: "same_pod p q \<Longrightarrow> shrinks (xs @ p # ys) (xs @ q # ys)"
  unfolding shrinks_def
  by (auto simp: active_on_append active_on_Cons dest: same_pod_on_vg) (auto simp: same_pod_def)

lemma shrinks_other: "\<not> isHelper p \<Longrightarrow> shrinks ps (p # ps)"
  by (auto simp: shrinks_def active_on_Cons on_vg_def activeHelper_def)

lemma shrinks_env: "pods_env ps qs \<Longrightarrow> shrinks ps qs"
  by (erule pods_env.cases) (simp_all add: shrinks_status shrinks_filter shrinks_other)

subsection \<open>The invariant\<close>

definition in_section :: "adm_pc \<Rightarrow> bool" where
  "in_section pc \<longleftrightarrow> (case pc of Idle \<Rightarrow> False | Waiting _ \<Rightarrow> False | _ \<Rightarrow> True)"

lemma in_section_simps [simp]:
  "\<not> in_section Idle" "\<not> in_section (Waiting d)" "in_section (Holding d)" "in_section (Checked d)" "in_section (Listed d)"
  "in_section (Found d q)" "in_section (Existing d)"
  by (simp_all add: in_section_def)

definition mutex :: "adm \<Rightarrow> bool" where
  "mutex a \<longleftrightarrow> (\<forall>i. in_section (a_pc a i) \<longleftrightarrow> a_holder a = Some i)"

definition room :: "int \<Rightarrow> pod list \<Rightarrow> adm_pc \<Rightarrow> bool" where
  "room maxActive ps pc \<longleftrightarrow>
     (case pc of Listed d \<Rightarrow> (\<forall>vg \<in> set (helperVGs d). countActiveHelpers ps d vg < maxActive) | _ \<Rightarrow> True)"

definition within_limit :: "int \<Rightarrow> adm \<Rightarrow> bool" where
  "within_limit maxActive a \<longleftrightarrow> (\<forall>node vg. active_on (a_pods a) node vg \<le> maxActive)"

definition adm_inv :: "int \<Rightarrow> adm \<Rightarrow> bool" where
  "adm_inv maxActive a \<longleftrightarrow> mutex a \<and> (\<forall>i. room maxActive (a_pods a) (a_pc a i)) \<and> within_limit maxActive a"

lemma room_simps [simp]:
  "room m ps Idle" "room m ps (Waiting d)" "room m ps (Holding d)" "room m ps (Checked d)" "room m ps (Found d q)"
  "room m ps (Existing d)" "room m ps (Listed d) \<longleftrightarrow> (\<forall>vg \<in> set (helperVGs d). countActiveHelpers ps d vg < m)"
  by (simp_all add: room_def)

lemma room_shrinks: "shrinks ps qs \<Longrightarrow> room m ps pc \<Longrightarrow> room m qs pc"
  by (auto simp: room_def split: adm_pc.splits intro: order.strict_trans1 [OF shrinks_count])

text \<open>A step that only takes pods away or moves one request keeps the invariant.\<close>

lemma adm_inv_shrinks:
  assumes "adm_inv m a" and "shrinks (a_pods a) ps" and "mutex b" and "a_pods b = ps"
    and "\<And>j. room m (a_pods a) (a_pc b j)"
  shows "adm_inv m b"
  using assms shrinks_active_on [OF assms(2)] room_shrinks [OF assms(2)]
  unfolding adm_inv_def within_limit_def by (meson order_trans)

lemma mutex_leave: "mutex a \<Longrightarrow> in_section (a_pc a i) \<Longrightarrow> mutex ((leave i a)\<lparr>a_pods := ps\<rparr>)"
  by (auto simp: mutex_def leave_def)

lemma mutex_move:
  "mutex a \<Longrightarrow> in_section pc = in_section (a_pc a i) \<Longrightarrow> mutex (move i pc a)"
  by (auto simp: mutex_def move_def)

lemma leave_same: "leave i a = (leave i a)\<lparr>a_pods := a_pods a\<rparr>"
  by (simp add: leave_def)

lemma adm_inv_leave:
  assumes "adm_inv m a" and "in_section (a_pc a i)" and "shrinks (a_pods a) ps"
  shows "adm_inv m ((leave i a)\<lparr>a_pods := ps\<rparr>)"
  using assms mutex_leave by (intro adm_inv_shrinks [OF assms(1,3)]) (auto simp: adm_inv_def leave_def)

lemma adm_inv_leave_same:
  "adm_inv m a \<Longrightarrow> in_section (a_pc a i) \<Longrightarrow> adm_inv m (leave i a)"
  using adm_inv_leave [of m a i "a_pods a"] by (simp add: leave_def)

lemma adm_inv_move:
  assumes "adm_inv m a" and "in_section pc = in_section (a_pc a i)" and "room m (a_pods a) pc"
  shows "adm_inv m (move i pc a)"
  using assms mutex_move by (intro adm_inv_shrinks [OF assms(1) shrinks_refl]) (auto simp: adm_inv_def move_def)

lemma adm_inv_env: "adm_inv m a \<Longrightarrow> shrinks (a_pods a) ps \<Longrightarrow> adm_inv m (a\<lparr>a_pods := ps\<rparr>)"
  by (rule adm_inv_shrinks [where a = a and ps = ps]) (auto simp: adm_inv_def mutex_def)

lemma adm_inv_create:
  assumes inv: "adm_inv m a" and pc: "a_pc a i = Listed d" and fresh: "\<not> has_name (p_name d) (a_pods a)"
  shows "adm_inv m ((leave i a)\<lparr>a_pods := d # a_pods a\<rparr>)"
proof -
  let ?b = "(leave i a)\<lparr>a_pods := d # a_pods a\<rparr>"
  have room: "countActiveHelpers (a_pods a) d vg < m" if "vg \<in> set (helperVGs d)" for vg
    using inv pc that unfolding adm_inv_def by (metis room_simps(7))
  have "active_on (d # a_pods a) node vg \<le> m" for node vg
  proof (cases "on_vg node vg d")
    case True
    then have "node = ps_nodeName (p_spec d)" "vg \<in> set (helperVGs d)" by (auto simp: on_vg_def helperUsesVG_def)
    with room [of vg] countActiveHelpers_fresh [OF fresh, of vg] True show ?thesis by (simp add: active_on_Cons)
  next
    case False
    then show ?thesis using inv by (simp add: active_on_Cons adm_inv_def within_limit_def)
  qed
  moreover have "mutex ?b" using inv pc by (intro mutex_leave) (auto simp: adm_inv_def)
  moreover have "room m (d # a_pods a) (a_pc ?b j)" for j
  proof -
    have "a_pc ?b j = Idle \<or> \<not> in_section (a_pc ?b j)"
      using inv pc by (auto simp: adm_inv_def mutex_def leave_def)
    then show ?thesis by (auto simp: in_section_def room_def split: adm_pc.splits)
  qed
  ultimately show ?thesis by (simp add: adm_inv_def within_limit_def)
qed

lemma adm_inv_call: "adm_call m ns i evs a b \<Longrightarrow> adm_inv m a \<Longrightarrow> adm_inv m b"
proof (induction rule: adm_call.induct)
  case (lock a d)
  then have "mutex ((move i (Holding d) a)\<lparr>a_holder := Some i\<rparr>)"
    by (auto simp: adm_inv_def mutex_def move_def)
  with lock show ?case
    by (intro adm_inv_shrinks [OF lock(3) shrinks_refl]) (auto simp: adm_inv_def move_def)
next
  case (retire a d q g ps x)
  then show ?case by (intro adm_inv_leave) (auto intro: shrinks_filter)
next
  case (create a d x)
  then show ?case by (intro adm_inv_create) auto
next
  case (admit a d)
  then show ?case by (intro adm_inv_move) (auto simp: admitted_def)
qed (auto intro: adm_inv_move adm_inv_leave_same)

lemma adm_inv_step: "adm_step m a b \<Longrightarrow> adm_inv m a \<Longrightarrow> adm_inv m b"
  by (induction rule: adm_step.induct) (auto intro: adm_inv_call adm_inv_env shrinks_env)

subsection \<open>Reachable states\<close>

definition adm_start :: "int \<Rightarrow> adm \<Rightarrow> bool" where
  "adm_start maxActive a \<longleftrightarrow> (\<forall>i. a_pc a i = Idle) \<and> a_holder a = None \<and> within_limit maxActive a"

interpretation admission: invariant_of "adm_start m" "adm_step m" "adm_inv m" for m
proof
  show "adm_inv m a" if "adm_start m a" for a
    using that by (auto simp: adm_start_def adm_inv_def mutex_def)
  show "adm_inv m b" if "adm_step m a b" "adm_inv m a" for a b
    using that by (rule adm_inv_step)
qed

text \<open>
  C2 (the limit holds under concurrency): from a state within the limit, with any number of
  concurrent requests and any changes of the cluster in between, no node ever has more than
  \<open>maxActive\<close> active helpers that use a volume group; and at most one request is between the
  check and the creation.
\<close>

theorem helper_limit_invariant:
  assumes "reach (adm_start maxActive) (adm_step maxActive) a"
  shows "active_on (a_pods a) node vg \<le> maxActive
    \<and> (in_section (a_pc a i) \<and> in_section (a_pc a j) \<longrightarrow> i = j)"
  using admission.reachable_I [OF assms]
  by (auto simp: adm_inv_def within_limit_def mutex_def)

lemma adm_reach_step:
  "reach (adm_start m) (adm_step m) a \<Longrightarrow> adm_step m a b \<Longrightarrow> reach (adm_start m) (adm_step m) b"
  by (rule reach_step)

definition idle_start :: adm where
  "idle_start = \<lparr>a_pods = [], a_pc = (\<lambda>_. Idle), a_holder = None\<rparr>"

lemma idle_start_admits: "admitted [] pod_x 3" "\<not> has_name n []"
  using newHelperPod_groups [of "''vg''" thin_params "[''createlv'', ''--vgname'', ''vg'']"]
  by (auto simp: admitted_def countActiveHelpers_def has_name_def pod_x_def thin_params_def)

theorem helper_limit_invariant_witness:
  "\<exists>a. reach (adm_start 3) (adm_step 3) a \<and> a_pods a = [pod_x] \<and> active_on (a_pods a) ''node1'' ''vg'' \<le> 3"
proof -
  let ?a1 = "move 0 (Waiting pod_x) idle_start"
  let ?a2 = "(move 0 (Holding pod_x) ?a1)\<lparr>a_holder := Some 0\<rparr>"
  let ?a3 = "move 0 (Checked pod_x) ?a2" and ?a4 = "move 0 (Listed pod_x) (move 0 (Checked pod_x) ?a2)"
  let ?a5 = "(leave 0 ?a4)\<lparr>a_pods := pod_x # a_pods ?a4\<rparr>"
  have r0: "reach (adm_start 3) (adm_step 3) idle_start"
    by (rule reach_init) (simp add: adm_start_def idle_start_def within_limit_def active_on_def)
  have s1: "adm_step 3 idle_start ?a1" by (rule adm_step.call [OF adm_call.request]) (simp add: idle_start_def)
  have s2: "adm_step 3 ?a1 ?a2" by (rule adm_step.call [OF adm_call.lock]) (simp_all add: idle_start_def move_def)
  have s3: "adm_step 3 ?a2 ?a3"
    by (rule adm_step.call [OF adm_call.get_missing]) (simp_all add: idle_start_def move_def idle_start_admits)
  have s4: "adm_step 3 ?a3 ?a4"
    by (rule adm_step.call [OF adm_call.admit]) (simp_all add: idle_start_def move_def idle_start_admits)
  have s5: "adm_step 3 ?a4 ?a5"
    by (rule adm_step.call [OF adm_call.create [where x = None]]) (simp_all add: idle_start_def move_def idle_start_admits)
  note r3 = adm_reach_step [OF adm_reach_step [OF adm_reach_step [OF r0 s1] s2] s3]
  have "reach (adm_start 3) (adm_step 3) ?a5" by (rule adm_reach_step [OF adm_reach_step [OF r3 s4] s5])
  moreover from helper_limit_invariant [OF this, of "''node1''" "''vg''"]
  have "active_on (a_pods ?a5) ''node1'' ''vg'' \<le> 3" by blast
  moreover have "a_pods ?a5 = [pod_x]" by (simp add: idle_start_def move_def)
  ultimately show ?thesis by blast
qed

subsection \<open>The operation is a run of the steps\<close>

text \<open>
  \<open>served m ns i a evs b\<close>: steps of the request \<open>i\<close> and changes of the cluster, in any order, lead from \<open>a\<close> to
  \<open>b\<close>, and the request logs the writes \<open>evs\<close> on the way.
\<close>

inductive served :: "int \<Rightarrow> string \<Rightarrow> nat \<Rightarrow> adm \<Rightarrow> kevent list \<Rightarrow> adm \<Rightarrow> bool"
  for m :: int and ns :: string and i :: nat and a :: adm where
  served_refl: "served m ns i a [] a"
| served_call: "served m ns i a evs b \<Longrightarrow> adm_call m ns i evs' b c \<Longrightarrow> served m ns i a (evs @ evs') c"
| served_cluster: "served m ns i a evs b \<Longrightarrow> pods_env (a_pods b) ps \<Longrightarrow> served m ns i a evs (b\<lparr>a_pods := ps\<rparr>)"

lemma served_steps: "served m ns i a evs b \<Longrightarrow> (adm_step m)\<^sup>*\<^sup>* a b"
  by (induction rule: served.induct) (auto intro: adm_step.intros rtranclp.rtrancl_into_rtrancl)

lemma served_env:
  assumes "pods_env\<^sup>*\<^sup>* qs ps" and "served m ns i a evs (b\<lparr>a_pods := qs\<rparr>)"
  shows "served m ns i a evs (b\<lparr>a_pods := ps\<rparr>)"
  using assms
proof (induction rule: rtranclp_induct)
  case (step ps ps')
  then show ?case using served_cluster [of m ns i a evs "b\<lparr>a_pods := ps\<rparr>" ps'] by simp
qed

text \<open>The state of \<open>a\<close> while the request \<open>i\<close> is at \<open>pc\<close> in the section and the pods are \<open>ps\<close>.\<close>

definition inside :: "adm \<Rightarrow> nat \<Rightarrow> adm_pc \<Rightarrow> pod list \<Rightarrow> adm" where
  "inside a i pc ps = a\<lparr>a_pc := (a_pc a)(i := pc), a_holder := Some i, a_pods := ps\<rparr>"

lemma inside_simps [simp]:
  "a_pc (inside a i pc ps) i = pc" "a_pods (inside a i pc ps) = ps" "(inside a i pc ps)\<lparr>a_pods := qs\<rparr> = inside a i pc qs"
  "move i pc' (inside a i pc ps) = inside a i pc' ps"
  by (simp_all add: inside_def move_def)

lemma served_enter:
  assumes "a_pc a i = Idle" and "a_holder a = None"
  shows "served m ns i a [] (inside a i (Holding d) (a_pods a))"
proof -
  have "served m ns i a [] (move i (Waiting d) a)"
    using served_call [OF served_refl adm_call.request [OF assms(1), of m ns d]] by simp
  from served_call [OF this adm_call.lock [of _ i d m ns]] assms(2) show ?thesis
    by (simp add: move_def inside_def)
qed

text \<open>
  What the operation relies on: \<open>pods w\<close> are the pods of the namespace.  Each call takes effect at one
  moment, and the cluster may change the pods before and after it.  A reading returns a stored
  pod of the name it asks for, a listing all pods; a creation succeeds only for a name that is free; when
  it fails otherwise it may have taken effect; a deletion removes the pod or leaves that to the cluster.
\<close>

locale pod_server =
  fixes K :: "'k kube"
    and ns :: string
    and pods :: "'k \<Rightarrow> pod list"
  assumes get_some: "k_getPod K ns n w = (Inr (Some q), w') \<Longrightarrow>
      \<exists>ps. pods_env\<^sup>*\<^sup>* (pods w) ps \<and> q \<in> set ps \<and> p_name q = n \<and> pods_env\<^sup>*\<^sup>* ps (pods w')"
    and get_missing: "k_getPod K ns n w = (Inl ApiNotFound, w') \<Longrightarrow>
      \<exists>ps. pods_env\<^sup>*\<^sup>* (pods w) ps \<and> \<not> has_name n ps \<and> pods_env\<^sup>*\<^sup>* ps (pods w')"
    and get_any: "k_getPod K ns n w = (x, w') \<Longrightarrow> pods_env\<^sup>*\<^sup>* (pods w) (pods w')"
    and list_some: "k_listPods K ns w = (Inr items, w') \<Longrightarrow> pods_env\<^sup>*\<^sup>* (pods w) items \<and> pods_env\<^sup>*\<^sup>* items (pods w')"
    and list_any: "k_listPods K ns w = (y, w') \<Longrightarrow> pods_env\<^sup>*\<^sup>* (pods w) (pods w')"
    and create_none: "k_createPod K ns d w = (None, w') \<Longrightarrow>
      \<exists>ps. pods_env\<^sup>*\<^sup>* (pods w) ps \<and> \<not> has_name (p_name d) ps \<and> pods_env\<^sup>*\<^sup>* (d # ps) (pods w')"
    and create_exists: "k_createPod K ns d w = (Some ApiAlreadyExists, w') \<Longrightarrow> pods_env\<^sup>*\<^sup>* (pods w) (pods w')"
    and create_other: "k_createPod K ns d w = (Some e, w') \<Longrightarrow> pods_env\<^sup>*\<^sup>* (pods w) (pods w')
      \<or> (\<exists>ps. pods_env\<^sup>*\<^sup>* (pods w) ps \<and> \<not> has_name (p_name d) ps \<and> pods_env\<^sup>*\<^sup>* (d # ps) (pods w'))"
    and delete_any: "k_deletePod K ns n g w = (z, w') \<Longrightarrow> \<exists>ps. pods_env\<^sup>*\<^sup>* (pods w) ps
      \<and> (pods_env\<^sup>*\<^sup>* ps (pods w') \<or> pods_env\<^sup>*\<^sup>* (filter (\<lambda>p. p_name p \<noteq> n) ps) (pods w'))"
begin

text \<open>
  \<open>at a i m pc s evs\<close>: the request has come to \<open>pc\<close>, the pods are those of \<open>s\<close>.  \<open>finishes\<close>: from there the
  operation ends outside of the section, and has logged what the steps log.
\<close>

definition at_pc :: "adm \<Rightarrow> nat \<Rightarrow> int \<Rightarrow> adm_pc \<Rightarrow> 'k ctl \<Rightarrow> kevent list \<Rightarrow> bool" where
  "at_pc a i m pc s evs \<longleftrightarrow> served m ns i a evs (inside a i pc (pods (c_world s)))"

definition finishes :: "adm \<Rightarrow> nat \<Rightarrow> int \<Rightarrow> 'k ctl \<Rightarrow> kevent list \<Rightarrow> 'k ctl \<Rightarrow> bool" where
  "finishes a i m s evs t \<longleftrightarrow> (\<exists>new. c_log t = c_log s @ new
     \<and> served m ns i a (evs @ new) (a\<lparr>a_pods := pods (c_world t)\<rparr>))"

lemma served_inside_env:
  "served m ns i a evs (inside a i pc ps) \<Longrightarrow> pods_env\<^sup>*\<^sup>* ps qs \<Longrightarrow> served m ns i a evs (inside a i pc qs)"
  using served_env [of ps qs m ns i a evs "inside a i pc ps"] by simp

lemma served_out_env:
  "served m ns i a evs (a\<lparr>a_pods := ps\<rparr>) \<Longrightarrow> pods_env\<^sup>*\<^sup>* ps qs \<Longrightarrow> served m ns i a evs (a\<lparr>a_pods := qs\<rparr>)"
  using served_env [of ps qs m ns i a evs a] by simp

lemma served_moved:
  assumes "served m ns i a evs (inside a i pc ps)" and "adm_call m ns i new (inside a i pc ps) (inside a i pc' ps)"
  shows "served m ns i a (evs @ new) (inside a i pc' ps)"
  using assms by (rule served_call)

lemma served_left:
  assumes "served m ns i a evs (inside a i pc ps)"
    and "adm_call m ns i new (inside a i pc ps) ((leave i (inside a i pc ps))\<lparr>a_pods := qs\<rparr>)"
    and "a_pc a i = Idle" and "a_holder a = None"
  shows "served m ns i a (evs @ new) (a\<lparr>a_pods := qs\<rparr>)"
proof -
  have "(leave i (inside a i pc ps))\<lparr>a_pods := qs\<rparr> = a\<lparr>a_pods := qs\<rparr>"
    using assms(3,4) by (cases a) (simp add: leave_def inside_def fun_upd_idem)
  then show ?thesis using served_call [OF assms(1,2)] by simp
qed

lemma served_ended:
  assumes "served m ns i a evs (inside a i pc ps)" and "adm_call m ns i new (inside a i pc ps) (leave i (inside a i pc ps))"
    and "a_pc a i = Idle" and "a_holder a = None"
  shows "served m ns i a (evs @ new) (a\<lparr>a_pods := ps\<rparr>)"
  by (rule served_left [OF assms(1) _ assms(3,4)]) (use assms(2) leave_same [of i "inside a i pc ps"] in \<open>metis inside_simps(2)\<close>)

lemma finishes_silent:
  assumes "at_pc a i m pc s evs" and "adm_call m ns i [] (inside a i pc (pods (c_world s))) (leave i (inside a i pc (pods (c_world s))))"
    and "a_pc a i = Idle" and "a_holder a = None" and "t = s"
  shows "finishes a i m s evs t"
  using served_ended [OF assms(1) [unfolded at_pc_def] assms(2-4)] assms(5) by (simp add: finishes_def)

lemma useExisting_served:
  assumes "at_pc a i m (Found d q) s evs" and "a_pc a i = Idle" and "a_holder a = None"
    and "run_state (useExistingHelper K ns d (Some q)) s = (r, t)"
  shows "finishes a i m s evs t"
proof -
  let ?in = "inside a i (Found d q) (pods (c_world s))"
  have "t = s \<or> (\<exists>g. (p_deletionTimestamp q \<noteq> None \<or> podTerminal q) \<and> g = (if p_deletionTimestamp q \<noteq> None then Some 0 else None)
      \<and> t = s\<lparr>c_world := snd (k_deletePod K ns (p_name q) g (c_world s)),
          c_log := c_log s @ [KDeletePod ns (p_name q) g (fst (k_deletePod K ns (p_name q) g (c_world s)))]\<rparr>)"
    using assms(4)
    by (cases "p_deletionTimestamp q"; cases "k_derivative K (p_spec d) (p_spec q)"; cases "podTerminal q")
      (auto simp: useExistingHelper_def forceDeleteHelper_def retireHelper_def deletePod_def run_k_write)
  then consider "t = s" | g x w where "p_deletionTimestamp q \<noteq> None \<or> podTerminal q"
      "g = (if p_deletionTimestamp q \<noteq> None then Some 0 else None)" "k_deletePod K ns (p_name q) g (c_world s) = (x, w)"
      "t = s\<lparr>c_world := w, c_log := c_log s @ [KDeletePod ns (p_name q) g x]\<rparr>"
    by (metis prod.collapse)
  then show ?thesis
  proof cases
    case 1
    then show ?thesis by (intro finishes_silent [OF assms(1) _ assms(2,3)] adm_call.reuse) simp_all
  next
    case 2
    obtain ps where ps: "pods_env\<^sup>*\<^sup>* (pods (c_world s)) ps"
        "pods_env\<^sup>*\<^sup>* ps (pods w) \<or> pods_env\<^sup>*\<^sup>* (filter (\<lambda>p. p_name p \<noteq> p_name q) ps) (pods w)"
      using delete_any [OF 2(3)] by blast
    have in_ps: "served m ns i a evs (inside a i (Found d q) ps)"
      using served_inside_env [OF _ ps(1)] assms(1) by (simp add: at_pc_def)
    have "served m ns i a (evs @ [KDeletePod ns (p_name q) g x]) (a\<lparr>a_pods := qs\<rparr>)"
      if "qs = ps \<or> qs = filter (\<lambda>p. p_name p \<noteq> p_name q) ps" for qs
      using that 2(1,2) by (intro served_left [OF in_ps _ assms(2,3)] adm_call.retire) simp_all
    then show ?thesis using ps(2) 2(4) by (auto simp: finishes_def intro: served_out_env)
  qed
qed

lemma get_served:
  assumes pc: "pc = Holding d \<or> pc = Existing d" and "at_pc a i m pc s evs" and "a_pc a i = Idle" and "a_holder a = None"
    and get: "k_getPod K ns (p_name d) (c_world s) = (Inr x, w)"
    and "run_state (useExistingHelper K ns d x) (s\<lparr>c_world := w\<rparr>) = (r, t)"
  shows "finishes a i m s evs t"
proof (cases x)
  case None
  then have t: "t = s\<lparr>c_world := w\<rparr>" using assms(6) by (simp add: useExistingHelper_def)
  have "at_pc a i m pc t evs" using served_inside_env [OF _ get_any [OF get]] assms(2) t by (simp add: at_pc_def)
  then have "finishes a i m t evs t" using pc by (intro finishes_silent assms(3,4) adm_call.get_failed) auto
  then show ?thesis using t by (simp add: finishes_def)
next
  case (Some q)
  obtain ps where ps: "pods_env\<^sup>*\<^sup>* (pods (c_world s)) ps" "q \<in> set ps" "p_name q = p_name d" "pods_env\<^sup>*\<^sup>* ps (pods w)"
    using get_some [OF get [unfolded Some]] by blast
  have "served m ns i a evs (inside a i pc ps)" using served_inside_env [OF _ ps(1)] assms(2) by (simp add: at_pc_def)
  moreover have "adm_call m ns i [] (inside a i pc ps) (move i (Found d q) (inside a i pc ps))"
    using pc ps(2,3) by (intro adm_call.get_found) auto
  ultimately have "served m ns i a (evs @ []) (inside a i (Found d q) ps)" by (intro served_moved) simp_all
  then have "at_pc a i m (Found d q) (s\<lparr>c_world := w\<rparr>) evs" using served_inside_env [OF _ ps(4)] by (simp add: at_pc_def)
  from useExisting_served [OF this assms(3,4) assms(6) [unfolded Some]] show ?thesis by (simp add: finishes_def)
qed

lemma get_failed_served:
  assumes "pc = Holding d \<or> pc = Existing d" and "at_pc a i m pc s evs" and "a_pc a i = Idle" and "a_holder a = None"
    and get: "k_getPod K ns (p_name d) (c_world s) = (Inl e, w)" and t: "t = s\<lparr>c_world := w\<rparr>"
  shows "finishes a i m s evs t"
proof -
  have "at_pc a i m pc t evs" using served_inside_env [OF _ get_any [OF get]] assms(2) t by (simp add: at_pc_def)
  then have "finishes a i m t evs t" using assms(1) by (intro finishes_silent assms(3,4) adm_call.get_failed) auto
  then show ?thesis using t by (simp add: finishes_def)
qed

lemma reuse_served:
  assumes "at_pc a i m (Existing d) s evs" and "a_pc a i = Idle" and "a_holder a = None"
    and "run_state (reuseHelper K ns d) s = (r, t)"
  shows "finishes a i m s evs t"
proof -
  obtain x w where get: "k_getPod K ns (p_name d) (c_world s) = (x, w)" by (rule prod.exhaust)
  then show ?thesis using assms get_failed_served [of "Existing d" d a i m s evs _ w t] get_served [of "Existing d" d a i m s evs _ w r t]
    by (cases x) (auto simp: reuseHelper_def api_calls run_simps)
qed

lemma create_served:
  assumes "at_pc a i m (Listed d) s evs" and "a_pc a i = Idle" and "a_holder a = None"
    and create: "k_createPod K ns d (c_world s) = (x, w)"
    and s': "s' = s\<lparr>c_world := w, c_log := c_log s @ [KCreatePod ns d x]\<rparr>"
  shows "if x = Some ApiAlreadyExists then at_pc a i m (Existing d) s' (evs @ [KCreatePod ns d x]) else finishes a i m s evs s'"
proof (cases "x = Some ApiAlreadyExists")
  case True
  have "served m ns i a (evs @ [KCreatePod ns d x]) (move i (Existing d) (inside a i (Listed d) (pods (c_world s))))"
    using assms(1) unfolding True at_pc_def by (rule served_call) (rule adm_call.create_exists, simp)
  then show ?thesis using True served_inside_env [OF _ create_exists [OF create [unfolded True]]] s'
    by (simp add: at_pc_def)
next
  case False
  consider (kept) "x \<noteq> None" "pods_env\<^sup>*\<^sup>* (pods (c_world s)) (pods w)"
    | (made) ps where "pods_env\<^sup>*\<^sup>* (pods (c_world s)) ps" "\<not> has_name (p_name d) ps" "pods_env\<^sup>*\<^sup>* (d # ps) (pods w)"
    using create_none [of d "c_world s" w] create_other [of d "c_world s" _ w] create by (cases x) blast+
  then have "finishes a i m s evs s'"
  proof cases
    case kept
    have "served m ns i a (evs @ [KCreatePod ns d x]) (a\<lparr>a_pods := pods (c_world s)\<rparr>)"
      by (rule served_ended [OF assms(1) [unfolded at_pc_def] adm_call.create_failed assms(2,3)]) (use kept False in simp_all)
    then show ?thesis using served_out_env [OF _ kept(2)] s' by (simp add: finishes_def)
  next
    case made
    have "served m ns i a evs (inside a i (Listed d) ps)"
      using served_inside_env [OF _ made(1)] assms(1) by (simp add: at_pc_def)
    then have "served m ns i a (evs @ [KCreatePod ns d x]) (a\<lparr>a_pods := d # ps\<rparr>)"
      using adm_call.create [of "inside a i (Listed d) ps" i d x m ns] made(2) False
      by (intro served_left [OF _ _ assms(2,3)]) simp_all
    then show ?thesis using served_out_env [OF _ made(3)] s' by (simp add: finishes_def)
  qed
  then show ?thesis using False by simp
qed

lemma admit_served:
  assumes "at_pc a i m (Checked d) s evs" and "run_state (admitHelper K ns d m) s = (r, t)"
  shows "c_log t = c_log s \<and> at_pc a i m (if r = None then Listed d else Checked d) t evs"
proof -
  obtain y w where y: "k_listPods K ns (c_world s) = (y, w)" by (rule prod.exhaust)
  have env: "t = s \<or> t = s\<lparr>c_world := w\<rparr>" using assms(2) y by (auto simp: admitHelper_def listPods_def run_simps split: if_splits)
  then have same: "c_log t = c_log s" "at_pc a i m (Checked d) t evs"
    using assms(1) served_inside_env [OF _ list_any [OF y]] by (auto simp: at_pc_def)
  show ?thesis
  proof (cases "r = None")
    case True
    then obtain items where items: "k_listPods K ns (c_world s) = (Inr items, c_world t)" "admitted items d m"
      using admitHelper_None assms(2) by blast
    then have "pods_env\<^sup>*\<^sup>* (pods (c_world s)) items" "pods_env\<^sup>*\<^sup>* items (pods (c_world t))" using list_some by blast+
    note ps = this
    have "served m ns i a evs (inside a i (Checked d) items)"
      using served_inside_env [OF _ ps(1)] assms(1) by (simp add: at_pc_def)
    then have "served m ns i a (evs @ []) (inside a i (Listed d) items)"
      using adm_call.admit [of "inside a i (Checked d) items" i d m ns] items(2) by (intro served_moved) simp_all
    then show ?thesis using True same(1) served_inside_env [OF _ ps(2)] by (simp add: at_pc_def)
  next
    case False
    then show ?thesis using same by auto
  qed
qed

lemma ensureHelper_served:
  assumes run: "run_state (ensureHelper K ns d m) s = (r, t)"
    and "a_pods a = pods (c_world s)" and idle: "a_pc a i = Idle" and free: "a_holder a = None"
  shows "finishes a i m s [] t"
proof -
  have hold: "at_pc a i m (Holding d) s []" using served_enter [OF idle free] assms(2) by (simp add: at_pc_def)
  obtain x w where get: "k_getPod K ns (p_name d) (c_world s) = (x, w)" by (rule prod.exhaust)
  show ?thesis
  proof (cases "x = Inl ApiNotFound")
    case False
    then show ?thesis
      using run get hold idle free get_failed_served [of "Holding d" d a i m s "[]" _ w t] get_served [of "Holding d" d a i m s "[]" _ w r t]
      by (cases x) (auto simp: ensureHelper_def not_found_def api_calls run_simps)
  next
    case True
    let ?s1 = "s\<lparr>c_world := w\<rparr>"
    obtain ps where ps: "pods_env\<^sup>*\<^sup>* (pods (c_world s)) ps" "\<not> has_name (p_name d) ps" "pods_env\<^sup>*\<^sup>* ps (pods w)"
      using get_missing [OF get [unfolded True]] by blast
    have "served m ns i a [] (inside a i (Holding d) ps)" using served_inside_env [OF _ ps(1)] hold by (simp add: at_pc_def)
    then have "served m ns i a ([] @ []) (inside a i (Checked d) ps)"
      using adm_call.get_missing [of "inside a i (Holding d) ps" i d m ns] ps(2) by (intro served_moved) simp_all
    then have checked: "at_pc a i m (Checked d) ?s1 []" using served_inside_env [OF _ ps(3)] by (simp add: at_pc_def)
    obtain y s2 where adm: "run_state (admitHelper K ns d m) ?s1 = (y, s2)" by (rule prod.exhaust)
    note s2 = admit_served [OF checked adm]
    show ?thesis
    proof (cases y)
      case (Some e)
      then have "t = s2" using run get True adm by (simp add: ensureHelper_def not_found_def api_calls run_simps)
      moreover have "finishes a i m s2 [] s2" using s2 Some by (intro finishes_silent idle free adm_call.refuse) auto
      ultimately show ?thesis using s2 by (simp add: finishes_def)
    next
      case None
      obtain z w3 where create: "k_createPod K ns d (c_world s2) = (z, w3)" by (rule prod.exhaust)
      let ?s3 = "s2\<lparr>c_world := w3, c_log := c_log s2 @ [KCreatePod ns d z]\<rparr>"
      have listed: "at_pc a i m (Listed d) s2 []" using s2 None by simp
      note made = create_served [OF listed idle free create refl]
      show ?thesis
      proof (cases "z = Some ApiAlreadyExists")
        case False
        then have "t = ?s3" using run get True adm None create
          by (cases z) (auto simp: ensureHelper_def not_found_def api_calls run_simps)
        then show ?thesis using made False s2 by (simp add: finishes_def)
      next
        case exists: True
        then have "run_state (reuseHelper K ns d) ?s3 = (r, t)" using run get True adm None create
          by (simp add: ensureHelper_def not_found_def createPod_def getPod_def run_simps)
        moreover have "at_pc a i m (Existing d) ?s3 [KCreatePod ns d z]" using made exists by simp
        ultimately have "finishes a i m ?s3 [KCreatePod ns d z] t" using reuse_served idle free by blast
        then show ?thesis using s2 by (auto simp: finishes_def)
      qed
    qed
  qed
qed

end

subsection \<open>Servers\<close>

text \<open>The server of the examples, and one on which a pod of another client takes a name after the listing.\<close>

definition racing_kube :: "pod \<Rightarrow> cluster kube" where
  "racing_kube p = cluster_kube\<lparr>k_listPods := (\<lambda>_ w. (Inr (cl_pods w), w\<lparr>cl_pods := p # cl_pods w\<rparr>))\<rparr>"

lemma env_steps [simp]:
  "pods_env\<^sup>*\<^sup>* (d # ps) (d\<lparr>p_phase := PodSucceeded\<rparr> # ps)" "pods_env\<^sup>*\<^sup>* ps (filter P ps)" "\<not> isHelper p \<Longrightarrow> pods_env\<^sup>*\<^sup>* ps (p # ps)"
  using env_status [of d "d\<lparr>p_phase := PodSucceeded\<rparr>" "[]" ps] env_delete [of ps P] env_other [of p ps]
  by (auto simp: same_pod_def podTerminal_def)

lemma find_has_name:
  "find (\<lambda>p. p_name p = n) ps = None \<longleftrightarrow> \<not> has_name n ps"
  "find (\<lambda>p. p_name p = n) ps = Some q \<Longrightarrow> q \<in> set ps \<and> p_name q = n"
  by (auto simp: has_name_def find_None_iff dest: find_Some_set)

lemma cluster_created: "\<not> has_name (p_name d) ps \<Longrightarrow> ws = d\<lparr>p_phase := PodSucceeded\<rparr> # ps \<Longrightarrow>
  \<exists>qs. pods_env\<^sup>*\<^sup>* ps qs \<and> \<not> has_name (p_name d) qs \<and> pods_env\<^sup>*\<^sup>* (d # qs) ws"
  by (intro exI [of _ ps]) simp

lemma found_cases:
  "found x = Inr (Some q) \<longleftrightarrow> x = Some q" "found x = Inl e \<longleftrightarrow> x = None \<and> e = ApiNotFound"
  by (auto simp: found_def split: option.splits)

interpretation quiet: pod_server cluster_kube ns cl_pods
  by unfold_locales
    (auto simp: cluster_calls found_cases find_has_name(1) has_name_def intro: cluster_created dest!: find_has_name(2) split: if_splits)

definition foreign_pod :: pod where
  "foreign_pod = pod_x\<lparr>p_labels := Map.empty, p_spec := (p_spec pod_x)\<lparr>ps_containers := []\<rparr>, p_phase := PodSucceeded\<rparr>"

lemma foreign_pod_simps [simp]:
  "p_name foreign_pod = p_name pod_x" "\<not> isHelper foreign_pod" "podTerminal foreign_pod"
  "p_deletionTimestamp foreign_pod = None" "p_spec pod_x \<noteq> p_spec foreign_pod"
proof -
  have "ps_containers (p_spec pod_x) \<noteq> []"
    by (simp add: pod_x_def newHelperPod_def helperMetadata_def helperSpec_def Let_def)
  then show "p_spec pod_x \<noteq> p_spec foreign_pod" by (auto simp: foreign_pod_def dest: arg_cong [where f = ps_containers])
qed (simp_all add: foreign_pod_def isHelper_def lookup_def podTerminal_def pod_x_def newHelperPod_def helperMetadata_def Let_def)

lemma racing_calls:
  "k_getPod (racing_kube p) = k_getPod cluster_kube" "k_createPod (racing_kube p) = k_createPod cluster_kube"
  "k_deletePod (racing_kube p) = k_deletePod cluster_kube" "k_derivative (racing_kube p) = k_derivative cluster_kube"
  "k_listPods (racing_kube p) ns w = (Inr (cl_pods w), w\<lparr>cl_pods := p # cl_pods w\<rparr>)"
  by (simp_all add: racing_kube_def)

interpretation racing: pod_server "racing_kube foreign_pod" ns cl_pods
proof
  have added: "pods_env\<^sup>*\<^sup>* ps (foreign_pod # ps)" for ps by (rule env_steps(3)) simp
  show "pods_env\<^sup>*\<^sup>* (cl_pods w) items \<and> pods_env\<^sup>*\<^sup>* items (cl_pods w')"
    if "k_listPods (racing_kube foreign_pod) ns w = (Inr items, w')" for w items w'
    using that added by (auto simp: racing_calls)
  show "pods_env\<^sup>*\<^sup>* (cl_pods w) (cl_pods w')" if "k_listPods (racing_kube foreign_pod) ns w = (y, w')" for w y w'
    using that added by (auto simp: racing_calls)
qed ((unfold racing_calls)?, erule quiet.get_some quiet.get_missing quiet.get_any quiet.create_none quiet.create_exists
    quiet.create_other quiet.delete_any)+

subsection \<open>The refinement\<close>

lemma useExisting_ready:
  "run_state (useExistingHelper K ns d x) s = (None, t) \<Longrightarrow>
     \<exists>q. x = Some q \<and> p_deletionTimestamp q = None \<and> k_derivative K (p_spec d) (p_spec q) \<and> t = s"
  by (auto simp: useExistingHelper_def forceDeleteHelper_def retireHelper_def api_calls run_simps split: option.splits if_splits)

lemma ensureHelper_ready:
  assumes "run_state (ensureHelper K ns d m) s = (None, t)"
  shows "c_log t = c_log s @ [KCreatePod ns d None]
    \<or> (\<exists>w q. k_getPod K ns (p_name d) w = (Inr (Some q), c_world t) \<and> p_deletionTimestamp q = None
         \<and> k_derivative K (p_spec d) (p_spec q))"
proof -
  have log: "c_log s2 = c_log s1" if "run_state (admitHelper K ns d m) s1 = (y, s2)" for s1 y s2
    using that by (auto simp: admitHelper_def listPods_def run_simps split: if_splits)
  have reuse: "\<exists>w q. k_getPod K ns (p_name d) w = (Inr (Some q), c_world t) \<and> p_deletionTimestamp q = None
      \<and> k_derivative K (p_spec d) (p_spec q)"
    if "k_getPod K ns (p_name d) w = (Inr x, w')" "run_state (useExistingHelper K ns d x) s1 = (None, t)" "c_world s1 = w'" for w w' x s1
    using useExisting_ready [OF that(2)] that(1,3) by blast
  obtain x w where get: "k_getPod K ns (p_name d) (c_world s) = (x, w)" by (rule prod.exhaust)
  show ?thesis
  proof (cases x)
    case (Inr y)
    then have "run_state (useExistingHelper K ns d y) (s\<lparr>c_world := w\<rparr>) = (None, t)"
      using assms get by (simp add: ensureHelper_def api_calls run_simps)
    from reuse [OF get [unfolded Inr] this] show ?thesis by simp
  next
    case (Inl e)
    obtain y s2 where adm: "run_state (admitHelper K ns d m) (s\<lparr>c_world := w\<rparr>) = (y, s2)" by (rule prod.exhaust)
    obtain z w3 where create: "k_createPod K ns d (c_world s2) = (z, w3)" by (rule prod.exhaust)
    let ?s3 = "s2\<lparr>c_world := w3, c_log := c_log s2 @ [KCreatePod ns d z]\<rparr>"
    have "y = None" "z = None \<and> t = ?s3 \<or> run_state (reuseHelper K ns d) ?s3 = (None, t)"
      using assms get Inl adm create
      by (auto simp: ensureHelper_def not_found_def getPod_def createPod_def run_simps split: if_splits option.splits)
    then show ?thesis
    proof (elim disjE)
      assume again: "run_state (reuseHelper K ns d) ?s3 = (None, t)"
      obtain x' w4 where get': "k_getPod K ns (p_name d) w3 = (x', w4)" by (rule prod.exhaust)
      then obtain q where "x' = Inr q" "run_state (useExistingHelper K ns d q) (?s3\<lparr>c_world := w4\<rparr>) = (None, t)"
        using again by (cases x') (auto simp: reuseHelper_def getPod_def run_simps)
      with reuse [OF get' [unfolded \<open>x' = Inr q\<close>] this(2)] show ?thesis by simp
    qed (use log [OF adm] in simp)
  qed
qed

text \<open>
  C17 (refinement): on every API server that keeps pods as documented, and whatever the cluster does
  between the calls, a call of \<open>ensureHelper\<close> for the request \<open>i\<close> is a sequence of its steps and of changes of
  the cluster, from the free mutex to the free mutex, that leads to the pods of the server; the steps log
  exactly the writes of the call.  If the call returns no error, it has created the pod or found one that
  derives from it and is not being deleted.
\<close>

theorem ensureHelper_refines_steps:
  assumes "pod_server K ns pods"
    and run: "run_state (ensureHelper K ns d m) s = (r, t)"
    and "a_pods a = pods (c_world s)" and "a_pc a i = Idle" and "a_holder a = None"
  shows "(\<exists>evs. c_log t = c_log s @ evs \<and> served m ns i a evs (a\<lparr>a_pods := pods (c_world t)\<rparr>))
    \<and> (adm_step m)\<^sup>*\<^sup>* a (a\<lparr>a_pods := pods (c_world t)\<rparr>)
    \<and> (r = None \<longrightarrow> c_log t = c_log s @ [KCreatePod ns d None]
        \<or> (\<exists>w q. k_getPod K ns (p_name d) w = (Inr (Some q), c_world t) \<and> p_deletionTimestamp q = None
             \<and> k_derivative K (p_spec d) (p_spec q)))"
proof -
  obtain evs where evs: "c_log t = c_log s @ evs" "served m ns i a ([] @ evs) (a\<lparr>a_pods := pods (c_world t)\<rparr>)"
    using pod_server.ensureHelper_served [OF assms] unfolding pod_server.finishes_def [OF assms(1)] by blast
  then show ?thesis using served_steps [OF evs(2)] ensureHelper_ready [of K ns d m s t] run by auto
qed

text \<open>
  On the server on which the name is taken after the listing, the creation answers \<open>AlreadyExists\<close>, and the
  pod that took the name, which has ended and is of another request, is retired.
\<close>

theorem ensureHelper_refines_steps_witness:
  "\<exists>r t. run_state (ensureHelper (racing_kube foreign_pod) ''ns'' pod_x 3) (k_start no_pods) = (r, t)
     \<and> c_log t = [KCreatePod ''ns'' pod_x (Some ApiAlreadyExists), KDeletePod ''ns'' (p_name pod_x) None None]
     \<and> served 3 ''ns'' 0 idle_start (c_log t) (idle_start\<lparr>a_pods := cl_pods (c_world t)\<rparr>)"
proof -
  obtain r t where run: "run_state (ensureHelper (racing_kube foreign_pod) ''ns'' pod_x 3) (k_start no_pods) = (r, t)"
    by (rule prod.exhaust)
  have adm: "first_error (vg_admission [] pod_x 3) (helperVGs pod_x) = None"
    by (simp add: vg_limit.check_iff countActiveHelpers_def)
  have "c_log t = [KCreatePod ''ns'' pod_x (Some ApiAlreadyExists), KDeletePod ''ns'' (p_name pod_x) None None]"
    using run adm pod_x_groups
    by (auto simp: ensureHelper_def admitHelper_def reuseHelper_def useExistingHelper_def retireHelper_def api_calls run_simps
        racing_calls cluster_calls found_def not_found_def no_pods_def k_start_def Let_def)
  moreover obtain evs where "c_log t = c_log (k_start no_pods) @ evs"
      "served 3 ''ns'' 0 idle_start evs (idle_start\<lparr>a_pods := cl_pods (c_world t)\<rparr>)"
    using ensureHelper_refines_steps [OF racing.pod_server_axioms run, of idle_start 0] by (auto simp: idle_start_def no_pods_def k_start_def)
  ultimately show ?thesis using run by (auto simp: k_start_def)
qed

end
