(* ===== verification/Webhook.thy ===== *)
theory Webhook
  imports Validation
begin

section \<open>The admission webhook for storage classes (\<open>validator.go\<close>)\<close>

text \<open>
  The webhook validates storage classes when they are created and updated.  The listings of nodes
  and storage classes come from the Kubernetes client and are arguments.  Indexing an empty slice
  panics in Go, so the result of a call is an \<open>outcome\<close>: what was returned, or a panic.

  The theory also holds the life of the storage classes of a cluster as a transition system, whose
  creations and updates are the ones the webhook admits, and the invariant it keeps: volume groups
  are not shared by classes of different types.
\<close>

subsection \<open>Data\<close>

definition LVMCSIDriver :: string where "LVMCSIDriver = ''lvm.driver.harvesterhci.io''"
definition LVMTopologyNodeKey :: string where "LVMTopologyNodeKey = ''topology.lvm.csi/node''"

record label_requirement =
  lr_key :: string
  lr_values :: "string list"

text \<open>\<open>scl_topologies\<close> are the \<open>AllowedTopologies\<close>, each the list of its \<open>MatchLabelExpressions\<close>.\<close>

record storage_class =
  scl_name :: string
  scl_provisioner :: string
  scl_parameters :: strmap
  scl_topologies :: "label_requirement list list"

datatype 'a outcome = Returned 'a | Panicked

subsection \<open>Operations\<close>

fun first_match :: "label_requirement list \<Rightarrow> string outcome option" where
  "first_match [] = None"
| "first_match (r # rs) =
     (if lr_key r = LVMTopologyNodeKey then
        Some (case lr_values r of [] \<Rightarrow> Panicked | v # _ \<Rightarrow> Returned v)
      else first_match rs)"

fun topology_nodes :: "label_requirement list list \<Rightarrow> string outcome" where
  "topology_nodes [] = Returned ''''"
| "topology_nodes (t # ts) = (case first_match t of Some r \<Rightarrow> r | None \<Rightarrow> topology_nodes ts)"

definition getLVMTopologyNodes :: "storage_class \<Rightarrow> string outcome" where
  "getLVMTopologyNodes sc = topology_nodes (scl_topologies sc)"

fun match_labels :: "storage_class \<Rightarrow> string list \<Rightarrow> bool \<Rightarrow> label_requirement list \<Rightarrow> bool res" where
  "match_labels sc nodeList foundKey [] = Inr foundKey"
| "match_labels sc nodeList foundKey (matchLabel # rest) =
     (if lr_key matchLabel = LVMTopologyNodeKey then
        (case lr_values matchLabel of
           [v] \<Rightarrow>
             if v \<notin> set nodeList then
               Inl (Errorf ''storageclass %s with provisioner %s has invalid node name %s''
                      [scl_name sc, scl_provisioner sc, v] None)
             else match_labels sc nodeList True rest
         | _ \<Rightarrow> Inl (Errorf ''storageclass %s with provisioner %s must have one values in MatchLabelExpressions''
                      [scl_name sc, scl_provisioner sc] None))
      else match_labels sc nodeList foundKey rest)"

fun match_topologies :: "storage_class \<Rightarrow> string list \<Rightarrow> bool \<Rightarrow> label_requirement list list \<Rightarrow> bool res" where
  "match_topologies sc nodeList foundKey [] = Inr foundKey"
| "match_topologies sc nodeList foundKey (topology # rest) =
     (if topology = [] then
        Inl (Errorf ''storageclass %s with provisioner %s must have MatchLabelExpressions in allowedTopologies''
               [scl_name sc, scl_provisioner sc] None)
      else case match_labels sc nodeList foundKey topology of
             Inl e \<Rightarrow> Inl e
           | Inr found \<Rightarrow> match_topologies sc nodeList found rest)"

definition validateTopologyNodes :: "(api_error + string list) \<Rightarrow> storage_class \<Rightarrow> check" where
  "validateTopologyNodes nodes sc =
     (if scl_provisioner sc \<noteq> LVMCSIDriver then None
      else if scl_topologies sc = [] then
        Some (Errorf ''storageclass %s with provisioner %s must have allowedTopologies'' [scl_name sc, scl_provisioner sc] None)
      else case nodes of
             Inl err \<Rightarrow> Some (Errorf ''failed to list nodes: %v, we need node list for validation'' [] (Some (ApiErr err)))
           | Inr nodeList \<Rightarrow>
               (case match_topologies sc nodeList False (scl_topologies sc) of
                  Inl e \<Rightarrow> Some e
                | Inr foundMatchTopologyKey \<Rightarrow>
                    if \<not> foundMatchTopologyKey then
                      Some (Errorf ''storageclass %s with provisioner %s must have MatchLabelExpressions with key %s''
                              [scl_name sc, scl_provisioner sc, LVMTopologyNodeKey] None)
                    else None))"

fun conflict_loop :: "storage_class \<Rightarrow> string \<Rightarrow> string \<Rightarrow> string \<Rightarrow> storage_class list \<Rightarrow> check outcome" where
  "conflict_loop sc vgType vgName nodeName [] = Returned None"
| "conflict_loop sc vgType vgName nodeName (c # cs) =
     (if scl_provisioner c \<noteq> LVMCSIDriver then conflict_loop sc vgType vgName nodeName cs
      else if scl_name c = scl_name sc then conflict_loop sc vgType vgName nodeName cs
      else case getLVMTopologyNodes c of
             Panicked \<Rightarrow> Panicked
           | Returned targetNode \<Rightarrow>
               if targetNode \<noteq> nodeName then conflict_loop sc vgType vgName nodeName cs
               else if lookup (scl_parameters c) ''vgName'' \<noteq> vgName then conflict_loop sc vgType vgName nodeName cs
               else if lookup (scl_parameters c) ''type'' \<noteq> vgType then
                 Returned (Some (Errorf
                   ''storageclass %s with vg Type %s is conflict with storageclass %s vgType(%s), vgName(%s)''
                   [scl_name sc, vgType, scl_name c, lookup (scl_parameters c) ''type'', lookup (scl_parameters c) ''vgName''] None))
               else conflict_loop sc vgType vgName nodeName cs)"

definition validateUniqueVGType :: "(api_error + storage_class list) \<Rightarrow> storage_class \<Rightarrow> check outcome" where
  "validateUniqueVGType classes sc =
     (if scl_provisioner sc \<noteq> LVMCSIDriver then Returned None
      else
        let creatingVGType = lookup (scl_parameters sc) ''type'';
            creatingVGName = lookup (scl_parameters sc) ''vgName''
        in case getLVMTopologyNodes sc of
             Panicked \<Rightarrow> Panicked
           | Returned creatingNodeName \<Rightarrow>
               if creatingVGType = '''' \<or> creatingVGName = '''' \<or> creatingNodeName = '''' then
                 Returned (Some (Errorf ''storageclass %s with provisioner %s must have type, vgName and topology node''
                                   [scl_name sc, scl_provisioner sc] None))
               else case classes of
                      Inl err \<Rightarrow> Returned (Some (ApiErr err))
                    | Inr items \<Rightarrow> conflict_loop sc creatingVGType creatingVGName creatingNodeName items)"

definition Create :: "(api_error + string list) \<Rightarrow> (api_error + storage_class list) \<Rightarrow> storage_class \<Rightarrow> check outcome" where
  "Create nodes classes newObj =
     (case validateTopologyNodes nodes newObj of
        Some err \<Rightarrow> Returned (Some err)
      | None \<Rightarrow> validateUniqueVGType classes newObj)"

definition Update :: "storage_class \<Rightarrow> storage_class \<Rightarrow> check outcome" where
  "Update oldSc newSc =
     (case getLVMTopologyNodes oldSc of
        Panicked \<Rightarrow> Panicked
      | Returned old \<Rightarrow>
          (case getLVMTopologyNodes newSc of
             Panicked \<Rightarrow> Panicked
           | Returned new \<Rightarrow>
               if old \<noteq> new then
                 Returned (Some (Errorf ''storageclass %s with provisioner %s, topology node can not be changed''
                                   [scl_name newSc, scl_provisioner newSc] None))
               else Returned None))"

record webhook_resource =
  wr_names :: "string list"
  wr_scope :: string
  wr_group :: string
  wr_version :: string
  wr_operations :: "string list"

definition Resource :: webhook_resource where
  "Resource = \<lparr>wr_names = [''storageclasses''], wr_scope = ''Cluster'', wr_group = ''storage.k8s.io'', wr_version = ''v1'',
     wr_operations = [''CREATE'', ''UPDATE'']\<rparr>"

subsection \<open>What is accepted\<close>

lemma match_labels_ok:
  "match_labels sc nodeList b rs = Inr b' \<longleftrightarrow>
     (\<forall>r \<in> set rs. lr_key r = LVMTopologyNodeKey \<longrightarrow> (\<exists>v \<in> set nodeList. lr_values r = [v]))
     \<and> b' = (b \<or> (\<exists>r \<in> set rs. lr_key r = LVMTopologyNodeKey))"
  by (induction sc nodeList b rs rule: match_labels.induct) (auto split: list.splits)

lemma match_topologies_ok:
  "match_topologies sc nodeList b ts = Inr b' \<Longrightarrow>
     (\<forall>r \<in> set (concat ts). lr_key r = LVMTopologyNodeKey \<longrightarrow> (\<exists>v \<in> set nodeList. lr_values r = [v]))
     \<and> b' = (b \<or> (\<exists>r \<in> set (concat ts). lr_key r = LVMTopologyNodeKey))"
proof (induction ts arbitrary: b)
  case (Cons t ts)
  then obtain c where c: "match_labels sc nodeList b t = Inr c" "match_topologies sc nodeList c ts = Inr b'"
    by (auto split: if_splits sum.splits)
  from Cons.IH [OF c(2)] c(1) show ?case by (auto simp: match_labels_ok)
qed simp

lemma first_match_None: "first_match rs = None \<longleftrightarrow> (\<forall>r \<in> set rs. lr_key r \<noteq> LVMTopologyNodeKey)"
  by (induction rs) auto

lemma first_match_Some:
  "first_match rs = Some x \<Longrightarrow> \<exists>r \<in> set rs. lr_key r = LVMTopologyNodeKey
     \<and> x = (case lr_values r of [] \<Rightarrow> Panicked | v # _ \<Rightarrow> Returned v)"
  by (induction rs) (auto split: if_splits)

lemma topology_nodes_found:
  assumes "\<exists>r \<in> set (concat ts). lr_key r = LVMTopologyNodeKey"
  shows "\<exists>r \<in> set (concat ts). lr_key r = LVMTopologyNodeKey
    \<and> topology_nodes ts = (case lr_values r of [] \<Rightarrow> Panicked | v # _ \<Rightarrow> Returned v)"
  using assms
proof (induction ts)
  case (Cons t ts)
  show ?case
  proof (cases "first_match t")
    case None
    then have "\<exists>r \<in> set (concat ts). lr_key r = LVMTopologyNodeKey" using Cons.prems by (auto simp: first_match_None)
    with Cons.IH None show ?thesis by auto
  next
    case (Some x)
    from first_match_Some [OF Some] Some show ?thesis by auto
  qed
qed simp

lemma conflict_loop_None:
  "conflict_loop sc ty vg n cs = Returned None \<Longrightarrow> c \<in> set cs \<Longrightarrow> scl_provisioner c = LVMCSIDriver \<Longrightarrow> scl_name c \<noteq> scl_name sc \<Longrightarrow>
     getLVMTopologyNodes c = Returned n \<Longrightarrow> lookup (scl_parameters c) ''vgName'' = vg \<Longrightarrow> lookup (scl_parameters c) ''type'' = ty"
  by (induction sc ty vg n cs rule: conflict_loop.induct) (auto split: if_splits outcome.splits)

lemma conflict_loop_no_panic:
  "(\<And>c. c \<in> set cs \<Longrightarrow> scl_provisioner c = LVMCSIDriver \<Longrightarrow> getLVMTopologyNodes c \<noteq> Panicked) \<Longrightarrow>
     conflict_loop sc ty vg n cs \<noteq> Panicked"
  by (induction sc ty vg n cs rule: conflict_loop.induct) (auto split: outcome.splits)

lemma validateTopologyNodes_node:
  assumes "validateTopologyNodes nodes sc = None" and "scl_provisioner sc = LVMCSIDriver"
  shows "\<exists>nodeList n. nodes = Inr nodeList \<and> n \<in> set nodeList \<and> getLVMTopologyNodes sc = Returned n"
proof -
  from assms obtain nodeList where n: "nodes = Inr nodeList" "match_topologies sc nodeList False (scl_topologies sc) = Inr True"
    by (auto simp: validateTopologyNodes_def split: if_splits sum.splits)
  from match_topologies_ok [OF n(2)] topology_nodes_found [of "scl_topologies sc"] n(1) show ?thesis
    by (fastforce simp: getLVMTopologyNodes_def)
qed

subsection \<open>The storage classes of a cluster\<close>

text \<open>
  The state is the list of storage classes.  A creation and an update happen when the webhook admits
  them; the API server keeps names unique and, as documented, does not let an update change the name,
  the provisioner or the parameters of a class.  A class may be deleted at any time.
\<close>

inductive sc_step :: "storage_class list \<Rightarrow> storage_class list \<Rightarrow> bool" where
  sc_create: "Create (Inr nodeList) (Inr cs) sc = Returned None \<Longrightarrow> scl_name sc \<notin> scl_name ` set cs \<Longrightarrow> sc_step cs (sc # cs)"
| sc_update: "cs = xs @ old # ys \<Longrightarrow> Update old new = Returned None \<Longrightarrow> scl_name new = scl_name old \<Longrightarrow>
     scl_provisioner new = scl_provisioner old \<Longrightarrow> scl_parameters new = scl_parameters old \<Longrightarrow> sc_step cs (xs @ new # ys)"
| sc_delete: "sc_step (xs @ c # ys) (xs @ ys)"

definition lvm_class :: "storage_class \<Rightarrow> bool" where
  "lvm_class c \<longleftrightarrow> scl_provisioner c = LVMCSIDriver"

definition sc_key :: "storage_class \<Rightarrow> string outcome \<times> string" where
  "sc_key c = (getLVMTopologyNodes c, lookup (scl_parameters c) ''vgName'')"

definition sc_type :: "storage_class \<Rightarrow> string" where
  "sc_type c = lookup (scl_parameters c) ''type''"

definition sc_inv :: "storage_class list \<Rightarrow> bool" where
  "sc_inv cs \<longleftrightarrow> (\<forall>c \<in> set cs. lvm_class c \<longrightarrow> getLVMTopologyNodes c \<noteq> Panicked)
     \<and> (\<forall>c \<in> set cs. \<forall>d \<in> set cs. lvm_class c \<longrightarrow> lvm_class d \<longrightarrow> sc_key c = sc_key d \<longrightarrow> sc_type c = sc_type d)"

lemma sc_invD:
  "sc_inv cs \<Longrightarrow> c \<in> set cs \<Longrightarrow> lvm_class c \<Longrightarrow> getLVMTopologyNodes c \<noteq> Panicked"
  "sc_inv cs \<Longrightarrow> c \<in> set cs \<Longrightarrow> d \<in> set cs \<Longrightarrow> lvm_class c \<Longrightarrow> lvm_class d \<Longrightarrow> sc_key c = sc_key d \<Longrightarrow> sc_type c = sc_type d"
  unfolding sc_inv_def by blast+

lemma sc_invI:
  assumes "\<And>c. c \<in> set cs \<Longrightarrow> lvm_class c \<Longrightarrow> getLVMTopologyNodes c \<noteq> Panicked"
    and "\<And>c d. c \<in> set cs \<Longrightarrow> d \<in> set cs \<Longrightarrow> lvm_class c \<Longrightarrow> lvm_class d \<Longrightarrow> sc_key c = sc_key d \<Longrightarrow> sc_type c = sc_type d"
  shows "sc_inv cs"
  using assms unfolding sc_inv_def by blast

lemma Create_admitted:
  assumes "Create (Inr nodeList) (Inr cs) sc = Returned None" and "lvm_class sc"
  shows "\<exists>n \<in> set nodeList. getLVMTopologyNodes sc = Returned n
    \<and> conflict_loop sc (lookup (scl_parameters sc) ''type'') (lookup (scl_parameters sc) ''vgName'') n cs = Returned None"
proof -
  have v: "validateTopologyNodes (Inr nodeList) sc = None" "validateUniqueVGType (Inr cs) sc = Returned None"
    using assms(1) by (auto simp: Create_def split: option.splits)
  with validateTopologyNodes_node [OF v(1)] assms(2) show ?thesis
    by (auto simp: lvm_class_def validateUniqueVGType_def Let_def split: if_splits)
qed

lemma sc_inv_create:
  assumes inv: "sc_inv cs" and adm: "Create (Inr nodeList) (Inr cs) sc = Returned None" and name: "scl_name sc \<notin> scl_name ` set cs"
  shows "sc_inv (sc # cs)"
proof -
  have new: "getLVMTopologyNodes sc \<noteq> Panicked \<and> (\<forall>c \<in> set cs. lvm_class c \<longrightarrow> sc_key c = sc_key sc \<longrightarrow> sc_type c = sc_type sc)"
    if lvm: "lvm_class sc"
  proof -
    from Create_admitted [OF adm lvm] obtain n where n: "getLVMTopologyNodes sc = Returned n"
      "conflict_loop sc (lookup (scl_parameters sc) ''type'') (lookup (scl_parameters sc) ''vgName'') n cs = Returned None" by blast
    have "sc_type c = sc_type sc" if "c \<in> set cs" "lvm_class c" "sc_key c = sc_key sc" for c
    proof -
      have "scl_name c \<noteq> scl_name sc" using that(1) name by (metis imageI)
      then show ?thesis
        using conflict_loop_None [OF n(2) that(1)] that n(1) by (auto simp: lvm_class_def sc_key_def sc_type_def)
    qed
    then show ?thesis using n(1) by simp
  qed
  show ?thesis
  proof (rule sc_invI)
    show "getLVMTopologyNodes c \<noteq> Panicked" if "c \<in> set (sc # cs)" "lvm_class c" for c
      using that new sc_invD(1) [OF inv, of c] by (cases "c = sc") auto
    show "sc_type c = sc_type d" if "c \<in> set (sc # cs)" "d \<in> set (sc # cs)" "lvm_class c" "lvm_class d" "sc_key c = sc_key d" for c d
      using that(1,2) new that(3-5) sc_invD(2) [OF inv, of c d] by (metis set_ConsD)
  qed
qed

lemma Update_admitted: "Update old new = Returned None \<Longrightarrow> getLVMTopologyNodes new = getLVMTopologyNodes old"
  by (auto simp: Update_def split: outcome.splits if_splits)

lemma sc_inv_map:
  assumes "sc_inv cs" and "\<And>c. c \<in> set cs' \<Longrightarrow> \<exists>d \<in> set cs. scl_provisioner c = scl_provisioner d
      \<and> scl_parameters c = scl_parameters d \<and> getLVMTopologyNodes c = getLVMTopologyNodes d"
  shows "sc_inv cs'"
proof -
  have same: "\<exists>d \<in> set cs. lvm_class d = lvm_class c \<and> sc_key d = sc_key c \<and> sc_type d = sc_type c
      \<and> getLVMTopologyNodes d = getLVMTopologyNodes c" if "c \<in> set cs'" for c
    using assms(2) [OF that] by (auto simp: lvm_class_def sc_key_def sc_type_def)
  show ?thesis by (rule sc_invI) (metis same sc_invD(1) [OF assms(1)], metis same sc_invD(2) [OF assms(1)])
qed

interpretation storage_classes: invariant_of "\<lambda>cs. cs = []" sc_step sc_inv
proof
  fix cs cs'
  show "sc_inv cs" if "cs = []" using that by (intro sc_invI) auto
  show "sc_inv cs'" if "sc_step cs cs'" "sc_inv cs"
    using that(1)
  proof (cases rule: sc_step.cases)
    case (sc_create nodeList sc)
    then show ?thesis using sc_inv_create that(2) by blast
  next
    case (sc_update xs old ys new)
    have "getLVMTopologyNodes new = getLVMTopologyNodes old" using sc_update(3) by (rule Update_admitted)
    moreover have "old \<in> set cs" "\<And>c. c \<in> set cs' \<Longrightarrow> c = new \<or> c \<in> set cs" using sc_update(1,2) by auto
    ultimately show ?thesis using sc_update(5,6) by (intro sc_inv_map [OF that(2)]) metis
  next
    case (sc_delete xs c ys)
    then have "set cs' \<subseteq> set cs" by auto
    then show ?thesis by (intro sc_inv_map [OF that(2)]) blast
  qed
qed

text \<open>
  C29 (invariant): in every cluster whose storage classes were admitted one after the other, each stored
  before the next was checked, two classes of this driver with the same volume group and the same
  first topology node (the one that \<open>getLVMTopologyNodes\<close> returns) have the same type, and the webhook
  does not panic on any of them.  Classes that are checked at the same time can conflict
  (\<open>concurrent_creations_conflict\<close> in \<open>Webhook_Process\<close>), as can classes that name more than one node
  (\<open>Create_two_nodes\<close>).
\<close>

theorem unique_vg_type:
  assumes "reach (\<lambda>cs. cs = []) sc_step cs" and "c \<in> set cs" and "d \<in> set cs"
    and "scl_provisioner c = LVMCSIDriver" and "scl_provisioner d = LVMCSIDriver"
    and "getLVMTopologyNodes c = getLVMTopologyNodes d"
    and "lookup (scl_parameters c) ''vgName'' = lookup (scl_parameters d) ''vgName''"
  shows "lookup (scl_parameters c) ''type'' = lookup (scl_parameters d) ''type'' \<and> (\<exists>n. getLVMTopologyNodes c = Returned n)"
proof -
  have "sc_inv cs" by (rule storage_classes.reachable_I [OF assms(1)])
  note inv = sc_invD(1) [OF this assms(2)] sc_invD(2) [OF this assms(2,3)]
  have "\<exists>n. getLVMTopologyNodes c = Returned n"
    using inv(1) assms(4) by (cases "getLVMTopologyNodes c") (simp_all add: lvm_class_def)
  then show ?thesis using inv(2) assms(4-7) by (simp add: lvm_class_def sc_key_def sc_type_def)
qed

definition class_x :: "string \<Rightarrow> storage_class" where
  "class_x name = \<lparr>scl_name = name, scl_provisioner = LVMCSIDriver, scl_parameters = [''type'' \<mapsto> ''striped'', ''vgName'' \<mapsto> ''vg1''],
     scl_topologies = [[\<lparr>lr_key = LVMTopologyNodeKey, lr_values = [''node1'']\<rparr>]]\<rparr>"

lemma class_x_simps:
  "scl_provisioner (class_x a) = LVMCSIDriver" "scl_name (class_x a) = a" "getLVMTopologyNodes (class_x a) = Returned ''node1''"
  "lookup (scl_parameters (class_x a)) ''vgName'' = ''vg1''" "lookup (scl_parameters (class_x a)) ''type'' = ''striped''"
  by (simp_all add: class_x_def getLVMTopologyNodes_def)

lemma class_x_admitted: "Create (Inr [''node1'']) (Inr cs) (class_x a) = Returned None" if "set cs \<subseteq> range class_x"
proof -
  have "conflict_loop (class_x a) ''striped'' ''vg1'' ''node1'' cs = Returned None" using that
    by (induction cs) (auto simp: class_x_simps)
  moreover have "validateTopologyNodes (Inr [''node1'']) (class_x a) = None"
    by (simp add: validateTopologyNodes_def class_x_def)
  ultimately show ?thesis by (simp add: Create_def validateUniqueVGType_def class_x_simps)
qed

theorem unique_vg_type_witness:
  "reach (\<lambda>cs. cs = []) sc_step [class_x ''b'', class_x ''a'']
   \<and> lookup (scl_parameters (class_x ''b'')) ''type'' = lookup (scl_parameters (class_x ''a'')) ''type''"
proof -
  have "sc_step [] [class_x ''a'']" by (rule sc_create [OF class_x_admitted]) auto
  moreover have "sc_step [class_x ''a''] [class_x ''b'', class_x ''a'']"
    by (rule sc_create [OF class_x_admitted]) (auto simp: class_x_simps)
  ultimately have r: "reach (\<lambda>cs. cs = []) sc_step [class_x ''b'', class_x ''a'']"
    by (blast intro: reach.intros)
  with unique_vg_type [OF r, of "class_x ''b''" "class_x ''a''"] show ?thesis by (simp add: class_x_simps)
qed

text \<open>
  The check of the topology is per expression, although a volume of this driver lives on one
  node: a class whose two terms name two different nodes is admitted, and only the node of the first
  is compared with other classes.
\<close>

lemma Create_two_nodes:
  "\<exists>sc. Create (Inr [''node1'', ''node2'']) (Inr []) sc = Returned None \<and> scl_provisioner sc = LVMCSIDriver
     \<and> getLVMTopologyNodes sc = Returned ''node1''
     \<and> \<lparr>lr_key = LVMTopologyNodeKey, lr_values = [''node2'']\<rparr> \<in> set (concat (scl_topologies sc))"
  by (rule exI [of _ "(class_x ''a'')\<lparr>scl_topologies := [[\<lparr>lr_key = LVMTopologyNodeKey, lr_values = [''node1'']\<rparr>],
        [\<lparr>lr_key = LVMTopologyNodeKey, lr_values = [''node2'']\<rparr>]]\<rparr>"])
    (simp add: Create_def validateTopologyNodes_def validateUniqueVGType_def getLVMTopologyNodes_def class_x_def)

end
