(* ===== verification/Webhook_Process.thy ===== *)
theory Webhook_Process
  imports Webhook
begin

section \<open>The process of the webhook (\<open>cmd/webhook/main.go\<close>)\<close>

text \<open>
  The flags with their environment variables and defaults, the options they become, and the start of
  the server that asks the validator.  The command line library gives a flag the value of the command
  line or of its environment variable, which \<open>given\<close> is, and its default otherwise; it refuses to run
  the action without a required flag or with a number it cannot read.  The results of the client
  factories, of the registration and of the server are fields of \<open>webhook_env\<close>.
\<close>

subsection \<open>Flags and options\<close>

datatype flag_default = StringDefault string | IntDefault int

record webhook_flag =
  wf_name :: string
  wf_env :: string
  wf_default :: flag_default
  wf_required :: bool

record webhook_options =
  wo_Threadiness :: int
  wo_HTTPSListenPort :: int
  wo_Namespace :: string
  wo_ControllerUsername :: string
  wo_GarbageCollectionUsername :: string

definition loglevel_flag :: webhook_flag where
  "loglevel_flag = \<lparr>wf_name = ''loglevel'', wf_env = ''LOGLEVEL'', wf_default = StringDefault ''info'', wf_required = False\<rparr>"

definition threadiness_flag :: webhook_flag where
  "threadiness_flag = \<lparr>wf_name = ''threadiness'', wf_env = ''THREADINESS'', wf_default = IntDefault 5, wf_required = False\<rparr>"

definition https_port_flag :: webhook_flag where
  "https_port_flag = \<lparr>wf_name = ''https-port'', wf_env = ''WEBHOOK_SERVER_HTTPS_PORT'', wf_default = IntDefault 8443,
     wf_required = False\<rparr>"

definition namespace_flag :: webhook_flag where
  "namespace_flag = \<lparr>wf_name = ''namespace'', wf_env = ''NAMESPACE'', wf_default = StringDefault ''harvester-system'', wf_required = True\<rparr>"

definition controller_user_flag :: webhook_flag where
  "controller_user_flag = \<lparr>wf_name = ''controller-user'', wf_env = ''CONTROLLER_USER_NAME'',
     wf_default = StringDefault ''harvester-csi-driver-lvm-webhook'', wf_required = False\<rparr>"

definition gc_user_flag :: webhook_flag where
  "gc_user_flag = \<lparr>wf_name = ''gc-user'', wf_env = ''GARBAGE_COLLECTION_USER_NAME'',
     wf_default = StringDefault ''system:serviceaccount:kube-system:generic-garbage-collector'', wf_required = False\<rparr>"

lemmas webhook_flag_defs = loglevel_flag_def threadiness_flag_def https_port_flag_def namespace_flag_def
  controller_user_flag_def gc_user_flag_def

definition webhook_flags :: "webhook_flag list" where
  "webhook_flags = [loglevel_flag, threadiness_flag, https_port_flag, namespace_flag, controller_user_flag, gc_user_flag]"

definition flag_string :: "(webhook_flag \<Rightarrow> string option) \<Rightarrow> webhook_flag \<Rightarrow> string" where
  "flag_string given f = (case given f of
     Some v \<Rightarrow> v | None \<Rightarrow> (case wf_default f of StringDefault d \<Rightarrow> d | IntDefault n \<Rightarrow> show_int n))"

definition flag_int :: "(string \<Rightarrow> int option) \<Rightarrow> (webhook_flag \<Rightarrow> string option) \<Rightarrow> webhook_flag \<Rightarrow> int option" where
  "flag_int parseInt given f = (case wf_default f of
     StringDefault d \<Rightarrow> None
   | IntDefault n \<Rightarrow> (case given f of Some v \<Rightarrow> parseInt v | None \<Rightarrow> Some n))"

text \<open>What the library checks of one flag.\<close>

definition flag_check :: "(string \<Rightarrow> int option) \<Rightarrow> (webhook_flag \<Rightarrow> string option) \<Rightarrow> webhook_flag \<Rightarrow> check" where
  "flag_check parseInt given f =
     (if (\<exists>n. wf_default f = IntDefault n) \<and> flag_int parseInt given f = None then
        Some (Errorf ''could not parse %q as int value for flag %s'' [flag_string given f, wf_name f] None)
      else if wf_required f \<and> given f = None then Some (Errorf ''Required flag %q not set'' [wf_name f] None)
      else None)"

definition webhook_options_of :: "(string \<Rightarrow> int option) \<Rightarrow> (webhook_flag \<Rightarrow> string option) \<Rightarrow> webhook_options" where
  "webhook_options_of parseInt given = \<lparr>
     wo_Threadiness = the (flag_int parseInt given threadiness_flag),
     wo_HTTPSListenPort = the (flag_int parseInt given https_port_flag),
     wo_Namespace = flag_string given namespace_flag,
     wo_ControllerUsername = flag_string given controller_user_flag,
     wo_GarbageCollectionUsername = flag_string given gc_user_flag\<rparr>"

subsection \<open>The validator as the server sees it\<close>

record Validator =
  storageClassCtrl :: "api_error + storage_class list"
  nodeCtrl :: "api_error + string list"

definition NewStorageClassValidator :: "(api_error + storage_class list) \<Rightarrow> (api_error + string list) \<Rightarrow> Validator" where
  "NewStorageClassValidator classes nodes = \<lparr>storageClassCtrl = classes, nodeCtrl = nodes\<rparr>"

datatype admission_request = CreateRequest storage_class | UpdateRequest storage_class storage_class | DeleteRequest storage_class

text \<open>
  The validator answers creations and updates; the embedded default validator allows the rest.
\<close>

definition validate_request :: "Validator \<Rightarrow> admission_request \<Rightarrow> check outcome" where
  "validate_request v req =
     (case req of
        CreateRequest newObj \<Rightarrow> Create (nodeCtrl v) (storageClassCtrl v) newObj
      | UpdateRequest oldObj newObj \<Rightarrow> Update oldObj newObj
      | DeleteRequest oldObj \<Rightarrow> Returned None)"

subsection \<open>The process\<close>

record webhook_env =
  we_kubeconfig :: check
  we_parseInt :: "string \<Rightarrow> int option"
  we_parseLevel :: "string \<Rightarrow> string option"
  we_storageFactory :: check
  we_coreFactory :: check
  we_register :: "webhook_resource list \<Rightarrow> check"
  we_start :: "webhook_options \<Rightarrow> check"

text \<open>The server is created under the name of the webhook.\<close>

definition webhookName :: string where
  "webhookName = ''harvester-csi-driver-lvm-webhook''"

datatype webhook_event = SetLevel string | RegisterValidators "webhook_resource list" | StartServer string webhook_options

definition setLogLevel :: "webhook_env \<Rightarrow> string \<Rightarrow> webhook_event" where
  "setLogLevel E level = SetLevel (case we_parseLevel E level of Some ll \<Rightarrow> ll | None \<Rightarrow> ''debug'')"

definition runWebhookServer :: "webhook_env \<Rightarrow> webhook_options \<Rightarrow> check \<times> webhook_event list" where
  "runWebhookServer E options =
     (case we_storageFactory E of
        Some err \<Rightarrow> (Some err, [])
      | None \<Rightarrow>
          (case we_coreFactory E of
             Some err \<Rightarrow> (Some err, [])
           | None \<Rightarrow>
               let validators = [Resource] in
               (case we_register E validators of
                  Some err \<Rightarrow> (Some err, [RegisterValidators validators])
                | None \<Rightarrow>
                    (case we_start E options of
                       Some err \<Rightarrow> (Some err, [RegisterValidators validators, StartServer webhookName options])
                     | None \<Rightarrow> (None, [RegisterValidators validators, StartServer webhookName options])))))"

text \<open>\<open>main\<close>: \<open>None\<close> is the end of the process after the context was cancelled, \<open>Some\<close> a fatal error.\<close>

definition webhook_main :: "webhook_env \<Rightarrow> (webhook_flag \<Rightarrow> string option) \<Rightarrow> check \<times> webhook_event list" where
  "webhook_main E given =
     (case we_kubeconfig E of
        Some err \<Rightarrow> (Some err, [])
      | None \<Rightarrow>
          (case first_error (flag_check (we_parseInt E) given) webhook_flags of
             Some err \<Rightarrow> (Some (Errorf ''run webhook server failed: %v'' [] (Some err)), [])
           | None \<Rightarrow>
               let level = setLogLevel E (flag_string given loglevel_flag);
                   (r, events) = runWebhookServer E (webhook_options_of (we_parseInt E) given)
               in (case r of
                     Some err \<Rightarrow> (Some (Errorf ''run webhook server failed: %v'' [] (Some err)), level # events)
                   | None \<Rightarrow> (None, level # events))))"

subsection \<open>What is started\<close>

interpretation webhook_flags: validator "flag_check parseInt given"
  "\<lambda>f. (\<forall>n. wf_default f = IntDefault n \<longrightarrow> flag_int parseInt given f \<noteq> None) \<and> (wf_required f \<longrightarrow> given f \<noteq> None)"
  by unfold_locales (auto simp: flag_check_def)

definition readable :: "(string \<Rightarrow> int option) \<Rightarrow> (webhook_flag \<Rightarrow> string option) \<Rightarrow> bool" where
  "readable parseInt given \<longleftrightarrow> given namespace_flag \<noteq> None
     \<and> flag_int parseInt given threadiness_flag \<noteq> None \<and> flag_int parseInt given https_port_flag \<noteq> None"

lemma flags_readable: "first_error (flag_check parseInt given) webhook_flags = None \<longleftrightarrow> readable parseInt given"
  unfolding webhook_flags.all_good webhook_flags_def readable_def by (auto simp: webhook_flag_defs)

text \<open>
  C40 (the webhook's process): a server is started only when the client configuration, the flags and both
  factories are good and the validator for the creation and update of storage classes was registered
  before, with the options of the flags; a log level that cannot be read is \<open>debug\<close>; the process
  ends without a fatal error exactly when the started server does; and the namespace has to be given,
  its default is never used.
\<close>

theorem webhook_main_correct:
  assumes "webhook_main E given = (r, events)"
  shows "(\<forall>options. StartServer webhookName options \<in> set events \<longrightarrow>
        we_kubeconfig E = None \<and> readable (we_parseInt E) given \<and> we_storageFactory E = None \<and> we_coreFactory E = None
        \<and> we_register E [Resource] = None \<and> options = webhook_options_of (we_parseInt E) given
        \<and> given namespace_flag = Some (wo_Namespace options)
        \<and> events = [setLogLevel E (flag_string given loglevel_flag), RegisterValidators [Resource], StartServer webhookName options])
    \<and> (r = None \<longleftrightarrow> StartServer webhookName (webhook_options_of (we_parseInt E) given) \<in> set events \<and> we_start E (webhook_options_of (we_parseInt E) given) = None)"
proof -
  have ns: "given namespace_flag = Some (wo_Namespace (webhook_options_of (we_parseInt E) given))" if "readable (we_parseInt E) given"
    using that by (auto simp: readable_def webhook_options_of_def flag_string_def)
  note check = flags_readable [of "we_parseInt E" given]
  consider (stopped) x where "we_kubeconfig E = Some x" | (unreadable) "we_kubeconfig E = None" "\<not> readable (we_parseInt E) given"
    | (parsed) "we_kubeconfig E = None" "readable (we_parseInt E) given"
    by (cases "we_kubeconfig E") auto
  then show ?thesis
  proof cases
    case stopped
    then have "r = Some x" "events = []" using assms by (simp_all add: webhook_main_def)
    then show ?thesis by simp
  next
    case unreadable
    then obtain x where "first_error (flag_check (we_parseInt E) given) webhook_flags = Some x" using check by blast
    then show ?thesis using assms unreadable by (auto simp: webhook_main_def)
  next
    case parsed
    then have "first_error (flag_check (we_parseInt E) given) webhook_flags = None" using check by blast
    with parsed have "(r, events) = (let (x, l) = runWebhookServer E (webhook_options_of (we_parseInt E) given) in
        (map_option (\<lambda>err. Errorf ''run webhook server failed: %v'' [] (Some err)) x, setLogLevel E (flag_string given loglevel_flag) # l))"
      using assms by (simp add: webhook_main_def Let_def split: prod.splits option.splits del: first_error_None_iff)
    then show ?thesis using parsed ns
      by (auto simp: runWebhookServer_def setLogLevel_def Let_def split: option.splits)
  qed
qed

definition webhook_env_x :: webhook_env where
  "webhook_env_x = \<lparr>we_kubeconfig = None, we_parseInt = (\<lambda>_. None), we_parseLevel = (\<lambda>l. if l = ''info'' then Some l else None), we_storageFactory = None,
     we_coreFactory = None, we_register = (\<lambda>_. None), we_start = (\<lambda>_. None)\<rparr>"

theorem webhook_main_correct_witness:
  "\<exists>events. webhook_main webhook_env_x [namespace_flag \<mapsto> ''ns''] = (None, events)
     \<and> (\<exists>options. StartServer webhookName options \<in> set events \<and> wo_Namespace options = ''ns'')"
proof -
  let ?given = "[namespace_flag \<mapsto> ''ns'']"
  have "readable (we_parseInt webhook_env_x) ?given" by (simp add: readable_def flag_int_def webhook_flag_defs)
  then have "first_error (flag_check (we_parseInt webhook_env_x) ?given) webhook_flags = None" by (rule flags_readable [THEN iffD2])
  then have r: "fst (webhook_main webhook_env_x ?given) = None"
    by (simp add: webhook_main_def webhook_env_x_def runWebhookServer_def Let_def del: first_error_None_iff)
  obtain events where run: "webhook_main webhook_env_x ?given = (None, events)" using r by (metis prod.collapse)
  note correct = webhook_main_correct [OF run]
  then have ev: "StartServer webhookName (webhook_options_of (we_parseInt webhook_env_x) ?given) \<in> set events" by blast
  with correct have "?given namespace_flag = Some (wo_Namespace (webhook_options_of (we_parseInt webhook_env_x) ?given))" by blast
  then show ?thesis using run ev by auto
qed

text \<open>
  What the running webhook admits is a step of the storage classes of the cluster, when the listings
  are those of the cluster and the API server keeps what it documents of updates.
\<close>

lemma admitted_step:
  assumes "validate_request (NewStorageClassValidator (Inr cs) (Inr nodes)) req = Returned None"
    and "case req of CreateRequest c \<Rightarrow> scl_name c \<notin> scl_name ` set cs \<and> ds = c # cs
      | UpdateRequest old new \<Rightarrow> scl_name new = scl_name old \<and> scl_provisioner new = scl_provisioner old
          \<and> scl_parameters new = scl_parameters old \<and> (\<exists>xs ys. cs = xs @ old # ys \<and> ds = xs @ new # ys)
      | DeleteRequest c \<Rightarrow> \<exists>xs ys. cs = xs @ c # ys \<and> ds = xs @ ys"
  shows "sc_step cs ds"
  using assms by (cases req) (auto simp: validate_request_def NewStorageClassValidator_def intro: sc_step.intros)

text \<open>
  The check and the creation are two steps: of two classes that are checked at the same time, each
  against a listing without the other, both are admitted although they conflict.
\<close>

lemma concurrent_creations_conflict:
  "\<exists>a b. validate_request (NewStorageClassValidator (Inr []) (Inr [''node1''])) (CreateRequest a) = Returned None
     \<and> validate_request (NewStorageClassValidator (Inr []) (Inr [''node1''])) (CreateRequest b) = Returned None
     \<and> \<not> sc_inv [a, b]"
proof -
  let ?b = "(class_x ''b'')\<lparr>scl_parameters := [''type'' \<mapsto> ''dm-thin'', ''vgName'' \<mapsto> ''vg1'']\<rparr>"
  have "Create (Inr [''node1'']) (Inr []) (class_x ''a'') = Returned None" by (rule class_x_admitted) simp
  moreover have "Create (Inr [''node1'']) (Inr []) ?b = Returned None"
    by (simp add: Create_def validateTopologyNodes_def validateUniqueVGType_def getLVMTopologyNodes_def class_x_def)
  moreover have "\<not> sc_inv [class_x ''a'', ?b]"
    by (simp add: sc_inv_def lvm_class_def sc_key_def sc_type_def getLVMTopologyNodes_def class_x_def)
  ultimately show ?thesis by (fastforce simp: validate_request_def NewStorageClassValidator_def)
qed

end
