(* ===== verification/Driver.thy ===== *)
theory Driver
  imports Controller Node_Server
begin

section \<open>The driver process (\<open>main.go\<close>, \<open>lvm.go\<close>, \<open>identityserver.go\<close>, \<open>server.go\<close>)\<close>

text \<open>
  How the driver is put together: flags to configuration, configuration to the three servers, and the
  endpoint they listen on.  Flag parsing, sockets and the gRPC server are libraries; what they return
  is an argument.
\<close>

subsection \<open>The identity service\<close>

record identityServer =
  ids_name :: string
  ids_version :: string

datatype plugin_capability = CONTROLLER_SERVICE | VOLUME_ACCESSIBILITY_CONSTRAINTS

definition newIdentityServer :: "string \<Rightarrow> string \<Rightarrow> identityServer" where
  "newIdentityServer name version = \<lparr>ids_name = name, ids_version = version\<rparr>"

definition GetPluginInfo :: "identityServer \<Rightarrow> (string \<times> string) res" where
  "GetPluginInfo ids =
     (if ids_name ids = '''' then Inl (Status Unavailable (msg ''Driver name not configured''))
      else if ids_version ids = '''' then Inl (Status Unavailable (msg ''Driver is missing version''))
      else Inr (ids_name ids, ids_version ids))"

definition Probe :: "unit res" where "Probe = Inr ()"

definition GetPluginCapabilities :: "plugin_capability list res" where
  "GetPluginCapabilities = Inr [CONTROLLER_SERVICE, VOLUME_ACCESSIBILITY_CONSTRAINTS]"

subsection \<open>The endpoint\<close>

definition parseEndpoint :: "string \<Rightarrow> (string \<times> string) res" where
  "parseEndpoint ep =
     (let bad = Inl (Errorf ''invalid endpoint: %v'' [ep] None) in
      if prefix ''unix://'' (ToLower ep) \<or> prefix ''tcp://'' (ToLower ep) then
        (case split_first ''://'' ep of
           Some (s0, s1) \<Rightarrow> if s1 \<noteq> '''' then Inr (s0, s1) else bad
         | None \<Rightarrow> bad)
      else bad)"

text \<open>
  The work of \<open>serve\<close> until it listens: \<open>rm\<close> is \<open>os.Remove\<close> and \<open>listen\<close> the error of
  \<open>net.Listen\<close>.  A fatal error ends the process.
\<close>

datatype served = Fatal goerr | Serving string string

definition serve :: "(string \<Rightarrow> os_error option) \<Rightarrow> (string \<Rightarrow> string \<Rightarrow> goerr option) \<Rightarrow> string \<Rightarrow> served" where
  "serve rm listen endpoint =
     (case parseEndpoint endpoint of
        Inl err \<Rightarrow> Fatal err
      | Inr (proto, addr) \<Rightarrow>
          let addr' = (if proto = ''unix'' then ''/'' @ addr else addr);
              removal = (if proto = ''unix'' then rm addr' else None)
          in (case removal of
                Some e \<Rightarrow>
                  if e \<noteq> OsNotExist then Fatal (Errorf ''Failed to remove %s, error: %s'' [addr'] (Some (OsErr e)))
                  else (case listen proto addr' of
                          Some e' \<Rightarrow> Fatal (Errorf ''Failed to listen: %v'' [] (Some e'))
                        | None \<Rightarrow> Serving proto addr')
              | None \<Rightarrow>
                  (case listen proto addr' of
                     Some e' \<Rightarrow> Fatal (Errorf ''Failed to listen: %v'' [] (Some e'))
                   | None \<Rightarrow> Serving proto addr')))"

subsection \<open>The driver\<close>

record Lvm =
  lvm_name :: string
  lvm_nodeID :: string
  lvm_version :: string
  lvm_endpoint :: string
  lvm_hostWritePath :: string
  lvm_maxVolumesPerNode :: int
  lvm_provisionerImage :: string
  lvm_pullPolicy :: string
  lvm_namespace :: string
  lvm_helperConfig :: HelperConfig

type_synonym DriverOption = "Lvm \<Rightarrow> Lvm res"

definition WithHelperConfig :: "HelperConfig \<Rightarrow> DriverOption" where
  "WithHelperConfig config driver =
     (case validate_config config of
        Some err \<Rightarrow> Inl err
      | None \<Rightarrow> Inr (driver\<lparr>lvm_helperConfig := config\<rparr>))"

fun apply_options :: "DriverOption list \<Rightarrow> Lvm \<Rightarrow> Lvm res" where
  "apply_options [] driver = Inr driver"
| "apply_options (option # options) driver =
     (case option driver of
        Inl err \<Rightarrow> Inl (Errorf ''invalid driver option: %w'' [] (Some err))
      | Inr d \<Rightarrow> apply_options options d)"

definition PullAlways :: string where "PullAlways = ''Always''"
definition PullIfNotPresent :: string where "PullIfNotPresent = ''IfNotPresent''"
definition pullIfNotPresent :: string where "pullIfNotPresent = ''ifnotpresent''"

text \<open>The package variable \<open>vendorVersion\<close> is an argument, and its new value the second result.\<close>

definition NewLvmDriver ::
  "string \<Rightarrow> string \<Rightarrow> string \<Rightarrow> string \<Rightarrow> string \<Rightarrow> int \<Rightarrow> string \<Rightarrow> string \<Rightarrow> string \<Rightarrow> string \<Rightarrow> DriverOption list
    \<Rightarrow> Lvm res \<times> string" where
  "NewLvmDriver vendorVersion driverName nodeID endpoint hostWritePath maxVolumesPerNode version namespace
     provisionerImage pullPolicy options =
     (if driverName = '''' then (Inl (msg ''no driver name provided''), vendorVersion)
      else if nodeID = '''' then (Inl (msg ''no node id provided''), vendorVersion)
      else if endpoint = '''' then (Inl (msg ''no driver endpoint provided''), vendorVersion)
      else
        let vendorVersion' = (if version \<noteq> '''' then version else vendorVersion);
            pp = (if ToLower pullPolicy = pullIfNotPresent then PullIfNotPresent else PullAlways);
            driver = \<lparr>lvm_name = driverName, lvm_nodeID = nodeID, lvm_version = vendorVersion', lvm_endpoint = endpoint,
                      lvm_hostWritePath = hostWritePath, lvm_maxVolumesPerNode = maxVolumesPerNode,
                      lvm_provisionerImage = provisionerImage, lvm_pullPolicy = pp, lvm_namespace = namespace,
                      lvm_helperConfig = DefaultHelperConfig\<rparr>
        in (apply_options options driver, vendorVersion'))"

text \<open>\<open>Run\<close> up to the start of the gRPC server; the three checks are those of \<open>newControllerServer\<close>.\<close>

definition Run ::
  "'w host \<Rightarrow> check \<Rightarrow> check \<Rightarrow> check \<Rightarrow> Lvm \<Rightarrow> ('w, (identityServer \<times> nodeServer \<times> controllerServer) res) op" where
  "Run H inClusterConfig newKubeClient newSnapClient lvm = do {
     n \<leftarrow> newNodeServer H (lvm_nodeID lvm) (lvm_maxVolumesPerNode lvm);
     State_Monad.return
       (case n of
          Inl err \<Rightarrow> Inl err
        | Inr ns \<Rightarrow>
            (case newControllerServer inClusterConfig newKubeClient newSnapClient (lvm_nodeID lvm) (lvm_hostWritePath lvm)
                    (lvm_namespace lvm) (lvm_provisionerImage lvm) (lvm_pullPolicy lvm) (lvm_helperConfig lvm) of
               Inl err \<Rightarrow> Inl err
             | Inr cs \<Rightarrow> Inr (newIdentityServer (lvm_name lvm) (lvm_version lvm), ns, cs)))
   }"

subsection \<open>The command line\<close>

record driver_flags =
  fl_endpoint :: string
  fl_hostWritePath :: string
  fl_driverName :: string
  fl_nodeID :: string
  fl_maxVolumesPerNode :: int
  fl_namespace :: string
  fl_provisionerImage :: string
  fl_pullPolicy :: string
  fl_helperCommandTimeout :: int
  fl_helperPodTimeout :: int
  fl_thinPoolCreateTimeout :: int
  fl_thinPoolHelperPodTimeout :: int
  fl_maxActiveHelpers :: int

definition default_flags :: driver_flags where
  "default_flags = \<lparr>
     fl_endpoint = ''unix://tmp/csi.sock'', fl_hostWritePath = ''/etc/lvm'', fl_driverName = ''harvester-csi-driver-lvm'',
     fl_nodeID = '''', fl_maxVolumesPerNode = 0, fl_namespace = ''csi-lvm'',
     fl_provisionerImage = ''metalstack/csi-lvmplugin-provisioner'', fl_pullPolicy = ''ifnotpresent'',
     fl_helperCommandTimeout = CommandTimeout DefaultHelperConfig,
     fl_helperPodTimeout = PodTimeout DefaultHelperConfig,
     fl_thinPoolCreateTimeout = ThinPoolCreateTimeout DefaultHelperConfig,
     fl_thinPoolHelperPodTimeout = ThinPoolPodTimeout DefaultHelperConfig,
     fl_maxActiveHelpers = MaxActive DefaultHelperConfig\<rparr>"

definition flag_config :: "driver_flags \<Rightarrow> HelperConfig" where
  "flag_config fl = \<lparr>
     CommandTimeout = fl_helperCommandTimeout fl,
     PodTimeout = fl_helperPodTimeout fl,
     ThinPoolCreateTimeout = fl_thinPoolCreateTimeout fl,
     ThinPoolPodTimeout = fl_thinPoolHelperPodTimeout fl,
     MaxActive = fl_maxActiveHelpers fl\<rparr>"

text \<open>\<open>handle\<close>: an error is printed and ends the process with status 1.\<close>

definition handle ::
  "'w host \<Rightarrow> check \<Rightarrow> check \<Rightarrow> check \<Rightarrow> string \<Rightarrow> string \<Rightarrow> driver_flags
    \<Rightarrow> ('w, (identityServer \<times> nodeServer \<times> controllerServer) res) op" where
  "handle H inClusterConfig newKubeClient newSnapClient vendorVersion version fl =
     (case fst (NewLvmDriver vendorVersion (fl_driverName fl) (fl_nodeID fl) (fl_endpoint fl) (fl_hostWritePath fl)
             (fl_maxVolumesPerNode fl) version (fl_namespace fl) (fl_provisionerImage fl) (fl_pullPolicy fl)
             [WithHelperConfig (flag_config fl)]) of
        Inl err \<Rightarrow> State_Monad.return (Inl err)
      | Inr driver \<Rightarrow> Run H inClusterConfig newKubeClient newSnapClient driver)"

subsection \<open>What is started\<close>

lemma NewLvmDriver_ok:
  assumes "fst (NewLvmDriver vv name node ep path mx ver ns img pp [WithHelperConfig c]) = Inr d"
  shows "name \<noteq> ''''" "node \<noteq> ''''" "ep \<noteq> ''''" "config_ok c"
    "d = \<lparr>lvm_name = name, lvm_nodeID = node, lvm_version = (if ver \<noteq> '''' then ver else vv), lvm_endpoint = ep,
          lvm_hostWritePath = path, lvm_maxVolumesPerNode = mx, lvm_provisionerImage = img,
          lvm_pullPolicy = (if ToLower pp = pullIfNotPresent then PullIfNotPresent else PullAlways),
          lvm_namespace = ns, lvm_helperConfig = c\<rparr>"
  using assms config.check_iff [of c]
  by (auto simp: NewLvmDriver_def WithHelperConfig_def Let_def split: if_splits option.splits)

lemma supported_calls:
  "newControllerServer a b c' nodeID path ns img pp cfg = Inr cs \<Longrightarrow>
     validateControllerServiceRequest cs rpc = None \<longleftrightarrow>
       rpc \<in> {RPC_UNKNOWN, RPC_CREATE_DELETE_VOLUME, RPC_CREATE_DELETE_SNAPSHOT, RPC_CLONE_VOLUME}"
  by (auto simp: newControllerServer_def validateControllerServiceRequest_def getControllerServiceCapabilities_def
      split: option.splits)

lemma handle_configuration:
  assumes "run_state (handle H inClusterConfig newKubeClient newSnapClient vendorVersion version fl) s = (Inr (ids, ns, cs), t)"
  shows "srv_helperConfig cs = flag_config fl \<and> validate_config (srv_helperConfig cs) = None
    \<and> srv_nodeID cs = fl_nodeID fl \<and> ns_nodeID ns = fl_nodeID fl \<and> fl_nodeID fl \<noteq> ''''
    \<and> srv_pullPolicy cs \<in> {PullAlways, PullIfNotPresent}
    \<and> {rpc. validateControllerServiceRequest cs rpc = None}
        = {RPC_UNKNOWN, RPC_CREATE_DELETE_VOLUME, RPC_CREATE_DELETE_SNAPSHOT, RPC_CLONE_VOLUME}
    \<and> ids = newIdentityServer (fl_driverName fl) (if version \<noteq> '''' then version else vendorVersion) \<and> fl_driverName fl \<noteq> ''''"
proof -
  obtain d where d: "fst (NewLvmDriver vendorVersion (fl_driverName fl) (fl_nodeID fl) (fl_endpoint fl) (fl_hostWritePath fl)
             (fl_maxVolumesPerNode fl) version (fl_namespace fl) (fl_provisionerImage fl) (fl_pullPolicy fl)
             [WithHelperConfig (flag_config fl)]) = Inr d"
      "run_state (Run H inClusterConfig newKubeClient newSnapClient d) s = (Inr (ids, ns, cs), t)"
    using assms by (auto simp: handle_def split: sum.splits)
  note ok = NewLvmDriver_ok [OF d(1)]
  obtain u where n: "run_state (newNodeServer H (lvm_nodeID d) (lvm_maxVolumesPerNode d)) s = (Inr ns, u)"
    and c: "newControllerServer inClusterConfig newKubeClient newSnapClient (lvm_nodeID d) (lvm_hostWritePath d)
        (lvm_namespace d) (lvm_provisionerImage d) (lvm_pullPolicy d) (lvm_helperConfig d) = Inr cs"
    and i: "ids = newIdentityServer (lvm_name d) (lvm_version d)"
    using d(2) by (auto simp: Run_def split: sum.splits prod.splits)
  have "ns_nodeID ns = lvm_nodeID d" using n
    by (auto simp: newNodeServer_def run_simps split: prod.splits option.splits)
  moreover have "srv_helperConfig cs = lvm_helperConfig d" "srv_nodeID cs = lvm_nodeID d" "srv_pullPolicy cs = lvm_pullPolicy d"
    using c by (auto simp: newControllerServer_def split: option.splits)
  ultimately show ?thesis using ok supported_calls [OF c] i
    by (auto simp: config.check_iff)
qed

lemma quiet_handle:
  "\<exists>ids ns cs t. run_state (handle (quiet_host (\<lambda>_ _ _ w. ((''ok'', None), w))) None None None ''dev'' ''v1''
        (default_flags\<lparr>fl_nodeID := ''node1''\<rparr>)) (start ()) = (Inr (ids, ns, cs), t)"
proof -
  let ?fl = "default_flags\<lparr>fl_nodeID := ''node1''\<rparr>"
  let ?H = "quiet_host (\<lambda>_ _ _ w. ((''ok'', None), w)) :: unit host"
  have "config_ok (flag_config ?fl)"
    by (simp add: config_ok_def flag_config_def default_flags_def DefaultHelperConfig_def minute_def second_def)
  then have ok: "validate_config (flag_config ?fl) = None" by (rule config.accepts)
  have vg: "\<exists>t. run_state (VgActivate ?H) (start ()) = (None, t)"
    by (simp add: VgActivate_def scanVolumeGroups_def activateVolumeGroups_def newCommandExecutor_def Execute_def run_simps Let_def)
  obtain r t where run: "run_state (handle ?H None None None ''dev'' ''v1'' ?fl) (start ()) = (r, t)" by (rule prod.exhaust)
  then obtain ids ns cs where r: "r = Inr (ids, ns, cs)" using ok vg
    by (auto simp: handle_def NewLvmDriver_def WithHelperConfig_def default_flags_def Run_def newNodeServer_def
        newControllerServer_def Let_def)
  show ?thesis using run r by blast
qed

text \<open>
  C35: when the driver starts, its controller has exactly the helper configuration of the flags, which
  is a valid one (so that the deadline of a helper pod exceeds its command timeouts and the limit is
  positive), the same node identity as its node server, never empty, one of the two pull policies,
  and the calls for volumes, snapshots and clones enabled; and the identity service reports the
  driver's name and version.
\<close>

theorem driver_configuration:
  assumes "run_state (handle H inClusterConfig newKubeClient newSnapClient vendorVersion version fl) s = (Inr (ids, ns, cs), t)"
    and "vendorVersion \<noteq> ''''"
  shows "srv_helperConfig cs = flag_config fl \<and> validate_config (srv_helperConfig cs) = None
    \<and> srv_nodeID cs = fl_nodeID fl \<and> ns_nodeID ns = fl_nodeID fl \<and> fl_nodeID fl \<noteq> ''''
    \<and> srv_pullPolicy cs \<in> {PullAlways, PullIfNotPresent}
    \<and> {rpc. validateControllerServiceRequest cs rpc = None}
        = {RPC_UNKNOWN, RPC_CREATE_DELETE_VOLUME, RPC_CREATE_DELETE_SNAPSHOT, RPC_CLONE_VOLUME}
    \<and> GetPluginInfo ids = Inr (fl_driverName fl, if version \<noteq> '''' then version else vendorVersion)"
proof -
  note conf = handle_configuration [OF assms(1)]
  then have "GetPluginInfo ids = Inr (fl_driverName fl, if version \<noteq> '''' then version else vendorVersion)"
    using assms(2) by (elim conjE) (simp add: newIdentityServer_def GetPluginInfo_def)
  with conf show ?thesis by (elim conjE) (intro conjI)
qed

theorem driver_configuration_witness:
  "\<exists>ids ns cs t. run_state (handle (quiet_host (\<lambda>_ _ _ w. ((''ok'', None), w))) None None None ''dev'' ''v1''
        (default_flags\<lparr>fl_nodeID := ''node1''\<rparr>)) (start ()) = (Inr (ids, ns, cs), t)
     \<and> MaxActive (srv_helperConfig cs) = 3 \<and> GetPluginInfo ids = Inr (''harvester-csi-driver-lvm'', ''v1'')"
proof -
  obtain ids ns cs t where run: "run_state (handle (quiet_host (\<lambda>_ _ _ w. ((''ok'', None), w))) None None None ''dev'' ''v1''
        (default_flags\<lparr>fl_nodeID := ''node1''\<rparr>)) (start ()) = (Inr (ids, ns, cs), t)"
    using quiet_handle by blast
  from driver_configuration [OF run] run show ?thesis
    by (auto simp: flag_config_def default_flags_def DefaultHelperConfig_def)
qed


subsection \<open>Endpoints\<close>

lemma split_first_scheme:
  "split_first ''://'' (''unix://'' @ a) = Some (''unix'', a)" "split_first ''://'' (''tcp://'' @ a) = Some (''tcp'', a)"
  by simp_all

lemma ToLower_scheme: "ToLower (''unix://'' @ a) = ''unix://'' @ ToLower a" "ToLower (''tcp://'' @ a) = ''tcp://'' @ ToLower a"
  by (simp_all add: lower_char_def)

lemma parse_schemes:
  assumes "addr \<noteq> ''''"
  shows "parseEndpoint (''unix://'' @ addr) = Inr (''unix'', addr)" and "parseEndpoint (''tcp://'' @ addr) = Inr (''tcp'', addr)"
  unfolding parseEndpoint_def Let_def ToLower_scheme split_first_scheme using assms by simp_all

lemma parseEndpoint_parts: "parseEndpoint ep = Inr (p, a) \<Longrightarrow> ep = p @ ''://'' @ a \<and> a \<noteq> ''''"
  by (auto simp: parseEndpoint_def Let_def split: if_splits option.splits dest: split_first_Some)

lemma serve_Serving:
  "serve rm listen ep = Serving p a \<longleftrightarrow> (\<exists>raw. parseEndpoint ep = Inr (p, raw) \<and> a = (if p = ''unix'' then ''/'' @ raw else raw)
     \<and> (p = ''unix'' \<longrightarrow> rm a \<in> {None, Some OsNotExist}) \<and> listen p a = None)"
  by (auto simp: serve_def Let_def split: sum.splits option.splits prod.splits if_splits)

text \<open>
  Endpoints: an endpoint that is accepted is its protocol, \<open>://\<close> and its address, which is not
  empty; the server listens on that address, made absolute for a Unix socket, and on a Unix socket
  only when a stale one was removed or none was there; and every \<open>unix\<close> and \<open>tcp\<close> endpoint with an
  address is served exactly when the removal and the listening succeed.
\<close>

lemma parseEndpoint_correct:
  "(\<forall>p a. parseEndpoint ep = Inr (p, a) \<longrightarrow> ep = p @ ''://'' @ a \<and> a \<noteq> '''')
   \<and> (\<forall>p a. serve rm listen ep = Serving p a \<longrightarrow> listen p a = None
        \<and> (if p = ''unix'' then rm a \<in> {None, Some OsNotExist} \<and> (\<exists>raw. a = ''/'' @ raw \<and> ep = ''unix://'' @ raw)
           else ep = p @ ''://'' @ a))
   \<and> (addr \<noteq> '''' \<longrightarrow>
        (serve rm listen (''unix://'' @ addr) = Serving ''unix'' (''/'' @ addr)
          \<longleftrightarrow> rm (''/'' @ addr) \<in> {None, Some OsNotExist} \<and> listen ''unix'' (''/'' @ addr) = None)
        \<and> (serve rm listen (''tcp://'' @ addr) = Serving ''tcp'' addr \<longleftrightarrow> listen ''tcp'' addr = None))"
  unfolding serve_Serving using parseEndpoint_parts [of ep] parse_schemes [of addr] by fastforce

lemma parseEndpoint_correct_example:
  "serve (\<lambda>_. Some OsNotExist) (\<lambda>_ _. None) (fl_endpoint default_flags) = Serving ''unix'' ''/tmp/csi.sock''"
  using parseEndpoint_correct [of _ "\<lambda>_. Some OsNotExist" "\<lambda>_ _. None" "''tmp/csi.sock''"] by (simp add: default_flags_def)

text \<open>
  The scheme is compared without regard to case when it is parsed, but exactly when the socket is
  opened: an upper-case scheme is accepted and handed on as the network, which \<open>net.Listen\<close> does not
  know, so that the process ends.
\<close>

lemma upper_case_scheme:
  "parseEndpoint ''UNIX://tmp/csi.sock'' = Inr (''UNIX'', ''tmp/csi.sock'')"
  "listen ''UNIX'' ''tmp/csi.sock'' = Some e \<Longrightarrow> serve rm listen ''UNIX://tmp/csi.sock'' = Fatal (Errorf ''Failed to listen: %v'' [] (Some e))"
proof -
  have "ToLower ''UNIX://tmp/csi.sock'' = ''unix://tmp/csi.sock''" by code_simp
  then show "parseEndpoint ''UNIX://tmp/csi.sock'' = Inr (''UNIX'', ''tmp/csi.sock'')"
    by (simp add: parseEndpoint_def Let_def del: ToLower.simps)
  then show "listen ''UNIX'' ''tmp/csi.sock'' = Some e \<Longrightarrow>
      serve rm listen ''UNIX://tmp/csi.sock'' = Fatal (Errorf ''Failed to listen: %v'' [] (Some e))"
    by (simp add: serve_def Let_def)
qed

end
