(* ===== verification/Grpc_Server.thy ===== *)
theory Grpc_Server
  imports Driver
begin

section \<open>The gRPC server and the process of the driver (\<open>server.go\<close>, \<open>main.go\<close>)\<close>

text \<open>
  \<open>start\<close> adds one to the wait group and runs \<open>serve\<close> in a goroutine; \<open>wait\<close> returns when the wait group is
  zero; \<open>Stop\<close> and \<open>ForceStop\<close> end \<open>server.Serve\<close>.  The process is a transition system: the goroutine,
  the main goroutine and the environment take steps in any order.  A fatal log message ends the
  process.  The calls of \<open>serve\<close> up to \<open>server.Serve\<close> are one step, with any answers of the operating
  system.
\<close>

subsection \<open>Logging of calls\<close>

text \<open>
  \<open>klog\<close> writes a line of level \<open>n\<close> when the verbosity is at least \<open>n\<close>, and errors always; requests and
  responses are printed through \<open>StripSecrets\<close>.
\<close>

datatype 'p log_line = LogCall string | LogRequest 'p | LogError goerr | LogResponse 'p

definition klog_V :: "nat \<Rightarrow> nat \<Rightarrow> 'p log_line \<Rightarrow> 'p log_line list" where
  "klog_V verbosity level line = (if level \<le> verbosity then [line] else [])"

definition logGRPC ::
  "nat \<Rightarrow> ('req \<Rightarrow> 'p) \<Rightarrow> ('resp \<Rightarrow> 'p) \<Rightarrow> string \<Rightarrow> ('req \<Rightarrow> ('s, 'resp res) state) \<Rightarrow> 'req
    \<Rightarrow> ('s \<times> 'p log_line list, 'resp res) state" where
  "logGRPC verbosity stripReq stripResp fullMethod handler req = State (\<lambda>(s, log).
     let log1 = log @ klog_V verbosity 3 (LogCall fullMethod) @ klog_V verbosity 5 (LogRequest (stripReq req));
         (r, s') = run_state (handler req) s
     in (r, s', log1 @ (case r of
                          Inl err \<Rightarrow> [LogError err]
                        | Inr resp \<Rightarrow> klog_V verbosity 5 (LogResponse (stripResp resp)))))"

text \<open>
  Transparent logging: the interceptor answers what the handler answers and changes its state as
  the handler does; two calls whose requests and responses differ only in what \<open>StripSecrets\<close> removes
  write the same lines, at any verbosity; and an error is always written.
\<close>

lemma logGRPC_transparent:
  assumes "run_state (h req) s = (r, t)" and "run_state (h' req') s' = (r', t')"
    and "stripReq req' = stripReq req" and "map_sum id stripResp r' = map_sum id stripResp r"
  shows "\<exists>lines. run_state (logGRPC v stripReq stripResp m h req) (s, log) = (r, t, log @ lines)
    \<and> run_state (logGRPC v stripReq stripResp m h' req') (s', log') = (r', t', log' @ lines)
    \<and> (\<forall>err. r = Inl err \<longrightarrow> LogError err \<in> set lines)"
proof -
  let ?lines = "klog_V v 3 (LogCall m) @ klog_V v 5 (LogRequest (stripReq req))
    @ (case r of Inl err \<Rightarrow> [LogError err] | Inr resp \<Rightarrow> klog_V v 5 (LogResponse (stripResp resp)))"
  show ?thesis
    using assms by (intro exI [of _ ?lines]) (auto simp: logGRPC_def Let_def split: sum.splits)
qed

text \<open>A request with a secret, and the same call with another secret: the log is the same.\<close>

lemma logGRPC_transparent_example:
  "\<exists>lines. \<forall>secret \<in> {''a'', ''b''}. run_state (logGRPC 5 fst id ''/csi.v1.Node/NodePublishVolume''
      (\<lambda>_. State_Monad.return (Inr ''ok'')) (''v1'', secret)) ((), []) = (Inr ''ok'', (), lines)"
  using logGRPC_transparent [of "\<lambda>_. State_Monad.return (Inr ''ok'')" "(''v1'', ''a'')" "()" "Inr ''ok''" "()"
      "\<lambda>_. State_Monad.return (Inr ''ok'')" "(''v1'', ''b'')" "()" "Inr ''ok''" "()" fst id 5 "''/csi.v1.Node/NodePublishVolume''" "[]" "[]"]
  by auto

subsection \<open>The process\<close>

text \<open>The services that are registered, of the three that may be nil.\<close>

record services =
  sv_ids :: "identityServer option"
  sv_cs :: "controllerServer option"
  sv_ns :: "nodeServer option"

datatype service = IdentityService identityServer | ControllerService controllerServer | NodeService nodeServer

definition registered :: "services \<Rightarrow> service list" where
  "registered sv =
     (case sv_ids sv of Some x \<Rightarrow> [IdentityService x] | None \<Rightarrow> [])
     @ (case sv_cs sv of Some x \<Rightarrow> [ControllerService x] | None \<Rightarrow> [])
     @ (case sv_ns sv of Some x \<Rightarrow> [NodeService x] | None \<Rightarrow> [])"

text \<open>
  The goroutine that runs \<open>serve\<close>; the process with the wait group and the server of the struct (which
  is nil until \<open>serve\<close> sets it), and whether \<open>Stop\<close> or \<open>ForceStop\<close> was called on that server.
\<close>

datatype goroutine = NotStarted | Starting string services | Accepting string string "service list" | Exited goerr

record nonBlockingGRPCServer =
  gs_wg :: nat
  gs_server :: "service list option"
  gs_stopped :: bool
  gs_serve :: goroutine

definition newNonBlockingGRPCServer :: nonBlockingGRPCServer where
  "newNonBlockingGRPCServer = \<lparr>gs_wg = 0, gs_server = None, gs_stopped = False, gs_serve = NotStarted\<rparr>"

definition start_server :: "string \<Rightarrow> services \<Rightarrow> nonBlockingGRPCServer \<Rightarrow> nonBlockingGRPCServer" where
  "start_server endpoint sv s = s\<lparr>gs_wg := gs_wg s + 1, gs_serve := Starting endpoint sv\<rparr>"

text \<open>\<open>wait_returns\<close>: whether \<open>wait\<close> can return in this state.\<close>

definition wait_returns :: "nonBlockingGRPCServer \<Rightarrow> bool" where
  "wait_returns s \<longleftrightarrow> gs_wg s = 0"

text \<open>\<open>Stop\<close> and \<open>ForceStop\<close> are called on the server; a nil server panics.\<close>

definition Stop :: "nonBlockingGRPCServer \<Rightarrow> nonBlockingGRPCServer option" where
  "Stop s = (if gs_server s = None then None else Some (s\<lparr>gs_stopped := True\<rparr>))"

definition ForceStop :: "nonBlockingGRPCServer \<Rightarrow> nonBlockingGRPCServer option" where
  "ForceStop s = (if gs_server s = None then None else Some (s\<lparr>gs_stopped := True\<rparr>))"

text \<open>
  The steps after \<open>start\<close>.  \<open>server.Serve\<close> returns an error when accepting fails, and nil after a stop;
  either way the last line of \<open>serve\<close> is a fatal log message.  No step follows the end of the process.
\<close>

inductive process_step :: "nonBlockingGRPCServer \<Rightarrow> nonBlockingGRPCServer \<Rightarrow> bool" where
  refuse: "gs_serve s = Starting endpoint sv \<Longrightarrow> serve rm listen endpoint = Fatal e \<Longrightarrow>
     process_step s (s\<lparr>gs_serve := Exited e\<rparr>)"
| accept: "gs_serve s = Starting endpoint sv \<Longrightarrow> serve rm listen endpoint = Serving proto addr \<Longrightarrow>
     process_step s (s\<lparr>gs_serve := Accepting proto addr (registered sv), gs_server := Some (registered sv)\<rparr>)"
| fail: "gs_serve s = Accepting proto addr svs \<Longrightarrow>
     process_step s (s\<lparr>gs_serve := Exited (Errorf ''Unable to start server:%v'' [] (Some e))\<rparr>)"
| ended: "gs_serve s = Accepting proto addr svs \<Longrightarrow> gs_stopped s \<Longrightarrow>
     process_step s (s\<lparr>gs_serve := Exited (Errorf ''Unable to start server:%v'' [] None)\<rparr>)"
| stop: "\<nexists>e. gs_serve s = Exited e \<Longrightarrow> Stop s = Some t \<or> ForceStop s = Some t \<Longrightarrow> process_step s t"

inductive_cases process_stepE: "process_step s t"

definition process_reachable :: "string \<Rightarrow> services \<Rightarrow> nonBlockingGRPCServer \<Rightarrow> bool" where
  "process_reachable endpoint sv s \<longleftrightarrow> process_step\<^sup>*\<^sup>* (start_server endpoint sv newNonBlockingGRPCServer) s"

definition process_inv :: "string \<Rightarrow> services \<Rightarrow> nonBlockingGRPCServer \<Rightarrow> bool" where
  "process_inv endpoint sv s \<longleftrightarrow> gs_wg s = 1 \<and> (gs_stopped s \<longrightarrow> gs_server s \<noteq> None)
     \<and> gs_server s \<in> {None, Some (registered sv)}
     \<and> (case gs_serve s of
          NotStarted \<Rightarrow> False
        | Starting ep sv' \<Rightarrow> ep = endpoint \<and> sv' = sv \<and> gs_server s = None
        | Accepting p a svs \<Rightarrow> svs = registered sv \<and> gs_server s = Some svs
            \<and> (\<exists>raw. parseEndpoint endpoint = Inr (p, raw) \<and> a = (if p = ''unix'' then ''/'' @ raw else raw))
        | Exited e \<Rightarrow> True)"

lemma stop_simps: "Stop s = Some t \<or> ForceStop s = Some t \<longleftrightarrow> gs_server s \<noteq> None \<and> t = s\<lparr>gs_stopped := True\<rparr>"
  by (auto simp: Stop_def ForceStop_def)

lemma process_inv_step:
  assumes "process_inv endpoint sv s" and "process_step s t"
  shows "process_inv endpoint sv t"
  using assms(2)
proof cases
  case (refuse ep sv' rm listen e)
  then show ?thesis using assms(1) by (auto simp add: process_inv_def)
next
  case (accept ep sv' rm listen proto addr)
  from accept(3) obtain raw where "parseEndpoint ep = Inr (proto, raw)" "addr = (if proto = ''unix'' then ''/'' @ raw else raw)"
    unfolding serve_Serving by blast
  then show ?thesis using assms(1) accept(1,2) by (simp add: process_inv_def)
next
  case (fail proto addr svs e)
  then show ?thesis using assms(1) by (simp add: process_inv_def)
next
  case (ended proto addr svs)
  then show ?thesis using assms(1) by (simp add: process_inv_def)
next
  case stop
  then have "gs_server s \<noteq> None \<and> t = s\<lparr>gs_stopped := True\<rparr>" unfolding stop_simps by blast
  then show ?thesis using assms(1) by (auto simp: process_inv_def split: goroutine.splits)
qed

lemma process_inv_accepting:
  assumes "process_inv endpoint sv s" and "gs_serve s = Accepting p a svs"
  shows "svs = registered sv" and "gs_server s = Some svs"
    and "\<exists>raw. parseEndpoint endpoint = Inr (p, raw) \<and> a = (if p = ''unix'' then ''/'' @ raw else raw)"
  using assms unfolding process_inv_def by simp_all

lemma process_inv_reachable: "process_reachable endpoint sv s \<Longrightarrow> process_inv endpoint sv s"
  unfolding process_reachable_def
proof (induction rule: rtranclp_induct)
  case base
  show ?case by (simp add: process_inv_def start_server_def newNonBlockingGRPCServer_def)
qed (rule process_inv_step)

text \<open>
  The process never returns: in every reachable state \<open>wait\<close> blocks, so \<open>Run\<close> does not return to
  \<open>main\<close>; calls are accepted only on the address of the endpoint, with exactly the services that were
  passed; a stop before the server exists panics, and a process that accepts can always be stopped,
  which ends it through the fatal message of \<open>serve\<close>.
\<close>

lemma process_never_returns:
  assumes "process_reachable endpoint sv s"
  shows "\<not> wait_returns s
    \<and> (\<forall>p a svs. gs_serve s = Accepting p a svs \<longrightarrow> svs = registered sv
         \<and> (\<exists>raw. endpoint = p @ ''://'' @ raw \<and> a = (if p = ''unix'' then ''/'' @ raw else raw))
         \<and> (\<exists>t u. Stop s = Some t \<and> process_step\<^sup>*\<^sup>* t u \<and> gs_serve u = Exited (Errorf ''Unable to start server:%v'' [] None)))
    \<and> ((\<exists>ep sv'. gs_serve s = Starting ep sv') \<longrightarrow> Stop s = None \<and> ForceStop s = None)"
proof (intro conjI allI impI)
  note inv = process_inv_reachable [OF assms]
  then show "\<not> wait_returns s" by (simp add: process_inv_def wait_returns_def)
  fix p a svs
  assume acc: "gs_serve s = Accepting p a svs"
  note at = process_inv_accepting [OF inv acc]
  show "svs = registered sv" by (rule at)
  show "\<exists>raw. endpoint = p @ ''://'' @ raw \<and> a = (if p = ''unix'' then ''/'' @ raw else raw)"
    using at(3) by (elim exE conjE) (frule parseEndpoint_parts, intro exI conjI, erule conjunct1)
  let ?t = "s\<lparr>gs_stopped := True\<rparr>"
  have "Stop s = Some ?t" using at(2) by (simp add: Stop_def)
  moreover have "process_step ?t (?t\<lparr>gs_serve := Exited (Errorf ''Unable to start server:%v'' [] None)\<rparr>)"
    by (rule ended [of _ p a svs]) (simp_all add: acc)
  ultimately show "\<exists>t u. Stop s = Some t \<and> process_step\<^sup>*\<^sup>* t u \<and> gs_serve u = Exited (Errorf ''Unable to start server:%v'' [] None)"
    by (intro exI [of _ ?t] exI [of _ "?t\<lparr>gs_serve := Exited (Errorf ''Unable to start server:%v'' [] None)\<rparr>"])
      (simp add: r_into_rtranclp)
next
  assume "\<exists>ep sv'. gs_serve s = Starting ep sv'"
  then show "Stop s = None" "ForceStop s = None"
    using process_inv_reachable [OF assms] by (auto simp: process_inv_def Stop_def ForceStop_def)
qed

lemma process_never_returns_example:
  "\<exists>s t. process_reachable ''unix://tmp/csi.sock'' \<lparr>sv_ids = None, sv_cs = None, sv_ns = None\<rparr> s
     \<and> gs_serve s = Accepting ''unix'' ''/tmp/csi.sock'' [] \<and> \<not> wait_returns s \<and> Stop s = Some t"
proof -
  let ?sv = "\<lparr>sv_ids = None, sv_cs = None, sv_ns = None\<rparr>"
  let ?a = "start_server ''unix://tmp/csi.sock'' ?sv newNonBlockingGRPCServer"
  let ?b = "?a\<lparr>gs_serve := Accepting ''unix'' ''/tmp/csi.sock'' (registered ?sv), gs_server := Some (registered ?sv)\<rparr>"
  have "serve (\<lambda>_. None) (\<lambda>_ _. None) ''unix://tmp/csi.sock'' = Serving ''unix'' ''/tmp/csi.sock''"
    using parse_schemes(1) [of "''tmp/csi.sock''"] by (simp add: serve_Serving)
  then have "process_step ?a ?b"
    using accept [of ?a "''unix://tmp/csi.sock''" ?sv "\<lambda>_. None" "\<lambda>_ _. None" "''unix''" "''/tmp/csi.sock''"]
    by (simp add: start_server_def)
  then have r: "process_reachable ''unix://tmp/csi.sock'' ?sv ?b" by (auto simp: process_reachable_def)
  have "\<not> wait_returns ?b" using process_never_returns [OF r] by (rule conjunct1)
  then show ?thesis using r
    by (intro exI [of _ ?b] exI [of _ "?b\<lparr>gs_stopped := True\<rparr>"]) (simp add: registered_def Stop_def)
qed

subsection \<open>The main program\<close>

text \<open>
  \<open>main\<close> prints the version, or creates the driver and its servers and starts serving: an error of the
  driver ends the process with status 1, and a started driver is the process above, as \<open>Run\<close> passes
  all three services and then waits.
\<close>

datatype driver_outcome = PrintedVersion string string | ExitFailure goerr | Running nonBlockingGRPCServer

definition driver_main ::
  "'w host \<Rightarrow> check \<Rightarrow> check \<Rightarrow> check \<Rightarrow> string \<Rightarrow> string \<Rightarrow> string \<Rightarrow> bool \<Rightarrow> driver_flags \<Rightarrow> ('w, driver_outcome) op" where
  "driver_main H inClusterConfig newKubeClient newSnapClient vendorVersion argv0 version showVersion fl =
     (if showVersion then State_Monad.return (PrintedVersion (Base argv0) version)
      else do {
        r \<leftarrow> handle H inClusterConfig newKubeClient newSnapClient vendorVersion version fl;
        State_Monad.return
          (case r of
             Inl err \<Rightarrow> ExitFailure err
           | Inr (ids, ns, cs) \<Rightarrow>
               Running (start_server (fl_endpoint fl) \<lparr>sv_ids = Some ids, sv_cs = Some cs, sv_ns = Some ns\<rparr> newNonBlockingGRPCServer))
      })"

lemma driver_main_running:
  assumes "run_state (driver_main H a b c vendorVersion argv0 version showVersion fl) s = (Running g, t)"
  obtains ids ns cs where "run_state (handle H a b c vendorVersion version fl) s = (Inr (ids, ns, cs), t)"
    "g = start_server (fl_endpoint fl) \<lparr>sv_ids = Some ids, sv_cs = Some cs, sv_ns = Some ns\<rparr> newNonBlockingGRPCServer"
  using assms by (auto simp: driver_main_def split: if_splits prod.splits sum.splits)

text \<open>
  C34 (the driver serves): a driver that was started never returns from \<open>Run\<close>; whatever happens, it accepts
  calls only on the endpoint of its flags and then with all three services, whose controller has the
  validated configuration of the flags and the node identity of the node service.
\<close>

theorem driver_serves:
  assumes "run_state (driver_main H a b c vendorVersion argv0 version showVersion fl) s = (Running g, t)"
    and "process_step\<^sup>*\<^sup>* g u"
  shows "\<not> wait_returns u
    \<and> (\<forall>p addr svs. gs_serve u = Accepting p addr svs \<longrightarrow>
        (\<exists>raw. fl_endpoint fl = p @ ''://'' @ raw \<and> addr = (if p = ''unix'' then ''/'' @ raw else raw))
        \<and> (\<exists>ids cs ns. svs = [IdentityService ids, ControllerService cs, NodeService ns]
             \<and> srv_helperConfig cs = flag_config fl \<and> validate_config (srv_helperConfig cs) = None
             \<and> srv_nodeID cs = ns_nodeID ns \<and> ns_nodeID ns = fl_nodeID fl))"
proof -
  obtain ids ns cs where h: "run_state (handle H a b c vendorVersion version fl) s = (Inr (ids, ns, cs), t)"
    and g: "g = start_server (fl_endpoint fl) \<lparr>sv_ids = Some ids, sv_cs = Some cs, sv_ns = Some ns\<rparr> newNonBlockingGRPCServer"
    by (rule driver_main_running [OF assms(1)])
  have inv: "process_inv (fl_endpoint fl) \<lparr>sv_ids = Some ids, sv_cs = Some cs, sv_ns = Some ns\<rparr> u"
    using assms(2) process_inv_reachable by (simp add: process_reachable_def g)
  have conf: "srv_helperConfig cs = flag_config fl" "validate_config (srv_helperConfig cs) = None"
      "srv_nodeID cs = ns_nodeID ns" "ns_nodeID ns = fl_nodeID fl"
    using handle_configuration [OF h] by (elim conjE, simp)+
  have "\<not> wait_returns u" using inv by (simp add: process_inv_def wait_returns_def)
  moreover have "\<exists>raw. fl_endpoint fl = p @ ''://'' @ raw \<and> addr = (if p = ''unix'' then ''/'' @ raw else raw)"
    and "svs = [IdentityService ids, ControllerService cs, NodeService ns]"
    if "gs_serve u = Accepting p addr svs" for p addr svs
  proof -
    note at = process_inv_accepting [OF inv that]
    show "svs = [IdentityService ids, ControllerService cs, NodeService ns]" using at(1) by (simp add: registered_def)
    show "\<exists>raw. fl_endpoint fl = p @ ''://'' @ raw \<and> addr = (if p = ''unix'' then ''/'' @ raw else raw)"
      using at(3) by (elim exE conjE) (frule parseEndpoint_parts, intro exI conjI, erule conjunct1)
  qed
  ultimately show ?thesis using conf by blast
qed

theorem driver_serves_witness:
  "\<exists>g t. run_state (driver_main (quiet_host (\<lambda>_ _ _ w. ((''ok'', None), w))) None None None ''dev'' ''lvmplugin'' ''v1'' False
        (default_flags\<lparr>fl_nodeID := ''node1''\<rparr>)) (start ()) = (Running g, t) \<and> \<not> wait_returns g"
proof -
  let ?fl = "default_flags\<lparr>fl_nodeID := ''node1''\<rparr>"
  let ?H = "quiet_host (\<lambda>_ _ _ w. ((''ok'', None), w)) :: unit host"
  obtain ids ns cs t where h: "run_state (handle ?H None None None ''dev'' ''v1'' ?fl) (start ()) = (Inr (ids, ns, cs), t)"
    using quiet_handle by blast
  then obtain g where g: "run_state (driver_main ?H None None None ''dev'' ''lvmplugin'' ''v1'' False ?fl) (start ()) = (Running g, t)"
    by (auto simp: driver_main_def)
  show ?thesis using driver_serves [OF g rtranclp.rtrancl_refl] g by blast
qed

end
