(* ===== verification/Device_Copy.thy ===== *)
theory Device_Copy
  imports Go_Text "HOL-Library.Word"
begin

section \<open>The copy of a device (\<open>io.Copy\<close> of \<open>go-common\<close>)\<close>

text \<open>
  \<open>Copy\<close> divides the source into ranges.  For every range a producer goroutine reads chunks and sends those
  that are not all zero to a queue, and a worker goroutine writes what it takes from the queue.
  A third kind of goroutine closes the channels when all is written, and the caller waits for that or
  for the first error.  The goroutines, their channels and wait groups are a transition system,
  whose initial state is the one after the goroutines were started: what one of them did earlier is
  an interleaving in which it goes first.  Devices are lists of bytes; a read or write can fail at any time, and a
  failing write may have written a part of its chunk.
\<close>

subsection \<open>Ranges\<close>

type_synonym byte = "8 word"

definition baseAlignSize :: nat where "baseAlignSize = 4096"
definition maxChunkSize :: nat where "maxChunkSize = 4194304"
definition maxProducerNum :: nat where "maxProducerNum = 8"
definition DefaultChunkSize :: nat where "DefaultChunkSize = 4 * 1024 * 1024"

lemmas copy_constants = baseAlignSize_def maxChunkSize_def maxProducerNum_def DefaultChunkSize_def

definition producerNum :: "nat \<Rightarrow> nat \<Rightarrow> nat" where
  "producerNum srcSize chunkSize =
     (let numChunks = srcSize div chunkSize + (if srcSize mod chunkSize \<noteq> 0 then 1 else 0)
      in min maxProducerNum numChunks)"

definition copy_range :: "nat \<Rightarrow> nat \<Rightarrow> nat \<Rightarrow> nat \<times> nat" where
  "copy_range srcSize n i =
     (let respSize = srcSize div n + (if i = n - 1 then srcSize mod n else 0)
      in (i * respSize, i * respSize + respSize))"

definition copy_ranges :: "nat \<Rightarrow> nat \<Rightarrow> (nat \<times> nat) list" where
  "copy_ranges srcSize n = map (copy_range srcSize n) [0..<n]"

text \<open>The checks of \<open>Copy\<close>, and the ranges of its producers.\<close>

definition copy_plan :: "nat res \<Rightarrow> nat \<Rightarrow> (nat \<times> nat) list res" where
  "copy_plan sourceVolSize chunkSize =
     (case sourceVolSize of
        Inl e \<Rightarrow> Inl (msg ''error getting file size'')
      | Inr srcSize \<Rightarrow>
          if chunkSize > maxChunkSize then
            Inl (Errorf ''chunk size is too large, max chunk size is %d'' [show_nat maxChunkSize] None)
          else if chunkSize mod baseAlignSize \<noteq> 0 then
            Inl (Errorf ''chunk size must be a multiple of %d'' [show_nat baseAlignSize] None)
          else Inr (copy_ranges srcSize (producerNum srcSize chunkSize)))"

subsection \<open>Goroutines\<close>

record Content =
  ct_offset :: nat
  ct_buf :: "byte list"

text \<open>
  Where a goroutine is: a producer at the head of its loop, before a read, before a send to the queue
  (with where it goes on), before a send of an error, at its end; a worker in its \<open>select\<close>, in a
  write, before a send of an error, at its end; the goroutine that closes the channels; and the
  caller.
\<close>

datatype producer = PLoop nat nat | PReading nat nat | PSending Content nat nat | PFailing goerr | PDone
datatype ioWorker = WSelect | WWriting Content | WFailing goerr | WDone
datatype closer = CProducers | CWrites | CCheck | CCloseQ | CCloseCompleted | CDone
datatype caller = MSelect | MRecord goerr | MCloseCompleted | MWorkers | MProducers | MReturned

record copy_state =
  cp_src :: "byte list"
  cp_dst :: "byte list"
  cp_ioQ :: "Content list"
  cp_ioQ_closed :: bool
  cp_completed :: bool
  cp_errChan :: "goerr list"
  cp_ioWG :: nat
  cp_producerWG :: nat
  cp_workerWG :: nat
  cp_ioError :: check
  cp_producers :: "producer list"
  cp_workers :: "ioWorker list"
  cp_closer :: closer
  cp_main :: caller

definition copy_init :: "byte list \<Rightarrow> byte list \<Rightarrow> nat \<Rightarrow> copy_state" where
  "copy_init src dst chunkSize =
     (let n = producerNum (length src) chunkSize in
      \<lparr>cp_src = src, cp_dst = dst, cp_ioQ = [], cp_ioQ_closed = False, cp_completed = False, cp_errChan = [],
       cp_ioWG = 0, cp_producerWG = n, cp_workerWG = n, cp_ioError = None,
       cp_producers = map (\<lambda>(start, boundary). PLoop start boundary) (copy_ranges (length src) n),
       cp_workers = replicate n WSelect, cp_closer = CProducers, cp_main = MSelect\<rparr>)"

text \<open>Both buffered channels hold twice as many elements as there are producers.\<close>

definition channel_size :: "copy_state \<Rightarrow> nat" where
  "channel_size s = length (cp_producers s) * 2"

text \<open>
  A successful read, which is short only at the end of the source and then leaves zeros in the
  buffer; the test for an empty buffer; a successful write.
\<close>

definition PReadExact :: "byte list \<Rightarrow> nat \<Rightarrow> nat \<Rightarrow> byte list" where
  "PReadExact src count offset =
     (let got = take count (drop offset src) in got @ replicate (count - length got) 0)"

definition emptyBuf :: "byte list \<Rightarrow> bool" where
  "emptyBuf buf \<longleftrightarrow> list_all (\<lambda>b. b = 0) buf"

definition PWrite :: "byte list \<Rightarrow> byte list \<Rightarrow> nat \<Rightarrow> byte list" where
  "PWrite dst buf offset = take offset dst @ buf @ drop (offset + length buf) dst"

abbreviation goto_p :: "nat \<Rightarrow> producer \<Rightarrow> copy_state \<Rightarrow> copy_state" where
  "goto_p i p s \<equiv> s\<lparr>cp_producers := (cp_producers s)[i := p]\<rparr>"

abbreviation goto_w :: "nat \<Rightarrow> ioWorker \<Rightarrow> copy_state \<Rightarrow> copy_state" where
  "goto_w i w s \<equiv> s\<lparr>cp_workers := (cp_workers s)[i := w]\<rparr>"

definition is_at :: "'a list \<Rightarrow> nat \<Rightarrow> 'a \<Rightarrow> bool" where
  "is_at xs i x \<longleftrightarrow> i < length xs \<and> xs ! i = x"

abbreviation at_p :: "copy_state \<Rightarrow> nat \<Rightarrow> producer \<Rightarrow> bool" where
  "at_p s \<equiv> is_at (cp_producers s)"

abbreviation at_w :: "copy_state \<Rightarrow> nat \<Rightarrow> ioWorker \<Rightarrow> bool" where
  "at_w s \<equiv> is_at (cp_workers s)"

text \<open>
  The steps.  With an injected fault (\<open>HARV_FAULT\<close>) every read and every write ends in an error.
  A receive takes any of the channels that are ready; \<open>Wait\<close> returns when its counter is zero.
\<close>

inductive copy_step :: "nat \<Rightarrow> bool \<Rightarrow> copy_state \<Rightarrow> copy_state \<Rightarrow> bool" for chunkSize :: nat and faultInject :: bool where
  p_exit: "at_p s i (PLoop off bnd) \<Longrightarrow> cp_completed s \<or> bnd \<le> off \<Longrightarrow>
     copy_step chunkSize faultInject s (goto_p i PDone (s\<lparr>cp_producerWG := cp_producerWG s - 1\<rparr>))"
| p_next: "at_p s i (PLoop off bnd) \<Longrightarrow> \<not> cp_completed s \<Longrightarrow> off < bnd \<Longrightarrow>
     copy_step chunkSize faultInject s (goto_p i (PReading off bnd) s)"
| p_empty: "at_p s i (PReading off bnd) \<Longrightarrow> \<not> faultInject \<Longrightarrow> e = min (off + chunkSize) bnd \<Longrightarrow>
     emptyBuf (PReadExact (cp_src s) (e - off) off) \<Longrightarrow>
     copy_step chunkSize faultInject s (goto_p i (PLoop e bnd) s)"
| p_content: "at_p s i (PReading off bnd) \<Longrightarrow> \<not> faultInject \<Longrightarrow> e = min (off + chunkSize) bnd \<Longrightarrow>
     buf = PReadExact (cp_src s) (e - off) off \<Longrightarrow> \<not> emptyBuf buf \<Longrightarrow>
     copy_step chunkSize faultInject s
       (goto_p i (PSending \<lparr>ct_offset = off, ct_buf = buf\<rparr> e bnd) (s\<lparr>cp_ioWG := cp_ioWG s + 1\<rparr>))"
| p_error: "at_p s i (PReading off bnd) \<Longrightarrow> copy_step chunkSize faultInject s (goto_p i (PFailing err) s)"
| p_send: "at_p s i (PSending ct e bnd) \<Longrightarrow> \<not> cp_ioQ_closed s \<Longrightarrow> length (cp_ioQ s) < channel_size s \<Longrightarrow>
     copy_step chunkSize faultInject s (goto_p i (PLoop e bnd) (s\<lparr>cp_ioQ := cp_ioQ s @ [ct]\<rparr>))"
| p_report: "at_p s i (PFailing err) \<Longrightarrow> length (cp_errChan s) < channel_size s \<Longrightarrow>
     copy_step chunkSize faultInject s
       (goto_p i PDone (s\<lparr>cp_errChan := cp_errChan s @ [err], cp_producerWG := cp_producerWG s - 1\<rparr>))"
| w_exit: "at_w s i WSelect \<Longrightarrow> cp_completed s \<or> cp_ioQ s = [] \<and> cp_ioQ_closed s \<Longrightarrow>
     copy_step chunkSize faultInject s (goto_w i WDone (s\<lparr>cp_workerWG := cp_workerWG s - 1\<rparr>))"
| w_take: "at_w s i WSelect \<Longrightarrow> cp_ioQ s = ct # q \<Longrightarrow>
     copy_step chunkSize faultInject s (goto_w i (WWriting ct) (s\<lparr>cp_ioQ := q\<rparr>))"
| w_write: "at_w s i (WWriting ct) \<Longrightarrow> \<not> faultInject \<Longrightarrow> ct_offset ct + length (ct_buf ct) \<le> length (cp_dst s) \<Longrightarrow>
     copy_step chunkSize faultInject s
       (goto_w i WSelect (s\<lparr>cp_dst := PWrite (cp_dst s) (ct_buf ct) (ct_offset ct), cp_ioWG := cp_ioWG s - 1\<rparr>))"
| w_error: "at_w s i (WWriting ct) \<Longrightarrow> k = 0 \<or> ct_offset ct + k \<le> length (cp_dst s) \<Longrightarrow>
     copy_step chunkSize faultInject s
       (goto_w i (WFailing err) (s\<lparr>cp_dst := PWrite (cp_dst s) (take k (ct_buf ct)) (ct_offset ct), cp_ioWG := cp_ioWG s - 1\<rparr>))"
| w_report: "at_w s i (WFailing err) \<Longrightarrow> length (cp_errChan s) < channel_size s \<Longrightarrow>
     copy_step chunkSize faultInject s
       (goto_w i WDone (s\<lparr>cp_errChan := cp_errChan s @ [err], cp_workerWG := cp_workerWG s - 1\<rparr>))"
| c_producers: "cp_closer s = CProducers \<Longrightarrow> cp_producerWG s = 0 \<Longrightarrow>
     copy_step chunkSize faultInject s (s\<lparr>cp_closer := CWrites\<rparr>)"
| c_writes: "cp_closer s = CWrites \<Longrightarrow> cp_ioWG s = 0 \<Longrightarrow>
     copy_step chunkSize faultInject s (s\<lparr>cp_closer := CCheck\<rparr>)"
| c_check: "cp_closer s = CCheck \<Longrightarrow>
     copy_step chunkSize faultInject s (s\<lparr>cp_closer := if cp_ioError s = None then CCloseQ else CDone\<rparr>)"
| c_closeQ: "cp_closer s = CCloseQ \<Longrightarrow> \<not> cp_ioQ_closed s \<Longrightarrow>
     copy_step chunkSize faultInject s (s\<lparr>cp_closer := CCloseCompleted, cp_ioQ_closed := True\<rparr>)"
| c_closeCompleted: "cp_closer s = CCloseCompleted \<Longrightarrow> \<not> cp_completed s \<Longrightarrow>
     copy_step chunkSize faultInject s (s\<lparr>cp_closer := CDone, cp_completed := True\<rparr>)"
| m_completed: "cp_main s = MSelect \<Longrightarrow> cp_completed s \<Longrightarrow> copy_step chunkSize faultInject s (s\<lparr>cp_main := MWorkers\<rparr>)"
| m_error: "cp_main s = MSelect \<Longrightarrow> cp_errChan s = err # es \<Longrightarrow>
     copy_step chunkSize faultInject s (s\<lparr>cp_main := MRecord err, cp_errChan := es\<rparr>)"
| m_record: "cp_main s = MRecord err \<Longrightarrow>
     copy_step chunkSize faultInject s (s\<lparr>cp_main := MCloseCompleted, cp_ioError := Some err\<rparr>)"
| m_close: "cp_main s = MCloseCompleted \<Longrightarrow> \<not> cp_completed s \<Longrightarrow>
     copy_step chunkSize faultInject s (s\<lparr>cp_main := MWorkers, cp_completed := True\<rparr>)"
| m_workers: "cp_main s = MWorkers \<Longrightarrow> cp_workerWG s = 0 \<Longrightarrow>
     copy_step chunkSize faultInject s (s\<lparr>cp_main := if cp_ioError s = None then MReturned else MProducers\<rparr>)"
| m_flush: "cp_main s = MProducers \<Longrightarrow> cp_ioQ s = ct # q \<Longrightarrow> copy_step chunkSize faultInject s (s\<lparr>cp_ioQ := q\<rparr>)"
| m_producers: "cp_main s = MProducers \<Longrightarrow> cp_producerWG s = 0 \<Longrightarrow> \<not> cp_ioQ_closed s \<Longrightarrow>
     copy_step chunkSize faultInject s (s\<lparr>cp_main := MReturned, cp_ioQ_closed := True\<rparr>)"

text \<open>
  A channel that is closed must not be closed again nor be sent to: the goroutine that does so panics,
  and the process ends.  (The channel of errors is closed when the caller returns.)
\<close>

definition copy_panics :: "copy_state \<Rightarrow> bool" where
  "copy_panics s \<longleftrightarrow> (\<exists>i ct e bnd. at_p s i (PSending ct e bnd)) \<and> cp_ioQ_closed s
     \<or> cp_closer s = CCloseQ \<and> cp_ioQ_closed s \<or> cp_closer s = CCloseCompleted \<and> cp_completed s
     \<or> cp_main s = MCloseCompleted \<and> cp_completed s
     \<or> cp_main s = MProducers \<and> cp_producerWG s = 0 \<and> cp_ioQ_closed s
     \<or> cp_main s = MReturned \<and> (\<exists>i err. at_p s i (PFailing err) \<or> at_w s i (WFailing err))"

subsection \<open>Counting goroutines\<close>

definition weigh :: "('a \<Rightarrow> nat) \<Rightarrow> 'a list \<Rightarrow> nat" where
  "weigh f xs = sum_list (map f xs)"

lemma weigh_update: "i < length xs \<Longrightarrow> weigh f (xs[i := x]) + f (xs ! i) = weigh f xs + f x"
  by (induction xs arbitrary: i) (auto simp: weigh_def split: nat.split)

lemma weigh_zero: "weigh f xs = 0 \<longleftrightarrow> (\<forall>x \<in> set xs. f x = 0)"
  by (auto simp: weigh_def)

lemma weigh_member: "x \<in> set xs \<Longrightarrow> f x \<le> weigh f xs"
  by (simp add: weigh_def member_le_sum_list)

lemma weigh_bound: "(\<And>x. x \<in> set xs \<Longrightarrow> f x \<le> 1) \<Longrightarrow> weigh f xs \<le> length xs"
  by (induction xs) (fastforce simp: weigh_def)+

lemma is_at_update: "is_at (xs[i := x]) j y \<longleftrightarrow> (if j = i \<and> i < length xs then x = y else is_at xs j y)"
  by (auto simp: is_at_def nth_list_update)

lemma is_at_member: "is_at xs i x \<Longrightarrow> x \<in> set xs" "x \<in> set xs \<Longrightarrow> \<exists>i. is_at xs i x"
  by (auto simp: is_at_def in_set_conv_nth)

lemma is_at_weigh: "is_at xs i x \<Longrightarrow> weigh f (xs[i := y]) + f x = weigh f xs + f y"
  by (auto simp: is_at_def weigh_update)

fun p_live :: "producer \<Rightarrow> nat" where "p_live PDone = 0" | "p_live p = 1"
fun p_done :: "producer \<Rightarrow> nat" where "p_done PDone = 1" | "p_done p = 0"
fun p_sending :: "producer \<Rightarrow> nat" where "p_sending (PSending ct e bnd) = 1" | "p_sending p = 0"
fun w_live :: "ioWorker \<Rightarrow> nat" where "w_live WDone = 0" | "w_live w = 1"
fun w_done :: "ioWorker \<Rightarrow> nat" where "w_done WDone = 1" | "w_done w = 0"
fun w_writing :: "ioWorker \<Rightarrow> nat" where "w_writing (WWriting ct) = 1" | "w_writing w = 0"

text \<open>
  The counters of the wait groups are the numbers of their goroutines, and of the chunks on the way;
  what is flushed from the queue is never counted down.  There is room for every error.
\<close>

definition copy_counts :: "copy_state \<Rightarrow> bool" where
  "copy_counts s \<longleftrightarrow> length (cp_workers s) = length (cp_producers s)
     \<and> cp_producerWG s = weigh p_live (cp_producers s) \<and> cp_workerWG s = weigh w_live (cp_workers s)
     \<and> (let pending = length (cp_ioQ s) + weigh p_sending (cp_producers s) + weigh w_writing (cp_workers s) in
          pending \<le> cp_ioWG s \<and> (cp_main s = MSelect \<longrightarrow> cp_ioWG s = pending))
     \<and> length (cp_ioQ s) \<le> length (cp_producers s) * 2
     \<and> length (cp_errChan s) \<le> weigh p_done (cp_producers s) + weigh w_done (cp_workers s)"

lemma weigh_const: "(\<And>x. x \<in> set xs \<Longrightarrow> f x = k) \<Longrightarrow> weigh f xs = k * length xs"
  by (induction xs) (auto simp: weigh_def)

lemma init_goroutines:
  "p \<in> set (cp_producers (copy_init src dst chunkSize)) \<Longrightarrow>
     \<exists>a b. p = PLoop a b \<and> (a, b) \<in> set (copy_ranges (length src) (producerNum (length src) chunkSize))"
  "w \<in> set (cp_workers (copy_init src dst chunkSize)) \<Longrightarrow> w = WSelect"
  "length (cp_producers (copy_init src dst chunkSize)) = producerNum (length src) chunkSize"
  "length (cp_workers (copy_init src dst chunkSize)) = producerNum (length src) chunkSize"
proof -
  have "\<exists>a b. p = PLoop a b \<and> (a, b) \<in> set xs" if "p \<in> set (map (\<lambda>(a, b). PLoop a b) xs)" for xs p
    using that by auto
  then show "p \<in> set (cp_producers (copy_init src dst chunkSize)) \<Longrightarrow>
      \<exists>a b. p = PLoop a b \<and> (a, b) \<in> set (copy_ranges (length src) (producerNum (length src) chunkSize))"
    by (simp add: copy_init_def Let_def)
qed (simp_all add: copy_init_def Let_def copy_ranges_def)

lemma copy_counts_init: "copy_counts (copy_init src dst chunkSize)"
proof -
  let ?s = "copy_init src dst chunkSize"
  have "weigh p_live (cp_producers ?s) = 1 * length (cp_producers ?s)" "weigh p_sending (cp_producers ?s) = 0 * length (cp_producers ?s)"
    by (rule weigh_const; auto dest: init_goroutines(1))+
  moreover have "weigh w_live (cp_workers ?s) = 1 * length (cp_workers ?s)" "weigh w_writing (cp_workers ?s) = 0 * length (cp_workers ?s)"
    by (rule weigh_const; auto dest: init_goroutines(2))+
  ultimately show ?thesis unfolding copy_counts_def init_goroutines Let_def
    by (simp add: init_goroutines) (simp add: copy_init_def Let_def)
qed

lemma p_moves:
  assumes "at_p s i p"
  shows "weigh p_live ((cp_producers s)[i := q]) + p_live p = weigh p_live (cp_producers s) + p_live q
    \<and> weigh p_done ((cp_producers s)[i := q]) + p_done p = weigh p_done (cp_producers s) + p_done q
    \<and> weigh p_sending ((cp_producers s)[i := q]) + p_sending p = weigh p_sending (cp_producers s) + p_sending q"
  using is_at_weigh [OF assms] by blast

lemma w_moves:
  assumes "at_w s i w"
  shows "weigh w_live ((cp_workers s)[i := v]) + w_live w = weigh w_live (cp_workers s) + w_live v
    \<and> weigh w_done ((cp_workers s)[i := v]) + w_done w = weigh w_done (cp_workers s) + w_done v
    \<and> weigh w_writing ((cp_workers s)[i := v]) + w_writing w = weigh w_writing (cp_workers s) + w_writing v"
  using is_at_weigh [OF assms] by blast

lemma copy_counts_step:
  assumes "copy_step chunkSize faultInject s t" and "copy_counts s"
  shows "copy_counts t"
  using assms
proof (induction rule: copy_step.induct)
  case (p_exit s i off bnd)
  then show ?case using p_moves [OF p_exit(1), of PDone] by (auto simp: copy_counts_def Let_def channel_size_def)
next
  case (p_next s i off bnd)
  then show ?case using p_moves [OF p_next(1), of "PReading off bnd"] by (auto simp: copy_counts_def Let_def channel_size_def)
next
  case (p_empty s i off bnd e)
  then show ?case using p_moves [OF p_empty(1), of "PLoop e bnd"] by (auto simp: copy_counts_def Let_def channel_size_def)
next
  case (p_content s i off bnd e buf)
  then show ?case using p_moves [OF p_content(1), of "PSending \<lparr>ct_offset = off, ct_buf = buf\<rparr> e bnd"]
    by (auto simp: copy_counts_def Let_def channel_size_def)
next
  case (p_error s i off bnd err)
  then show ?case using p_moves [OF p_error(1), of "PFailing err"] by (auto simp: copy_counts_def Let_def channel_size_def)
next
  case (p_send s i ct e bnd)
  then show ?case using p_moves [OF p_send(1), of "PLoop e bnd"] by (auto simp: copy_counts_def Let_def channel_size_def)
next
  case (p_report s i err)
  then show ?case using p_moves [OF p_report(1), of PDone] by (auto simp: copy_counts_def Let_def channel_size_def)
next
  case (w_exit s i)
  then show ?case using w_moves [OF w_exit(1), of WDone] by (auto simp: copy_counts_def Let_def channel_size_def)
next
  case (w_take s i ct q)
  then show ?case using w_moves [OF w_take(1), of "WWriting ct"] by (auto simp: copy_counts_def Let_def channel_size_def)
next
  case (w_write s i ct)
  then show ?case using w_moves [OF w_write(1), of WSelect] by (auto simp: copy_counts_def Let_def channel_size_def)
next
  case (w_error s i ct k err)
  then show ?case using w_moves [OF w_error(1), of "WFailing err"] by (auto simp: copy_counts_def Let_def channel_size_def)
next
  case (w_report s i err)
  then show ?case using w_moves [OF w_report(1), of WDone] by (auto simp: copy_counts_def Let_def channel_size_def)
qed (auto simp: copy_counts_def Let_def channel_size_def)

text \<open>
  Where the goroutines can be at the same time: the channels are closed by the third goroutine after
  everything ended, or by the caller after an error; a worker that ended while the caller
  waits has left its error in the channel or has seen the end of the queue.
\<close>

definition copy_closing :: "copy_state \<Rightarrow> bool" where
  "copy_closing s \<longleftrightarrow>
     (cp_closer s \<noteq> CProducers \<longrightarrow> set (cp_producers s) \<subseteq> {PDone})
   \<and> (cp_closer s \<notin> {CProducers, CWrites} \<longrightarrow> cp_ioQ s = [] \<and> (\<forall>ct. WWriting ct \<notin> set (cp_workers s)))"

definition copy_flags :: "copy_state \<Rightarrow> bool" where
  "copy_flags s \<longleftrightarrow>
     (cp_closer s = CDone \<longrightarrow> cp_completed s \<or> cp_ioError s \<noteq> None)
   \<and> (cp_completed s \<longrightarrow> cp_closer s = CDone \<or> cp_ioError s \<noteq> None)
   \<and> (cp_ioQ_closed s \<longrightarrow> cp_closer s \<in> {CCloseCompleted, CDone} \<or> cp_main s = MReturned)
   \<and> (cp_main s \<in> {MWorkers, MProducers, MReturned} \<longrightarrow> cp_completed s)
   \<and> (cp_main s = MSelect \<or> (\<exists>e. cp_main s = MRecord e) \<longrightarrow> cp_ioError s = None)
   \<and> (cp_main s \<in> {MCloseCompleted, MProducers} \<longrightarrow> cp_ioError s \<noteq> None)"

definition copy_ended :: "copy_state \<Rightarrow> bool" where
  "copy_ended s \<longleftrightarrow>
     (cp_main s = MSelect \<and> \<not> cp_completed s \<and> WDone \<in> set (cp_workers s) \<longrightarrow> cp_errChan s \<noteq> [] \<or> cp_ioQ_closed s)
   \<and> (cp_main s \<in> {MProducers, MReturned} \<longrightarrow> set (cp_workers s) \<subseteq> {WDone})"

lemma copy_control_init:
  "copy_closing (copy_init src dst chunkSize)" "copy_flags (copy_init src dst chunkSize)" "copy_ended (copy_init src dst chunkSize)"
  by (auto simp: copy_closing_def copy_flags_def copy_ended_def copy_init_def Let_def)

lemma all_done:
  assumes "copy_counts s"
  shows "cp_producerWG s = 0 \<longleftrightarrow> set (cp_producers s) \<subseteq> {PDone}" and "cp_workerWG s = 0 \<longleftrightarrow> set (cp_workers s) \<subseteq> {WDone}"
    and "cp_ioWG s = 0 \<Longrightarrow> cp_ioQ s = [] \<and> (\<forall>ct. WWriting ct \<notin> set (cp_workers s))"
proof -
  have "p_live p = 0 \<longleftrightarrow> p = PDone" for p by (cases p) auto
  then show "cp_producerWG s = 0 \<longleftrightarrow> set (cp_producers s) \<subseteq> {PDone}"
    using assms by (auto simp: copy_counts_def weigh_zero Let_def)
  have "w_live p = 0 \<longleftrightarrow> p = WDone" for p by (cases p) auto
  then show "cp_workerWG s = 0 \<longleftrightarrow> set (cp_workers s) \<subseteq> {WDone}"
    using assms by (auto simp: copy_counts_def weigh_zero Let_def)
  show "cp_ioQ s = [] \<and> (\<forall>ct. WWriting ct \<notin> set (cp_workers s))" if "cp_ioWG s = 0"
    using assms that by (auto simp: copy_counts_def weigh_zero Let_def)
qed

lemma at_p_contra: "at_p s i p \<Longrightarrow> set (cp_producers s) \<subseteq> {PDone} \<Longrightarrow> p = PDone"
  by (auto dest: is_at_member)

lemma at_w_contra: "at_w s i p \<Longrightarrow> set (cp_workers s) \<subseteq> {WDone} \<Longrightarrow> p = WDone"
  by (auto dest: is_at_member)

lemma update_set: "set xs \<subseteq> A \<Longrightarrow> x \<in> A \<Longrightarrow> set (xs[i := x]) \<subseteq> A"
  using set_update_subset_insert by fastforce

lemma update_mem: "y \<in> set (xs[i := x]) \<Longrightarrow> y = x \<or> y \<in> set xs"
  using set_update_subset_insert by fastforce

lemma copy_flags_step:
  assumes "copy_step chunkSize faultInject s t" and "copy_flags s"
  shows "copy_flags t"
  using assms by (induction rule: copy_step.induct) (auto simp: copy_flags_def)

lemma copy_closing_step:
  assumes "copy_step chunkSize faultInject s t" and "copy_counts s" and "copy_closing s"
  shows "copy_closing t"
  using assms
proof (induction rule: copy_step.induct)
  case (c_producers s)
  then show ?case using all_done(1) [of s] by (simp add: copy_closing_def)
next
  case (c_writes s)
  then show ?case using all_done(3) [of s] by (simp add: copy_closing_def)
qed (auto simp: copy_closing_def dest: at_p_contra is_at_member(1) update_mem)

lemma copy_ended_step:
  assumes "copy_step chunkSize faultInject s t" and "copy_counts s" and "copy_ended s"
  shows "copy_ended t"
  using assms
proof (induction rule: copy_step.induct)
  case (m_workers s)
  then show ?case using all_done(2) [of s] by (simp add: copy_ended_def)
qed (auto simp: copy_ended_def dest: at_w_contra update_mem)

subsection \<open>The copy ends\<close>

text \<open>
  The rank of a state: a producer pays for the bytes that are left of its range, a chunk in the queue
  for its write.
\<close>

fun p_rank :: "producer \<Rightarrow> nat" where
  "p_rank (PLoop off bnd) = 8 * (bnd - off) + 3"
| "p_rank (PReading off bnd) = 8 * (bnd - off) + 2"
| "p_rank (PSending ct e bnd) = 8 * (bnd - e) + 7"
| "p_rank (PFailing err) = 2"
| "p_rank PDone = 0"

fun w_rank :: "ioWorker \<Rightarrow> nat" where
  "w_rank WSelect = 2" | "w_rank (WWriting ct) = 4" | "w_rank (WFailing err) = 3" | "w_rank WDone = 0"

fun c_rank :: "closer \<Rightarrow> nat" where
  "c_rank CProducers = 5" | "c_rank CWrites = 4" | "c_rank CCheck = 3" | "c_rank CCloseQ = 2" | "c_rank CCloseCompleted = 1"
| "c_rank CDone = 0"

fun m_rank :: "caller \<Rightarrow> nat" where
  "m_rank MSelect = 5" | "m_rank (MRecord err) = 4" | "m_rank MCloseCompleted = 3" | "m_rank MWorkers = 2" | "m_rank MProducers = 1"
| "m_rank MReturned = 0"

definition copy_rank :: "copy_state \<Rightarrow> nat" where
  "copy_rank s = weigh p_rank (cp_producers s) + weigh w_rank (cp_workers s) + 3 * length (cp_ioQ s) + length (cp_errChan s)
     + c_rank (cp_closer s) + m_rank (cp_main s)"

text \<open>A producer that reads has something to read.\<close>

definition copy_reads :: "copy_state \<Rightarrow> bool" where
  "copy_reads s \<longleftrightarrow> (\<forall>off bnd. PReading off bnd \<in> set (cp_producers s) \<longrightarrow> off < bnd)"

definition copy_inv :: "copy_state \<Rightarrow> bool" where
  "copy_inv s \<longleftrightarrow> copy_counts s \<and> copy_closing s \<and> copy_flags s \<and> copy_ended s \<and> copy_reads s"

lemma copy_reads_step: "copy_step chunkSize faultInject s t \<Longrightarrow> copy_reads s \<Longrightarrow> copy_reads t"
  by (induction rule: copy_step.induct) (auto simp: copy_reads_def dest: update_mem)

lemma copy_inv_init: "copy_inv (copy_init src dst chunkSize)"
  using init_goroutines(1) by (fastforce simp: copy_inv_def copy_counts_init copy_control_init copy_reads_def)

lemma copy_inv_step: "copy_step chunkSize faultInject s t \<Longrightarrow> copy_inv s \<Longrightarrow> copy_inv t"
  unfolding copy_inv_def by (blast intro: copy_counts_step copy_closing_step copy_flags_step copy_ended_step copy_reads_step)

lemma p_rank_moves: "at_p s i p \<Longrightarrow> p_rank q + k < p_rank p \<Longrightarrow> weigh p_rank ((cp_producers s)[i := q]) + k < weigh p_rank (cp_producers s)"
  using is_at_weigh [of "cp_producers s" i p p_rank q] by linarith

lemma w_rank_moves: "at_w s i p \<Longrightarrow> w_rank q + k < w_rank p + j \<Longrightarrow> weigh w_rank ((cp_workers s)[i := q]) + k < weigh w_rank (cp_workers s) + j"
  using is_at_weigh [of "cp_workers s" i p w_rank q] by linarith

lemma copy_rank_step:
  assumes "copy_step chunkSize faultInject s t" and "copy_inv s" and "0 < chunkSize"
  shows "copy_rank t < copy_rank s"
  using assms(1,2)
proof (induction rule: copy_step.induct)
  case (p_exit s i off bnd)
  then show ?case using p_rank_moves [OF p_exit(1), of PDone 0] by (simp add: copy_rank_def)
next
  case (p_next s i off bnd)
  then show ?case using p_rank_moves [OF p_next(1), of "PReading off bnd" 0] by (simp add: copy_rank_def)
next
  case (p_empty s i off bnd e)
  have "off < bnd" using p_empty is_at_member(1) by (fastforce simp: copy_inv_def copy_reads_def)
  then show ?case using p_rank_moves [OF p_empty(1), of "PLoop e bnd" 0] p_empty(3) assms(3) by (simp add: copy_rank_def)
next
  case (p_content s i off bnd e buf)
  have "off < bnd" using p_content is_at_member(1) by (fastforce simp: copy_inv_def copy_reads_def)
  then show ?case using p_rank_moves [OF p_content(1), of "PSending \<lparr>ct_offset = off, ct_buf = buf\<rparr> e bnd" 0] p_content(3) assms(3)
    by (simp add: copy_rank_def)
next
  case (p_error s i off bnd err)
  have "off < bnd" using p_error is_at_member(1) by (fastforce simp: copy_inv_def copy_reads_def)
  then show ?case using p_rank_moves [OF p_error(1), of "PFailing err" 0] by (simp add: copy_rank_def)
next
  case (p_send s i ct e bnd)
  then show ?case using p_rank_moves [OF p_send(1), of "PLoop e bnd" 3] by (simp add: copy_rank_def)
next
  case (p_report s i err)
  then show ?case using p_rank_moves [OF p_report(1), of PDone 1] by (simp add: copy_rank_def)
next
  case (w_exit s i)
  then show ?case using w_rank_moves [OF w_exit(1), of WDone 0 0] by (simp add: copy_rank_def)
next
  case (w_take s i ct q)
  then show ?case using w_rank_moves [OF w_take(1), of "WWriting ct" 0 3] by (simp add: copy_rank_def)
next
  case (w_write s i ct)
  then show ?case using w_rank_moves [OF w_write(1), of WSelect 0 0] by (simp add: copy_rank_def)
next
  case (w_error s i ct k err)
  then show ?case using w_rank_moves [OF w_error(1), of "WFailing err" 0 0] by (simp add: copy_rank_def)
next
  case (w_report s i err)
  then show ?case using w_rank_moves [OF w_report(1), of WDone 1 0] by (simp add: copy_rank_def)
qed (simp_all add: copy_rank_def)

text \<open>While an error is on its way there is room for it.\<close>

lemma room_for_error:
  assumes "copy_counts s" and "at_p s i (PFailing e) \<or> at_w s i (WFailing e)"
  shows "length (cp_errChan s) < channel_size s"
proof -
  have one: "p_done p \<le> 1" for p by (cases p) auto
  moreover have one': "w_done w \<le> 1" for w by (cases w) auto
  ultimately have bounds: "weigh p_done (cp_producers s) \<le> length (cp_producers s)" "weigh w_done (cp_workers s) \<le> length (cp_workers s)"
    by (auto intro: weigh_bound)
  from assms(2) show ?thesis
  proof
    assume f: "at_p s i (PFailing e)"
    have "weigh p_done ((cp_producers s)[i := PDone]) \<le> length (cp_producers s)"
      using weigh_bound [of "(cp_producers s)[i := PDone]" p_done] one by simp
    then show ?thesis using is_at_weigh [OF f, of p_done PDone] bounds assms(1)
      by (simp add: copy_counts_def channel_size_def)
  next
    assume f: "at_w s i (WFailing e)"
    have "weigh w_done ((cp_workers s)[i := WDone]) \<le> length (cp_workers s)"
      using weigh_bound [of "(cp_workers s)[i := WDone]" w_done] one' by simp
    then show ?thesis using is_at_weigh [OF f, of w_done WDone] bounds assms(1)
      by (simp add: copy_counts_def channel_size_def)
  qed
qed

lemma producer_moves:
  assumes "copy_counts s" and "at_p s i p" and "p \<noteq> PDone" and "\<nexists>ct e bnd. p = PSending ct e bnd"
  shows "\<exists>t. copy_step chunkSize faultInject s t"
proof (cases p)
  case (PLoop off bnd)
  then show ?thesis using assms(2) p_exit [of s i off bnd] p_next [of s i off bnd] not_le by blast
next
  case (PReading off bnd)
  then show ?thesis using assms(2) p_error by blast
next
  case (PFailing e)
  then show ?thesis using assms(1,2) room_for_error p_report by blast
qed (use assms in auto)

lemma worker_moves:
  assumes "copy_counts s" and "at_w s i w" and "w \<noteq> WDone"
    and "w = WSelect \<Longrightarrow> cp_completed s \<or> cp_ioQ_closed s \<or> cp_ioQ s \<noteq> []"
  shows "\<exists>t. copy_step chunkSize faultInject s t"
proof (cases w)
  case WSelect
  then show ?thesis using assms(2,4) w_exit [of s i] w_take [of s i] by (cases "cp_ioQ s") blast+
next
  case (WWriting ct)
  then show ?thesis using assms(2) w_error by blast
next
  case (WFailing e)
  then show ?thesis using assms(1,2) room_for_error w_report by blast
qed (use assms in auto)

lemma copy_progress:
  assumes inv: "copy_inv s" and main: "cp_main s \<noteq> MReturned" and safe: "\<not> copy_panics s"
  shows "\<exists>t. copy_step chunkSize faultInject s t"
proof (rule ccontr)
  assume stuck: "\<not> ?thesis"
  have counts: "copy_counts s" and closing: "copy_closing s" and flags: "copy_flags s" and ended: "copy_ended s"
    using inv by (simp_all add: copy_inv_def)
  have producers: "p = PDone \<or> (\<exists>ct e bnd. p = PSending ct e bnd)" if "p \<in> set (cp_producers s)" for p
    using is_at_member(2) [OF that] producer_moves [OF counts] stuck by blast
  have workers: "w = WDone \<or> w = WSelect \<and> \<not> cp_completed s \<and> \<not> cp_ioQ_closed s \<and> cp_ioQ s = []" if "w \<in> set (cp_workers s)" for w
    using is_at_member(2) [OF that] worker_moves [OF counts] stuck by blast
  have sent: "set (cp_producers s) \<subseteq> {PDone}" if "cp_ioQ s = []"
  proof (rule ccontr)
    assume "\<not> set (cp_producers s) \<subseteq> {PDone}"
    then obtain ct e bnd where "PSending ct e bnd \<in> set (cp_producers s)" using producers by (metis insertI1 subsetI)
    then obtain i where p: "at_p s i (PSending ct e bnd)" using is_at_member(2) by metis
    then have "0 < channel_size s" "\<not> cp_ioQ_closed s" using safe by (auto simp: channel_size_def is_at_def copy_panics_def)
    then show False using p_send [OF p] that stuck by auto
  qed
  have not_select: "cp_main s \<noteq> MSelect" if "cp_completed s" using that stuck m_completed by blast
  have not_record: "cp_main s \<noteq> MRecord e" for e using stuck m_record by blast
  have not_workers: "cp_main s \<noteq> MWorkers" if "cp_workerWG s = 0" using that stuck m_workers by blast
  have not_producers: "cp_ioQ_closed s" if "cp_main s = MProducers" "cp_producerWG s = 0" using that stuck m_producers by blast
  have closer: "cp_closer s \<noteq> CCheck" "cp_closer s = CCloseQ \<Longrightarrow> cp_ioQ_closed s" "cp_closer s = CCloseCompleted \<Longrightarrow> cp_completed s"
    "cp_closer s = CProducers \<Longrightarrow> cp_producerWG s \<noteq> 0" "cp_closer s = CWrites \<Longrightarrow> cp_ioWG s \<noteq> 0"
    using stuck c_check c_closeQ c_closeCompleted c_producers c_writes by blast+
  show False
  proof (cases "cp_completed s")
    case True
    then have "cp_workerWG s = 0" using workers all_done(2) [OF counts] by blast
    then have "cp_main s = MProducers"
      using True main safe not_select not_record not_workers by (cases "cp_main s") (auto simp: copy_panics_def)
    moreover from this have "cp_ioQ s = []" using stuck m_flush by (cases "cp_ioQ s") blast+
    ultimately show False
      using sent all_done(1) [OF counts] not_producers safe by (simp add: copy_panics_def)
  next
    case False
    then have m: "cp_main s = MSelect" using stuck flags not_record m_close
      by (cases "cp_main s") (auto simp: copy_flags_def)
    have e: "cp_errChan s = []" using m stuck m_error by (cases "cp_errChan s") blast+
    have i: "cp_ioError s = None" using m flags by (simp add: copy_flags_def)
    have "\<not> cp_ioQ_closed s" using False m i flags closer by (auto simp: copy_flags_def)
    then have w: "set (cp_workers s) \<subseteq> {WSelect}" using workers ended m e False by (auto simp: copy_ended_def)
    have q: "cp_ioQ s = []"
    proof (cases "cp_workers s")
      case Nil
      then show ?thesis using counts by (auto simp: copy_counts_def)
    qed (use workers w in auto)
    note p = sent [OF q]
    have "weigh p_sending (cp_producers s) = 0" "weigh w_writing (cp_workers s) = 0"
      using p w by (auto simp: weigh_zero)
    then have "cp_producerWG s = 0" "cp_ioWG s = 0"
      using all_done(1) [OF counts] p counts m q by (simp_all add: copy_counts_def)
    then show False using closer \<open>\<not> cp_ioQ_closed s\<close> False flags i
      by (cases "cp_closer s") (auto simp: copy_flags_def)
  qed
qed

definition copy_initial :: "nat \<Rightarrow> copy_state \<Rightarrow> bool" where
  "copy_initial chunkSize s \<longleftrightarrow> 0 < chunkSize \<and> (\<exists>src dst. s = copy_init src dst chunkSize)"

interpretation copy: progressing "copy_initial chunkSize" "copy_step chunkSize faultInject"
  "\<lambda>s. copy_inv s \<and> 0 < chunkSize" "\<lambda>s. cp_main s = MReturned \<or> copy_panics s" copy_rank for chunkSize faultInject
proof unfold_locales
  fix s t
  show "copy_initial chunkSize s \<Longrightarrow> copy_inv s \<and> 0 < chunkSize" by (auto simp: copy_initial_def copy_inv_init)
  show "copy_step chunkSize faultInject s t \<Longrightarrow> copy_inv s \<and> 0 < chunkSize \<Longrightarrow> copy_inv t \<and> 0 < chunkSize"
    using copy_inv_step by blast
  show "copy_step chunkSize faultInject s t \<Longrightarrow> copy_inv s \<and> 0 < chunkSize \<Longrightarrow> copy_rank t < copy_rank s"
    using copy_rank_step by blast
  show "copy_inv s \<and> 0 < chunkSize \<Longrightarrow> \<not> (cp_main s = MReturned \<or> copy_panics s) \<Longrightarrow> \<exists>t. copy_step chunkSize faultInject s t"
    using copy_progress by blast
qed

subsection \<open>What is copied\<close>

text \<open>
  The byte at \<open>b\<close> after a copy: the byte of the source, unless \<open>b\<close> lies in a chunk of zeros, where the destination
  keeps what it had.  Chunks are counted from the start of the range, which is one of \<open>n\<close> equal parts.
\<close>

definition range_size :: "byte list \<Rightarrow> nat \<Rightarrow> nat" where
  "range_size src chunkSize = length src div producerNum (length src) chunkSize"

definition chunk_of :: "nat \<Rightarrow> nat \<Rightarrow> nat \<Rightarrow> nat \<times> nat" where
  "chunk_of respSize chunkSize b =
     (let start = b div respSize * respSize; off = start + (b - start) div chunkSize * chunkSize
      in (off, min (off + chunkSize) (start + respSize)))"

definition cloned_byte :: "byte list \<Rightarrow> byte list \<Rightarrow> nat \<Rightarrow> nat \<Rightarrow> byte" where
  "cloned_byte src dst chunkSize b =
     (if b < length src then
        (let (off, e) = chunk_of (range_size src chunkSize) chunkSize b
         in if emptyBuf (PReadExact src (e - off) off) then dst ! b else src ! b)
      else dst ! b)"

lemma chunk_of_at:
  assumes "off = i * r + k * c" and "off < (i + 1) * r" and "e = min (off + c) ((i + 1) * r)" and "off \<le> b" and "b < e"
  shows "chunk_of r c b = (off, e)"
proof -
  have "i * r \<le> b" "b < i * r + r" using assms by simp_all
  then have "b div r = i" by (intro div_nat_eqI) (simp_all add: mult.commute)
  moreover have "b - i * r = k * c + (b - off)" "b - off < c" using assms by auto
  then have "(b - i * r) div c = k" by (intro div_nat_eqI) (simp_all add: mult.commute)
  ultimately show ?thesis using assms by (simp add: chunk_of_def Let_def add.commute)
qed

definition covers :: "Content \<Rightarrow> nat \<Rightarrow> nat" where
  "covers ct b = of_bool (ct_offset ct \<le> b \<and> b < ct_offset ct + length (ct_buf ct))"

fun p_covers :: "nat \<Rightarrow> producer \<Rightarrow> nat" where
  "p_covers b (PLoop off bnd) = of_bool (off \<le> b \<and> b < bnd)"
| "p_covers b (PReading off bnd) = of_bool (off \<le> b \<and> b < bnd)"
| "p_covers b (PSending ct e bnd) = of_bool (e \<le> b \<and> b < bnd) + covers ct b"
| "p_covers b (PFailing err) = 0"
| "p_covers b PDone = 0"

fun w_covers :: "nat \<Rightarrow> ioWorker \<Rightarrow> nat" where
  "w_covers b (WWriting ct) = covers ct b" | "w_covers b w = 0"

text \<open>How often the byte at \<open>b\<close> is still to be read or written.\<close>

definition todo :: "copy_state \<Rightarrow> nat \<Rightarrow> nat" where
  "todo s b = weigh (p_covers b) (cp_producers s) + weigh (\<lambda>ct. covers ct b) (cp_ioQ s) + weigh (w_covers b) (cp_workers s)"

fun p_shape :: "nat \<Rightarrow> nat \<Rightarrow> nat \<Rightarrow> producer \<Rightarrow> bool" where
  "p_shape r c i (PLoop off bnd) \<longleftrightarrow> bnd = (i + 1) * r \<and> off \<le> bnd \<and> (off = bnd \<or> (\<exists>k. off = i * r + k * c))"
| "p_shape r c i (PReading off bnd) \<longleftrightarrow> bnd = (i + 1) * r \<and> off < bnd \<and> (\<exists>k. off = i * r + k * c)"
| "p_shape r c i (PSending ct e bnd) \<longleftrightarrow> bnd = (i + 1) * r \<and> e \<le> bnd \<and> (e = bnd \<or> (\<exists>k. e = i * r + k * c))"
| "p_shape r c i p \<longleftrightarrow> True"

text \<open>Chunks on the way hold what has to be written.\<close>

definition good :: "(nat \<Rightarrow> byte) \<Rightarrow> Content \<Rightarrow> bool" where
  "good spec ct \<longleftrightarrow> (\<forall>b. covers ct b = 1 \<longrightarrow> ct_buf ct ! (b - ct_offset ct) = spec b)"

definition copy_failed :: "copy_state \<Rightarrow> bool" where
  "copy_failed s \<longleftrightarrow> cp_errChan s \<noteq> [] \<or> cp_ioError s \<noteq> None \<or> (\<exists>e. cp_main s = MRecord e)
     \<or> (\<exists>i e. at_p s i (PFailing e)) \<or> (\<exists>i e. at_w s i (WFailing e))"

definition copy_clean :: "byte list \<Rightarrow> byte list \<Rightarrow> nat \<Rightarrow> copy_state \<Rightarrow> bool" where
  "copy_clean src dst chunkSize s \<longleftrightarrow>
     cp_src s = src \<and> length (cp_dst s) = length dst
   \<and> length (cp_producers s) = producerNum (length src) chunkSize
   \<and> (\<forall>i p. at_p s i p \<longrightarrow> p_shape (range_size src chunkSize) chunkSize i p)
   \<and> (\<forall>i ct e bnd. at_p s i (PSending ct e bnd) \<longrightarrow> good (cloned_byte src dst chunkSize) ct)
   \<and> (\<forall>i ct. at_w s i (WWriting ct) \<longrightarrow> good (cloned_byte src dst chunkSize) ct)
   \<and> (\<forall>ct \<in> set (cp_ioQ s). good (cloned_byte src dst chunkSize) ct)
   \<and> (\<forall>b < length dst. (cp_dst s ! b = dst ! b \<or> cp_dst s ! b = cloned_byte src dst chunkSize b)
        \<and> (0 < todo s b \<or> cp_dst s ! b = cloned_byte src dst chunkSize b))"

lemma PWrite_simps:
  assumes "off + length buf \<le> length dst"
  shows "length (PWrite dst buf off) = length dst"
    and "b < length dst \<Longrightarrow> PWrite dst buf off ! b = (if off \<le> b \<and> b < off + length buf then buf ! (b - off) else dst ! b)"
  using assms by (auto simp: PWrite_def nth_append)

lemma is_at_unique: "is_at xs i x \<Longrightarrow> is_at xs i y \<Longrightarrow> x = y"
  by (simp add: is_at_def)

lemma is_at_length: "is_at xs i x \<Longrightarrow> i < length xs"
  by (simp add: is_at_def)

lemma failing_step:
  assumes "copy_step chunkSize faultInject s t"
  shows "at_p s j (PFailing err) \<Longrightarrow> at_p t j (PFailing err) \<or> cp_errChan t \<noteq> []"
    and "at_w s j (WFailing err) \<Longrightarrow> at_w t j (WFailing err) \<or> cp_errChan t \<noteq> []"
  using assms by (induction rule: copy_step.induct) (auto simp: is_at_update dest: is_at_unique)

lemma error_step:
  assumes "copy_step chunkSize faultInject s t" and "cp_errChan s \<noteq> [] \<or> cp_ioError s \<noteq> None \<or> (\<exists>e. cp_main s = MRecord e)"
  shows "cp_errChan t \<noteq> [] \<or> cp_ioError t \<noteq> None \<or> (\<exists>e. cp_main t = MRecord e)"
  using assms by (induction rule: copy_step.induct) auto

lemma copy_failed_step:
  assumes step: "copy_step chunkSize faultInject s t" and "copy_failed s"
  shows "copy_failed t"
proof -
  consider "cp_errChan s \<noteq> [] \<or> cp_ioError s \<noteq> None \<or> (\<exists>e. cp_main s = MRecord e)"
    | i e where "at_p s i (PFailing e)" | i e where "at_w s i (WFailing e)"
    using assms(2) unfolding copy_failed_def by metis
  then show ?thesis
  proof cases
    case 1
    then show ?thesis using error_step [OF step] by (auto simp: copy_failed_def)
  next
    case 2
    then show ?thesis using failing_step(1) [OF step 2] unfolding copy_failed_def by blast
  next
    case 3
    then show ?thesis using failing_step(2) [OF step 3] unfolding copy_failed_def by blast
  qed
qed

lemma clean_failing:
  "\<not> copy_failed s \<Longrightarrow> cp_errChan s = []" "\<not> copy_failed s \<Longrightarrow> cp_ioError s = None"
  by (simp_all add: copy_failed_def)

lemma read_range:
  assumes "i < n" and "n * r = length src" and "off < (i + 1) * r" and "e = min (off + c) ((i + 1) * r)"
  shows "e \<le> length src" and "PReadExact src (e - off) off = take (e - off) (drop off src)"
proof -
  have "(i + 1) * r \<le> n * r" using assms(1) by (intro mult_right_mono) auto
  then show "e \<le> length src" using assms(2,4) by simp
  then show "PReadExact src (e - off) off = take (e - off) (drop off src)" by (simp add: PReadExact_def Let_def)
qed

lemma cleanD:
  assumes "copy_clean src dst c s"
  shows "at_p s i p \<Longrightarrow> p_shape (range_size src c) c i p" "at_p s i (PSending ct e bnd) \<Longrightarrow> good (cloned_byte src dst c) ct"
    and "at_w s i (WWriting ct) \<Longrightarrow> good (cloned_byte src dst c) ct"
    and "cp_src s = src" "length (cp_producers s) = producerNum (length src) c" "length (cp_dst s) = length dst"
    and "ct \<in> set (cp_ioQ s) \<Longrightarrow> good (cloned_byte src dst c) ct"
  using assms unfolding copy_clean_def by blast+

lemma read_chunk:
  assumes clean: "copy_clean src dst c s" and "at_p s i (PReading off bnd)" and e: "e = min (off + c) bnd"
    and "0 < c" and div: "producerNum (length src) c dvd length src"
  shows "bnd = (i + 1) * range_size src c" "off < e" "e \<le> bnd" "e \<le> length src"
    and "e = bnd \<or> (\<exists>k. e = i * range_size src c + k * c)"
    and "PReadExact (cp_src s) (e - off) off = take (e - off) (drop off src)"
    and "off \<le> b \<Longrightarrow> b < e \<Longrightarrow>
      cloned_byte src dst c b = (if emptyBuf (PReadExact (cp_src s) (e - off) off) then dst ! b else src ! b)"
proof -
  let ?r = "range_size src c"
  note src = cleanD(4) [OF clean] and n = cleanD(5) [OF clean]
  have "p_shape ?r c i (PReading off bnd)" by (rule cleanD(1) [OF clean assms(2)])
  then obtain k where k: "bnd = (i + 1) * ?r" "off < bnd" "off = i * ?r + k * c" by auto
  then show "bnd = (i + 1) * ?r" "off < e" "e \<le> bnd" using e assms(4) by simp_all
  have e': "e = min (off + c) ((i + 1) * ?r)" "off < (i + 1) * ?r" using e k by simp_all
  have "producerNum (length src) c * ?r = length src" using div by (simp add: range_size_def)
  then show le: "e \<le> length src" and "PReadExact (cp_src s) (e - off) off = take (e - off) (drop off src)"
    using read_range [OF _ _ e'(2,1)] is_at_length [OF assms(2)] n src by auto
  have "off + c = i * ?r + (k + 1) * c" using k by simp
  then show "e = bnd \<or> (\<exists>k. e = i * ?r + k * c)" using e by (metis min_def)
  assume b: "off \<le> b" "b < e"
  have "chunk_of ?r c b = (off, e)" by (rule chunk_of_at [OF k(3) e'(2,1) b])
  then show "cloned_byte src dst c b = (if emptyBuf (PReadExact (cp_src s) (e - off) off) then dst ! b else src ! b)"
    using le b src by (simp add: cloned_byte_def)
qed

text \<open>A step of a producer and a step of a worker that keep what they have to.\<close>

lemma clean_producer:
  assumes clean: "copy_clean src dst c s" and at: "at_p s i p" and shape: "p_shape (range_size src c) c i q"
    and sent: "\<And>ct e bnd. q = PSending ct e bnd \<Longrightarrow> good (cloned_byte src dst c) ct"
    and t: "cp_producers t = (cp_producers s)[i := q]" "cp_workers t = cp_workers s" "cp_src t = cp_src s" "cp_dst t = cp_dst s"
    and queue: "\<And>ct. ct \<in> set (cp_ioQ t) \<Longrightarrow> ct \<in> set (cp_ioQ s) \<or> good (cloned_byte src dst c) ct"
    and todo: "\<And>b. b < length dst \<Longrightarrow> todo t b = todo s b \<or> cp_dst s ! b = cloned_byte src dst c b"
  shows "copy_clean src dst c t"
  unfolding copy_clean_def
proof (intro conjI allI impI ballI)
  show "p_shape (range_size src c) c j p" if "at_p t j p" for j p
    using that cleanD(1) [OF clean, of j p] shape unfolding t is_at_update by (auto split: if_splits)
  show "good (cloned_byte src dst c) ct" if "at_p t j (PSending ct e bnd)" for j ct e bnd
    using that cleanD(2) [OF clean, of j ct e bnd] sent unfolding t is_at_update by (auto split: if_splits)
  show "good (cloned_byte src dst c) ct" if "at_w t j (WWriting ct)" for j ct
    using that cleanD(3) [OF clean] t by simp
  show "good (cloned_byte src dst c) ct" if "ct \<in> set (cp_ioQ t)" for ct
    using that queue cleanD(7) [OF clean] by blast
  fix b assume "b < length dst"
  with clean todo [OF this] t show "cp_dst t ! b = dst ! b \<or> cp_dst t ! b = cloned_byte src dst c b"
    "0 < todo t b \<or> cp_dst t ! b = cloned_byte src dst c b" unfolding copy_clean_def by metis+
qed (use cleanD(4-6) [OF clean] t in simp_all)

lemma clean_worker:
  assumes clean: "copy_clean src dst c s" and at: "at_w s i w"
    and writes: "\<And>ct. v = WWriting ct \<Longrightarrow> good (cloned_byte src dst c) ct"
    and t: "cp_workers t = (cp_workers s)[i := v]" "cp_producers t = cp_producers s" "cp_src t = cp_src s"
      "length (cp_dst t) = length dst" "set (cp_ioQ t) \<subseteq> set (cp_ioQ s)"
    and todo: "\<And>b. b < length dst \<Longrightarrow> cp_dst t ! b = cp_dst s ! b \<and> todo t b = todo s b \<or> cp_dst t ! b = cloned_byte src dst c b"
  shows "copy_clean src dst c t"
  unfolding copy_clean_def
proof (intro conjI allI impI ballI)
  show "good (cloned_byte src dst c) ct" if "at_w t j (WWriting ct)" for j ct
    using that cleanD(3) [OF clean, of j ct] writes unfolding t is_at_update by (auto split: if_splits)
  show "p_shape (range_size src c) c j p" if "at_p t j p" for j p using that cleanD(1) [OF clean] t by simp
  show "good (cloned_byte src dst c) ct" if "at_p t j (PSending ct e bnd)" for j ct e bnd using that cleanD(2) [OF clean] t by simp
  show "good (cloned_byte src dst c) ct" if "ct \<in> set (cp_ioQ t)" for ct
    using that t(5) cleanD(7) [OF clean] by blast
  fix b assume "b < length dst"
  with clean todo [OF this] show "cp_dst t ! b = dst ! b \<or> cp_dst t ! b = cloned_byte src dst c b"
    "0 < todo t b \<or> cp_dst t ! b = cloned_byte src dst c b" unfolding copy_clean_def by metis+
qed (use cleanD(4-6) [OF clean] t in simp_all)

lemma copy_clean_step:
  assumes "copy_step chunkSize faultInject s t" and "copy_inv s" and "0 < chunkSize" and "\<not> copy_failed t" "\<not> copy_failed s"
    and "copy_clean src dst chunkSize s" and div: "producerNum (length src) chunkSize dvd length src"
  shows "copy_clean src dst chunkSize t"
  using assms(1,2,4-6)
proof (induction rule: copy_step.induct)
  case (p_exit s i off bnd)
  have "\<not> cp_completed s"
    using p_exit is_at_member(1) [OF p_exit(1)] by (auto simp: copy_failed_def copy_inv_def copy_flags_def copy_closing_def)
  then have none: "\<not> (off \<le> b \<and> b < bnd)" for b using p_exit(2) by auto
  have "todo (goto_p i PDone (s\<lparr>cp_producerWG := cp_producerWG s - 1\<rparr>)) b = todo s b" for b
    using none [of b] is_at_weigh [OF p_exit(1), of "p_covers b" PDone] by (auto simp: todo_def)
  then show ?case by (intro clean_producer [OF p_exit(6,1)]) simp_all
next
  case (p_next s i off bnd)
  have "todo (goto_p i (PReading off bnd) s) b = todo s b" for b
    using is_at_weigh [OF p_next(1), of "p_covers b" "PReading off bnd"] by (simp add: todo_def)
  moreover have "p_shape (range_size src chunkSize) chunkSize i (PLoop off bnd)" using cleanD(1) p_next by blast
  ultimately show ?case using p_next(3) by (intro clean_producer [OF p_next(7,1)]) auto
next
  case (p_empty s i off bnd e)
  note chunk = read_chunk [OF p_empty(8,1,3) assms(3) div]
  have kept: "cp_dst s ! b = cloned_byte src dst chunkSize b" if "off \<le> b" "b < e" "b < length dst" for b
    using chunk(7) [OF that(1,2)] p_empty(4,8) that(3) unfolding copy_clean_def by metis
  have "todo (goto_p i (PLoop e bnd) s) b = todo s b" if "\<not> (off \<le> b \<and> b < e)" for b
    using is_at_weigh [OF p_empty(1), of "p_covers b" "PLoop e bnd"] chunk(2,3) that by (auto simp: todo_def)
  then show ?case using kept chunk(1,3,5) by (intro clean_producer [OF p_empty(8,1)]) auto
next
  case (p_content s i off bnd e buf)
  let ?ct = "\<lparr>ct_offset = off, ct_buf = buf\<rparr>"
  note chunk = read_chunk [OF p_content(9,1,3) assms(3) div]
  have buf: "buf = take (e - off) (drop off src)" "off + length buf = e" using chunk(2,4,6) p_content(4) by simp_all
  have "buf ! (b - off) = src ! b" if "off \<le> b" "b < e" for b
    unfolding buf(1) using that chunk(4) by simp
  then have "good (cloned_byte src dst chunkSize) ?ct"
    using chunk(7) p_content(4,5) buf(2) by (simp add: good_def covers_def)
  moreover have "todo (goto_p i (PSending ?ct e bnd) (s\<lparr>cp_ioWG := cp_ioWG s + 1\<rparr>)) b = todo s b" for b
    using is_at_weigh [OF p_content(1), of "p_covers b" "PSending ?ct e bnd"] chunk(2,3) buf(2)
    by (cases "off \<le> b"; cases "b < e"; cases "b < bnd") (simp_all add: todo_def covers_def)
  ultimately show ?case using chunk(1,3,5) by (intro clean_producer [OF p_content(9,1)]) auto
next
  case (p_send s i ct e bnd)
  have "todo (goto_p i (PLoop e bnd) (s\<lparr>cp_ioQ := cp_ioQ s @ [ct]\<rparr>)) b = todo s b" for b
    using is_at_weigh [OF p_send(1), of "p_covers b" "PLoop e bnd"] by (simp add: todo_def weigh_def)
  moreover have "p_shape (range_size src chunkSize) chunkSize i (PSending ct e bnd)" "good (cloned_byte src dst chunkSize) ct"
    using cleanD(1,2) p_send by blast+
  ultimately show ?case by (intro clean_producer [OF p_send(7,1)]) auto
next
  case (w_exit s i)
  have "todo (goto_w i WDone (s\<lparr>cp_workerWG := cp_workerWG s - 1\<rparr>)) b = todo s b" for b
    using is_at_weigh [OF w_exit(1), of "w_covers b" "WDone"] by (simp add: todo_def)
  then show ?case using cleanD(6) [OF w_exit(6)] by (intro clean_worker [OF w_exit(6,1)]) auto
next
  case (w_take s i ct q)
  have "todo (goto_w i (WWriting ct) (s\<lparr>cp_ioQ := q\<rparr>)) b = todo s b" for b
    using is_at_weigh [OF w_take(1), of "w_covers b" "WWriting ct"] w_take(2) by (simp add: todo_def weigh_def)
  moreover have "good (cloned_byte src dst chunkSize) ct" using w_take(2,6) by (simp add: copy_clean_def)
  ultimately show ?case using cleanD(6) [OF w_take(6)] w_take(2) by (intro clean_worker [OF w_take(6,1)]) auto
next
  case (w_write s i ct)
  let ?t = "goto_w i WSelect (s\<lparr>cp_dst := PWrite (cp_dst s) (ct_buf ct) (ct_offset ct), cp_ioWG := cp_ioWG s - 1\<rparr>)"
  have good: "good (cloned_byte src dst chunkSize) ct" using cleanD(3) w_write by blast
  note len = cleanD(6) [OF w_write(7)]
  have "cp_dst ?t ! b = cp_dst s ! b \<and> todo ?t b = todo s b \<or> cp_dst ?t ! b = cloned_byte src dst chunkSize b"
    if "b < length dst" for b
  proof (cases "ct_offset ct \<le> b \<and> b < ct_offset ct + length (ct_buf ct)")
    case True
    then have "ct_buf ct ! (b - ct_offset ct) = cloned_byte src dst chunkSize b" using good by (simp add: good_def covers_def)
    then show ?thesis using True that PWrite_simps(2) [OF w_write(3), of b] len by simp
  next
    case False
    then show ?thesis using that PWrite_simps(2) [OF w_write(3), of b] len is_at_weigh [OF w_write(1), of "w_covers b" WSelect]
      by (auto simp: covers_def todo_def)
  qed
  then show ?case using PWrite_simps(1) [OF w_write(3)] len by (intro clean_worker [OF w_write(7,1)]) auto
next
  case (p_report s i err)
  then show ?case by (simp add: copy_failed_def)
next
  case (w_report s i err)
  then show ?case by (simp add: copy_failed_def)
next
  case (p_error s i off bnd err)
  have "copy_failed (goto_p i (PFailing err) s)"
    using is_at_length [OF p_error(1)] by (auto simp: copy_failed_def is_at_def intro!: exI [of _ i])
  then show ?case using p_error by blast
next
  case (w_error s i ct k err)
  have "at_w (goto_w i (WFailing err) s) i (WFailing err)" using is_at_length [OF w_error(1)] by (simp add: is_at_def)
  then have "copy_failed (goto_w i (WFailing err) (s\<lparr>cp_dst := PWrite (cp_dst s) (take k (ct_buf ct)) (ct_offset ct),
      cp_ioWG := cp_ioWG s - 1\<rparr>))"
    unfolding copy_failed_def by auto
  then show ?case using w_error by blast
next
  case (m_flush s ct q)
  then show ?case by (auto simp: copy_failed_def copy_inv_def copy_flags_def)
qed (auto simp: copy_clean_def todo_def)

subsection \<open>The result of a copy\<close>

lemma copy_range_even: "n dvd srcSize \<Longrightarrow> copy_range srcSize n i = (i * (srcSize div n), (i + 1) * (srcSize div n))"
  by (simp add: copy_range_def Let_def)

lemma init_producer:
  assumes "i < producerNum (length src) c" and "producerNum (length src) c dvd length src"
  shows "at_p (copy_init src dst c) i (PLoop (i * range_size src c) ((i + 1) * range_size src c))"
  using assms by (simp add: is_at_def copy_init_def Let_def copy_ranges_def copy_range_even range_size_def)

lemma copy_clean_init:
  assumes "0 < c" and div: "producerNum (length src) c dvd length src"
  shows "copy_clean src dst c (copy_init src dst c)"
proof -
  let ?s = "copy_init src dst c" and ?r = "range_size src c" and ?n = "producerNum (length src) c"
  have shape: "p_shape ?r c i p \<and> (\<nexists>ct e bnd. p = PSending ct e bnd)" if "at_p ?s i p" for i p
  proof -
    have "i < ?n" using is_at_length [OF that] by (simp add: init_goroutines)
    from is_at_unique [OF that init_producer [OF this div]] show ?thesis by (auto intro: exI [of _ 0])
  qed
  have "0 < todo ?s b" if "b < length src" for b
  proof -
    have n: "?n * ?r = length src" using div by (simp add: range_size_def)
    then have r: "0 < ?r" using that by (cases "?r = 0") auto
    have "b < ?n * ?r" using n that by simp
    then have i: "b div ?r < ?n" by (simp add: less_mult_imp_div_less)
    have "p_covers b (PLoop (b div ?r * ?r) ((b div ?r + 1) * ?r)) \<le> weigh (p_covers b) (cp_producers ?s)"
      by (intro weigh_member is_at_member(1) [OF init_producer [OF i div]])
    moreover have "b div ?r * ?r \<le> b" "b < (b div ?r + 1) * ?r"
      using r dividend_less_div_times [of ?r b] by (simp_all add: div_times_less_eq_dividend add.commute)
    ultimately show ?thesis by (simp add: todo_def)
  qed
  then have "0 < todo ?s b \<or> dst ! b = cloned_byte src dst c b" for b by (cases "b < length src") (simp_all add: cloned_byte_def)
  moreover have "cp_src ?s = src" "cp_dst ?s = dst" "cp_ioQ ?s = []" by (simp_all add: copy_init_def Let_def)
  moreover have "\<not> at_p ?s i (PSending ct e bnd)" for i ct e bnd using shape by blast
  moreover have "\<not> at_w ?s i (WWriting ct)" for i ct using is_at_member(1) init_goroutines(2) by fastforce
  ultimately show ?thesis unfolding copy_clean_def using shape init_goroutines(3) by simp
qed

interpretation copying: invariant_of "\<lambda>s. 0 < c \<and> producerNum (length src) c dvd length src \<and> s = copy_init src dst c"
  "copy_step c faultInject"
  "\<lambda>s. 0 < c \<and> producerNum (length src) c dvd length src \<and> copy_inv s \<and> (copy_failed s \<or> copy_clean src dst c s)"
  for c src dst faultInject
proof unfold_locales
  fix s t
  show "0 < c \<and> producerNum (length src) c dvd length src \<and> s = copy_init src dst c \<Longrightarrow>
      0 < c \<and> producerNum (length src) c dvd length src \<and> copy_inv s \<and> (copy_failed s \<or> copy_clean src dst c s)"
    using copy_inv_init copy_clean_init by blast
  assume "copy_step c faultInject s t"
    and "0 < c \<and> producerNum (length src) c dvd length src \<and> copy_inv s \<and> (copy_failed s \<or> copy_clean src dst c s)"
  then show "0 < c \<and> producerNum (length src) c dvd length src \<and> copy_inv t \<and> (copy_failed t \<or> copy_clean src dst c t)"
    using copy_inv_step copy_failed_step copy_clean_step by metis
qed

lemma returned_clean:
  assumes "copy_inv s" and "cp_main s = MReturned" "cp_ioError s = None" "cp_errChan s = []"
  shows "\<not> copy_failed s" and "todo s b = 0"
proof -
  have w: "set (cp_workers s) \<subseteq> {WDone}" using assms by (simp add: copy_inv_def copy_ended_def)
  have "cp_closer s = CDone" using assms by (auto simp: copy_inv_def copy_flags_def)
  then have p: "set (cp_producers s) \<subseteq> {PDone}" "cp_ioQ s = []" using assms by (auto simp: copy_inv_def copy_closing_def)
  show "\<not> copy_failed s" using w p assms by (auto simp: copy_failed_def dest: is_at_member(1))
  have "weigh (p_covers b) (cp_producers s) = 0" "weigh (w_covers b) (cp_workers s) = 0"
    unfolding weigh_zero using p w by auto
  then show "todo s b = 0" using p(2) by (simp add: todo_def weigh_def)
qed

lemma chunk_of_bounds:
  assumes "0 < r" and "0 < c" and "chunk_of r c b = (off, e)"
  shows "off \<le> b" and "b < e"
proof -
  let ?s = "b div r * r"
  have s: "?s \<le> b" "b < ?s + r" using assms(1) dividend_less_div_times [of r b] by (simp_all add: div_times_less_eq_dividend)
  have "?s + (b - ?s) div c * c \<le> ?s + (b - ?s)" by (rule add_left_mono) (rule div_times_less_eq_dividend)
  then show "off \<le> b" using assms(3) s by (simp add: chunk_of_def Let_def)
  have "b - ?s < (b - ?s) div c * c + c" using dividend_less_div_times [OF assms(2)] by (simp add: add.commute)
  then show "b < e" using assms(3) s by (auto simp: chunk_of_def Let_def)
qed

text \<open>A byte of the destination is the one of the source, or both are zeros of the source kept out.\<close>

lemma cloned_byte_cases:
  assumes "0 < c" and "b < length src" and div: "producerNum (length src) c dvd length src"
  shows "cloned_byte src dst c b = src ! b \<or> src ! b = 0 \<and> cloned_byte src dst c b = dst ! b"
proof -
  obtain off e where oe: "chunk_of (range_size src c) c b = (off, e)" by (rule prod.exhaust)
  have "producerNum (length src) c * range_size src c = length src" using div by (simp add: range_size_def)
  then have "0 < range_size src c" using assms(2) by (cases "range_size src c = 0") auto
  note bounds = chunk_of_bounds [OF this assms(1) oe]
  have "src ! b = 0" if "emptyBuf (PReadExact src (e - off) off)"
  proof -
    have "take (e - off) (drop off src) ! (b - off) \<in> set (take (e - off) (drop off src))"
      using bounds assms(2) by (intro nth_mem) auto
    then show ?thesis using that bounds assms(2) by (simp add: emptyBuf_def PReadExact_def Let_def list_all_iff)
  qed
  then show ?thesis using assms(2) oe by (simp add: cloned_byte_def)
qed

text \<open>
  The ranges are equal parts whenever the size is a multiple of a chunk that eight parts divide, as the
  sizes of logical volumes are with the chunks of four mebibytes that the provisioner uses.
\<close>

lemma volume_ranges:
  assumes "c dvd srcSize" and "8 dvd c"
  shows "producerNum srcSize c dvd srcSize"
proof (cases "srcSize div c < 8")
  case True
  then have "producerNum srcSize c = srcSize div c" using assms(1) by (simp add: producerNum_def Let_def maxProducerNum_def)
  then show ?thesis using assms(1) by (metis dvd_div_mult_self dvd_triv_left)
next
  case False
  then have "producerNum srcSize c = 8" using assms(1) by (simp add: producerNum_def Let_def maxProducerNum_def)
  then show ?thesis using assms by (metis dvd_trans)
qed

text \<open>
  C21 (the copy): let the number of producers divide the size of the source, as it does for volumes of
  whole default chunks (\<open>default_ranges\<close>; for other sizes bytes can be left uncopied, \<open>ranges_uneven\<close>),
  and let the destination be at least as long.  When \<open>Copy\<close> then returns without an error and no error was
  left behind in its channel, every byte of the destination is as in the source, except that chunks of
  zeros were not written: there the destination has what it had before.  A destination that reads as
  zeros is then equal to the source on its size, and nothing behind the size of the source is touched.
\<close>

theorem copy_transfers:
  assumes "(copy_step c faultInject)\<^sup>*\<^sup>* (copy_init src dst c) s"
    and "0 < c" and "producerNum (length src) c dvd length src" and "length src \<le> length dst"
    and "cp_main s = MReturned" and "cp_ioError s = None" and "cp_errChan s = []"
  shows "length (cp_dst s) = length dst \<and> (\<forall>b < length dst. cp_dst s ! b = cloned_byte src dst c b)
    \<and> drop (length src) (cp_dst s) = drop (length src) dst
    \<and> (emptyBuf dst \<longrightarrow> take (length src) (cp_dst s) = src)"
proof -
  have inv: "copy_inv s" "copy_failed s \<or> copy_clean src dst c s"
    using copying.steps_I [OF assms(1), of src dst] copying.I_init [of c src] assms(2,3) by blast+
  then have "copy_clean src dst c s" "todo s b = 0" for b using returned_clean [OF inv(1) assms(5-7)] by blast+
  then have dst: "length (cp_dst s) = length dst" "\<forall>b < length dst. cp_dst s ! b = cloned_byte src dst c b"
    by (auto simp: copy_clean_def)
  moreover have "drop (length src) (cp_dst s) = drop (length src) dst"
    using dst assms(4) by (intro nth_equalityI) (simp_all add: cloned_byte_def)
  moreover have "take (length src) (cp_dst s) = src" if "emptyBuf dst"
  proof (rule nth_equalityI)
    fix b assume b: "b < length (take (length src) (cp_dst s))"
    then have "dst ! b = 0" using that dst assms(4) by (simp add: emptyBuf_def list_all_length)
    then show "take (length src) (cp_dst s) ! b = src ! b"
      using b dst assms(4) cloned_byte_cases [OF assms(2) _ assms(3), of b dst] by auto
  qed (use dst assms(4) in simp)
  ultimately show ?thesis by blast
qed

text \<open>What the provisioner asks for: the default chunk size passes the checks, and a volume of whole chunks divides evenly.\<close>

lemma default_plan:
  "copy_plan (Inr srcSize) DefaultChunkSize = Inr (copy_ranges srcSize (producerNum srcSize DefaultChunkSize))"
  by (simp add: copy_plan_def copy_constants)

lemma default_ranges: "DefaultChunkSize dvd srcSize \<Longrightarrow> producerNum srcSize DefaultChunkSize dvd srcSize"
  by (erule volume_ranges) (simp add: DefaultChunkSize_def)

text \<open>
  C22 (the copy ends): from every reachable state the copy either returns or runs into the panic of a goroutine that
  closes or uses a closed channel; it never deadlocks, and the number of its steps is bounded.
\<close>

theorem copy_ends:
  assumes "(copy_step c faultInject)\<^sup>*\<^sup>* (copy_init src dst c) s" and "0 < c"
  shows "(cp_main s = MReturned \<or> copy_panics s \<or> (\<exists>t. copy_step c faultInject s t))
    \<and> (\<exists>t. (copy_step c faultInject)\<^sup>*\<^sup>* s t \<and> (cp_main t = MReturned \<or> copy_panics t))
    \<and> (\<forall>n t. (copy_step c faultInject ^^ n) s t \<longrightarrow> n \<le> copy_rank s)"
proof -
  have inv: "copy_inv s \<and> 0 < c" using copy.steps_I [OF assms(1)] copy_inv_init assms(2) by blast
  have "n \<le> copy_rank s" if "(copy_step c faultInject ^^ n) s t" for n t
    using copy.runs_bounded [OF that inv] by simp
  then show ?thesis using copy.progress [OF inv] copy.reaches_final [OF inv] by blast
qed

subsection \<open>Runs on one chunk\<close>

text \<open>A source of one chunk, with one producer and one worker.\<close>

definition run_x :: "byte list \<Rightarrow> byte list \<Rightarrow> Content list \<Rightarrow> goerr list \<Rightarrow> nat \<Rightarrow> check \<Rightarrow> bool \<Rightarrow> bool
    \<Rightarrow> producer \<Rightarrow> ioWorker \<Rightarrow> closer \<Rightarrow> caller \<Rightarrow> copy_state" where
  "run_x src dst q errs io ioError qc completed p w cl m =
     \<lparr>cp_src = src, cp_dst = dst, cp_ioQ = q, cp_ioQ_closed = qc, cp_completed = completed, cp_errChan = errs,
      cp_ioWG = io, cp_producerWG = p_live p, cp_workerWG = w_live w, cp_ioError = ioError,
      cp_producers = [p], cp_workers = [w], cp_closer = cl, cp_main = m\<rparr>"

lemma run_x_init: "copy_init [x] dst 1 = run_x [x] dst [] [] 0 None False False (PLoop 0 1) WSelect CProducers MSelect"
  by (simp add: copy_init_def run_x_def producerNum_def copy_ranges_def copy_range_def Let_def maxProducerNum_def)

lemma is_at_single: "is_at [x] i y \<longleftrightarrow> i = 0 \<and> x = y"
  by (auto simp: is_at_def)

lemmas run_x_simps = run_x_def is_at_single channel_size_def PReadExact_def emptyBuf_def PWrite_def

abbreviation chunk_x :: Content where
  "chunk_x \<equiv> \<lparr>ct_offset = 0, ct_buf = [1]\<rparr>"

text \<open>The steps that every run takes until the chunk is taken from the queue and the producer is done.\<close>

lemma run_x_read:
  "(copy_step 1 False)\<^sup>*\<^sup>* (copy_init [1] [0] 1)
     (run_x [1] [0] [] [] 1 None False False PDone (WWriting chunk_x) CWrites MSelect)"
proof -
  let ?s = "\<lambda>q io p w cl. run_x [1] [0] q [] io None False False p w cl MSelect"
  have 1: "copy_step 1 False (?s [] 0 (PLoop 0 1) WSelect CProducers) (?s [] 0 (PReading 0 1) WSelect CProducers)"
    using p_next [of "?s [] 0 (PLoop 0 1) WSelect CProducers" 0 0 1 1 False] by (simp add: run_x_simps)
  have 2: "copy_step 1 False (?s [] 0 (PReading 0 1) WSelect CProducers) (?s [] 1 (PSending chunk_x 1 1) WSelect CProducers)"
    using p_content [of "?s [] 0 (PReading 0 1) WSelect CProducers" 0 0 1 False 1 1 "[1]"] by (simp add: run_x_simps)
  have 3: "copy_step 1 False (?s [] 1 (PSending chunk_x 1 1) WSelect CProducers) (?s [chunk_x] 1 (PLoop 1 1) WSelect CProducers)"
    using p_send [of "?s [] 1 (PSending chunk_x 1 1) WSelect CProducers" 0 chunk_x 1 1 1 False] by (simp add: run_x_simps)
  have 4: "copy_step 1 False (?s [chunk_x] 1 (PLoop 1 1) WSelect CProducers) (?s [] 1 (PLoop 1 1) (WWriting chunk_x) CProducers)"
    using w_take [of "?s [chunk_x] 1 (PLoop 1 1) WSelect CProducers" 0 chunk_x "[]" 1 False] by (simp add: run_x_simps)
  have 5: "copy_step 1 False (?s [] 1 (PLoop 1 1) (WWriting chunk_x) CProducers) (?s [] 1 PDone (WWriting chunk_x) CProducers)"
    using p_exit [of "?s [] 1 (PLoop 1 1) (WWriting chunk_x) CProducers" 0 1 1 1 False] by (simp add: run_x_simps)
  have 6: "copy_step 1 False (?s [] 1 PDone (WWriting chunk_x) CProducers) (?s [] 1 PDone (WWriting chunk_x) CWrites)"
    using c_producers [of "?s [] 1 PDone (WWriting chunk_x) CProducers" 1 False] by (simp add: run_x_simps)
  show ?thesis unfolding run_x_init by (meson 1 2 3 4 5 6 converse_rtranclp_into_rtranclp rtranclp.rtrancl_refl)
qed

text \<open>The steps of the goroutine that closes the channels, when every write has been counted.\<close>

lemma run_x_close:
  "(copy_step 1 False)\<^sup>*\<^sup>* (run_x src dst [] [] 0 None False False PDone w CWrites MSelect)
     (run_x src dst [] [] 0 None True False PDone w CCloseCompleted MSelect)"
  "copy_step 1 False (run_x src dst [] [] 0 None True False PDone w CCloseCompleted MSelect)
     (run_x src dst [] [] 0 None True True PDone w CDone MSelect)"
  "copy_step 1 False (run_x src dst [] [] 0 None True True PDone w CDone MSelect)
     (run_x src dst [] [] 0 None True True PDone w CDone MWorkers)"
proof -
  let ?s = "\<lambda>qc completed cl m. run_x src dst [] [] 0 None qc completed PDone w cl m"
  have 1: "copy_step 1 False (?s False False CWrites MSelect) (?s False False CCheck MSelect)"
    using c_writes [of "?s False False CWrites MSelect" 1 False] by (simp add: run_x_simps)
  have 2: "copy_step 1 False (?s False False CCheck MSelect) (?s False False CCloseQ MSelect)"
    using c_check [of "?s False False CCheck MSelect" 1 False] by (simp add: run_x_simps)
  have 3: "copy_step 1 False (?s False False CCloseQ MSelect) (?s True False CCloseCompleted MSelect)"
    using c_closeQ [of "?s False False CCloseQ MSelect" 1 False] by (simp add: run_x_simps)
  show "(copy_step 1 False)\<^sup>*\<^sup>* (?s False False CWrites MSelect) (?s True False CCloseCompleted MSelect)"
    by (meson 1 2 3 converse_rtranclp_into_rtranclp rtranclp.rtrancl_refl)
  show "copy_step 1 False (?s True False CCloseCompleted MSelect) (?s True True CDone MSelect)"
    using c_closeCompleted [of "?s True False CCloseCompleted MSelect" 1 False] by (simp add: run_x_simps)
  show "copy_step 1 False (?s True True CDone MSelect) (?s True True CDone MWorkers)"
    using m_completed [of "?s True True CDone MSelect" 1 False] by (simp add: run_x_simps)
qed

text \<open>A run without an error.\<close>

lemma run_x_returns:
  "(copy_step 1 False)\<^sup>*\<^sup>* (copy_init [1] [0] 1) (run_x [1] [1] [] [] 0 None True True PDone WDone CDone MReturned)"
proof -
  have 1: "copy_step 1 False (run_x [1] [0] [] [] 1 None False False PDone (WWriting chunk_x) CWrites MSelect)
      (run_x [1] [1] [] [] 0 None False False PDone WSelect CWrites MSelect)"
    using w_write [of "run_x [1] [0] [] [] 1 None False False PDone (WWriting chunk_x) CWrites MSelect" 0 chunk_x False 1]
    by (simp add: run_x_simps)
  have 2: "copy_step 1 False (run_x [1] [1] [] [] 0 None True True PDone WSelect CDone MWorkers)
      (run_x [1] [1] [] [] 0 None True True PDone WDone CDone MWorkers)"
    using w_exit [of "run_x [1] [1] [] [] 0 None True True PDone WSelect CDone MWorkers" 0 1 False] by (simp add: run_x_simps)
  have 3: "copy_step 1 False (run_x [1] [1] [] [] 0 None True True PDone WDone CDone MWorkers)
      (run_x [1] [1] [] [] 0 None True True PDone WDone CDone MReturned)"
    using m_workers [of "run_x [1] [1] [] [] 0 None True True PDone WDone CDone MWorkers" 1 False] by (simp add: run_x_simps)
  show ?thesis using run_x_read 1 run_x_close 2 3 by (meson rtranclp.rtrancl_into_rtrancl rtranclp_trans)
qed

text \<open>
  A write that fails is counted before its error is sent, so the channels can be closed in between: the
  copy then returns without an error, and the error is left in its channel.
\<close>

lemma write_error_lost:
  "\<exists>s. (copy_step 1 False)\<^sup>*\<^sup>* (copy_init [1] [0] 1) s \<and> cp_main s = MReturned \<and> cp_ioError s = None
     \<and> cp_dst s = [0] \<and> cp_src s = [1]"
proof -
  let ?e = "msg ''error writing data''"
  have 1: "copy_step 1 False (run_x [1] [0] [] [] 1 None False False PDone (WWriting chunk_x) CWrites MSelect)
      (run_x [1] [0] [] [] 0 None False False PDone (WFailing ?e) CWrites MSelect)"
    using w_error [of "run_x [1] [0] [] [] 1 None False False PDone (WWriting chunk_x) CWrites MSelect" 0 chunk_x 0 1 False ?e]
    by (simp add: run_x_simps)
  have 2: "copy_step 1 False (run_x [1] [0] [] [] 0 None True True PDone (WFailing ?e) CDone MWorkers)
      (run_x [1] [0] [] [?e] 0 None True True PDone WDone CDone MWorkers)"
    using w_report [of "run_x [1] [0] [] [] 0 None True True PDone (WFailing ?e) CDone MWorkers" 0 ?e 1 False]
    by (simp add: run_x_simps)
  have 3: "copy_step 1 False (run_x [1] [0] [] [?e] 0 None True True PDone WDone CDone MWorkers)
      (run_x [1] [0] [] [?e] 0 None True True PDone WDone CDone MReturned)"
    using m_workers [of "run_x [1] [0] [] [?e] 0 None True True PDone WDone CDone MWorkers" 1 False] by (simp add: run_x_simps)
  have "(copy_step 1 False)\<^sup>*\<^sup>* (copy_init [1] [0] 1) (run_x [1] [0] [] [?e] 0 None True True PDone WDone CDone MReturned)"
    using run_x_read 1 run_x_close 2 3 by (meson rtranclp.rtrancl_into_rtrancl rtranclp_trans)
  then show ?thesis by (intro exI conjI, assumption) (simp_all add: run_x_def)
qed

text \<open>Or the caller receives the error after the check for it, and both close the channel.\<close>

lemma close_twice: "\<exists>s. (copy_step 1 False)\<^sup>*\<^sup>* (copy_init [1] [0] 1) s \<and> copy_panics s"
proof -
  let ?e = "msg ''error writing data''"
  let ?s = "\<lambda>errs ioError completed w m. run_x [1] [0] [] errs 0 ioError True completed PDone w CCloseCompleted m"
  have 1: "copy_step 1 False (run_x [1] [0] [] [] 1 None False False PDone (WWriting chunk_x) CWrites MSelect)
      (run_x [1] [0] [] [] 0 None False False PDone (WFailing ?e) CWrites MSelect)"
    using w_error [of "run_x [1] [0] [] [] 1 None False False PDone (WWriting chunk_x) CWrites MSelect" 0 chunk_x 0 1 False ?e]
    by (simp add: run_x_simps)
  have 2: "copy_step 1 False (?s [] None False (WFailing ?e) MSelect) (?s [?e] None False WDone MSelect)"
    using w_report [of "?s [] None False (WFailing ?e) MSelect" 0 ?e 1 False] by (simp add: run_x_simps)
  have 3: "copy_step 1 False (?s [?e] None False WDone MSelect) (?s [] None False WDone (MRecord ?e))"
    using m_error [of "?s [?e] None False WDone MSelect" ?e "[]" 1 False] by (simp add: run_x_simps)
  have 4: "copy_step 1 False (?s [] None False WDone (MRecord ?e)) (?s [] (Some ?e) False WDone MCloseCompleted)"
    using m_record [of "?s [] None False WDone (MRecord ?e)" ?e 1 False] by (simp add: run_x_simps)
  have 5: "copy_step 1 False (?s [] (Some ?e) False WDone MCloseCompleted) (?s [] (Some ?e) True WDone MWorkers)"
    using m_close [of "?s [] (Some ?e) False WDone MCloseCompleted" 1 False] by (simp add: run_x_simps)
  have "(copy_step 1 False)\<^sup>*\<^sup>* (copy_init [1] [0] 1) (?s [] (Some ?e) True WDone MWorkers)"
    using run_x_read 1 run_x_close(1) 2 3 4 5 by (meson rtranclp.rtrancl_into_rtrancl rtranclp_trans)
  then show ?thesis by (intro exI conjI, assumption) (simp add: copy_panics_def run_x_def)
qed

theorem copy_transfers_witness:
  "\<exists>s. (copy_step 1 False)\<^sup>*\<^sup>* (copy_init [1] [0] 1) s \<and> cp_main s = MReturned \<and> cp_dst s ! 0 = cloned_byte [1] [0] 1 0"
proof -
  let ?s = "run_x [1] [1] [] [] 0 None True True PDone WDone CDone MReturned"
  have "cp_dst ?s ! 0 = cloned_byte [1] [0] 1 0"
    using copy_transfers [OF run_x_returns] by (simp add: run_x_def producerNum_def Let_def maxProducerNum_def)
  moreover have "cp_main ?s = MReturned" by (simp add: run_x_def)
  ultimately show ?thesis using run_x_returns by blast
qed

theorem copy_ends_witness:
  "\<exists>t. (copy_step 1 False)\<^sup>*\<^sup>* (copy_init [1] [0] 1) t \<and> (cp_main t = MReturned \<or> copy_panics t)"
  using copy_ends [of 1 False "[1]" "[0]" "copy_init [1] [0] 1"] by simp

text \<open>What is in the destination before shows through: a source of zeros leaves it as it is.\<close>

lemma zeros_not_copied: "cloned_byte [0] [7] 1 0 = 7"
  by (simp add: cloned_byte_def chunk_of_def PReadExact_def emptyBuf_def range_size_def producerNum_def Let_def maxProducerNum_def)

text \<open>With a size that is no multiple of the number of producers the last range starts too late and ends too late.\<close>

lemma ranges_uneven: "copy_ranges 10001 (producerNum 10001 4096) = [(0, 3333), (3333, 6666), (6670, 10005)]"
  by (simp add: copy_ranges_def producerNum_def copy_range_def maxProducerNum_def Let_def upt_rec)

end
