(* ===== verification/Spec2Isabelle.thy ===== *)
theory Spec2Isabelle
  imports Cluster Admission Webhook_Process Grpc_Server Device_Copy
begin

text \<open>
  \<^bold>\<open>The program.\<close>  The Harvester LVM CSI driver provides node-local Kubernetes volumes on LVM.  It
  has four parts that meet in a few narrow places.

  \<^item> The \<^emph>\<open>controller\<close> (\<open>pkg/lvm/controllerserver.go\<close>) answers the CSI calls that create and delete
    volumes and snapshots.  It never runs LVM: it validates the request (\<open>validation.go\<close>), finds
    node, volume group and type in storage class parameters or in the persistent volume, and runs
    one \<^emph>\<open>helper pod\<close> on the node that owns the volume group (\<open>helper_pod.go\<close>, \<open>helper_config.go\<close>).
    The location of a dynamic snapshot is kept in an immutable ConfigMap.
  \<^item> The \<^emph>\<open>provisioner\<close> (\<open>cmd/provisioner\<close>) is the program of the helper pod: its arguments name one
    of five commands, which run the LVM tools through \<open>lvm.go\<close>.
  \<^item> The \<^emph>\<open>node service\<close> (\<open>nodeserver.go\<close>) publishes, expands and measures volumes on its node, with
    the mount and volume operations of \<open>lvm.go\<close>.
  \<^item> The \<^emph>\<open>webhook\<close> (\<open>pkg/webhook/storageclass/validator.go\<close>, \<open>cmd/webhook/main.go\<close>) admits storage classes.

  The controller and the node service are one process (\<open>main.go\<close>, \<open>server.go\<close>), which serves both over gRPC.

  \<^bold>\<open>The theories\<close>, in the order of their imports; definitions keep the names of the source, with a
  suffix where HOL or another part of the driver has the name (\<open>validate_config\<close> and
  \<open>validate_location\<close> are the two \<open>validate\<close> methods, \<open>CreateSnapshot_handler\<close> is the CSI method and
  \<open>CreateSnapshot\<close> the operation of \<open>lvm.go\<close>).

  \<^item> \<open>Prelude\<close>: Go errors as a datatype, results, first-error scans, state-passing programs with the
    preconditions \<open>wp\<close>, the locales \<open>validator\<close>, \<open>invariant_of\<close> and \<open>progressing\<close> (a rank that every step lowers).
  \<^item> \<open>Go_Text\<close>, \<open>Go_Format\<close>, \<open>Json_Text\<close>: what the driver uses of \<open>strings\<close>, \<open>strconv\<close>, \<open>time\<close>, \<open>filepath\<close> and
    \<open>encoding/json\<close>, with round trips and bounds.
  \<^item> \<open>Host\<close>: the command executors and their timeouts over the host parameter, with the log of what was run.
  \<^item> \<open>Mounts\<close>: the first half of \<open>lvm.go\<close>.  A volume with a signature is never formatted; a read-only bind
    mount is made read-only or reported and unmounted; an unmount escalates from plain to forced to lazy.
  \<^item> \<open>Volumes\<close>: the second half of \<open>lvm.go\<close>.  The rollback of a thin pool removes only a half-made pool,
    an extension never shrinks, a thin pool is removed only when it is empty, the removal of a
    snapshot addresses the volume its creation made.  The locale \<open>lv_removal\<close> is the contract that the
    removal of a volume and the removal of a snapshot share.
  \<^item> \<open>Validation\<close>: \<open>validation.go\<close>.  An accepted volume group name is one path component and no option; the
    validators are equivalent to their specifications; metadata written on creation is read back.
  \<^item> \<open>Node_Server\<close>: \<open>nodeserver.go\<close>, composed from the three theories above; the statistics are computed on
    64-bit words and shown to be exact.
  \<^item> \<open>Provisioner\<close>: \<open>cmd/provisioner\<close>, the table of commands with their flags and actions.  A clone reports
    success only after the copy was synchronised.
  \<^item> \<open>Inventory\<close>: the logical volumes of a node as a map, the documented effect of each LVM command on it (the
    locale \<open>lvm_tools\<close>), the abstract specifications of the five commands and of an expansion, and the proof
    that the operations of \<open>lvm.go\<close> meet them, on success and on every failure.
  \<^item> \<open>Lvm_Simulator\<close>: an executable LVM on lists of volumes, the interpretation of \<open>lvm_tools\<close>.
  \<^item> \<open>Command_Line\<close>: from the arguments a helper is given to the command and the values it gets.
  \<^item> \<open>Node_Contract\<close>: the runs of the provisioner and of \<open>NodeExpandVolume\<close> refine their specifications: nothing
    but the volume asked for changes, success means that it has the size and type asked for or is gone,
    and a snapshot that is taken and deleted leaves the inventory as it was.
  \<^item> \<open>Device_Copy\<close>: \<open>io.Copy\<close> of \<open>go-common\<close>, which copies a device for a clone, as the transition system of its
    goroutines, channels and wait groups: it ends without a deadlock, and when no I/O failed the
    destination is the source except for its chunks of zeros.
  \<^item> \<open>Kube\<close>: pods, ConfigMaps and the other objects the controller reads, the API over an arbitrary
    cluster, and the contexts of requests.
  \<^item> \<open>Helper_Pod\<close>: configuration, construction of the pod, admission, reuse and retirement of pods, and
    the loop that waits.  Every write is a creation or deletion of the one pod of the action; success is
    reported only for a pod that was read as succeeded; the loop ends, and ends well when the pod does.
  \<^item> \<open>Admission\<close>: the requests that run concurrently under \<open>helperAdmissionMu\<close> as the step relation
    \<open>adm_step\<close>, of the labelled steps of a request (\<open>adm_call\<close>) and the changes of the cluster (\<open>pods_env\<close>),
    with the limit of active helpers as its invariant.  The locale \<open>pod_server\<close> states how an API server keeps
    pods while the cluster changes them between the calls; on every such server \<open>ensureHelper\<close> refines
    these steps, on all its branches, and its writes are theirs.
  \<^item> \<open>Snapshot_Location\<close>: the record of a snapshot's node and volume group.  The locale \<open>config_maps\<close> states
    the documented behaviour of ConfigMaps, \<open>location_store\<close> the write-once map the controller relies on; the
    \<open>sublocale\<close> shows that the operations of the driver give the second from the first.
  \<^item> \<open>Controller\<close>: the rest of \<open>controllerserver.go\<close>, every handler with all its branches.  Errors carry a gRPC
    code, or are the one API error of a pod that could not be created; no pod but that of the action is
    written; the location is recorded before the helper and forgotten after it; a clone never starts from
    a source of another node or one that is recorded as larger.
  \<^item> \<open>Cluster\<close>: controller, helper pod, provisioner and LVM together.  The locale \<open>helper_cluster\<close> states what
    Kubernetes contributes: a pod that is read as succeeded has run its command line on its node to the end.
    Then a reported creation, clone, deletion or snapshot has happened on the node of the volume; a
    clone has a source that was found on that node, and the run that made it has copied the source's
    device onto the new volume, unless it is a thin snapshot of the source.  The interpretation is a cluster that runs the model of the provisioner on the LVM of \<open>Lvm_Simulator\<close>.
  \<^item> \<open>Webhook\<close>: \<open>validator.go\<close>, and the storage classes of a cluster as a transition system.
  \<^item> \<open>Webhook_Process\<close>: \<open>cmd/webhook/main.go\<close>, its flags, options and the server with its one validator.
  \<^item> \<open>Driver\<close>: \<open>identityserver.go\<close>, the start of the driver, endpoints (\<open>server.go\<close>) and the use of the flags of
    the main program.
  \<^item> \<open>Grpc_Server\<close>: the rest of \<open>server.go\<close> and \<open>main\<close>: the log of the calls, the registered services, and the
    process with its wait group as a transition system, which serves until it is ended.
  \<^item> \<open>Spec2Isabelle\<close>: the properties that span components, from the arguments the controller builds to
    the commands of the provisioner, and from the creation of a volume to its deletion.

  \<^bold>\<open>Parameters.\<close>  The LVM tools, mounts, files and devices are the record \<open>host\<close>; the Kubernetes API, the
  clock and the digest are the record \<open>kube\<close>; the command line library is \<open>cli_context\<close>; \<open>unix.Statfs\<close> is an
  argument.  Their worlds are arbitrary types, and what a theorem needs of them is a named
  hypothesis (\<open>lvs_reports\<close>: the report decodes to the volumes of the host; \<open>parsed\<close>: a flag returns the value
  given to it; \<open>lvm_tools\<close>: LVM changes the inventory as its manuals say; \<open>helper_cluster\<close>: pods run what
  they are given, another client does not replace the pod that is waited for (\<open>stable\<close>),
  \<open>DeepDerivative\<close> compares specifications as its source does (\<open>derivative\<close>), a pod that derives from the
  driver's is its own and has no longer command (\<open>own\<close>), a persistent volume is read under its own name
  (\<open>named\<close>); \<open>pod_server\<close>: an API server keeps the pods it is given, and a creation that reports an error
  other than a taken name has taken effect when it returns or never does).  Each is satisfied by a
  concrete instance in the witnesses (\<open>quiet_host\<close> on lists of logical volumes, \<open>sim_host\<close>, \<open>block_host\<close>, \<open>cluster_kube\<close>,
  \<open>slow_kube\<close>, \<open>live_kube\<close>, \<open>context_of\<close>).

  \<^bold>\<open>Loops and numbers.\<close>  Scans over lists are structural.  The loop of \<open>waitForHelper\<close> runs until the
  context ends; the context ends after \<open>c_polls\<close> polls, which is any number, so no bound is chosen
  and termination is a theorem.  Sizes are \<open>int\<close> or \<open>nat\<close> with the 64-bit limits checked where strings are
  parsed, and words where the source computes with them.

  The copy of a device runs for any number of bytes; its rank bounds its steps.

  \<^bold>\<open>Not modelled.\<close>  The libraries: \<open>grpc.Server\<close> itself, the parsing of command lines and of the flags of \<open>klog\<close>,
  the clients and the server of the webhook (certificates, TLS), of which the factories, the registration
  and the start are parameters.  Log messages other than those of \<open>logGRPC\<close>; the rendering of error texts, which
  the driver does not inspect except for those of commands; charts, scripts and tests.  For the commands of the provisioner the copy
  of a device is one operation of the host that may fail; what it copies is the subject of \<open>Device_Copy\<close>
  alone, and \<open>Cluster\<close> says of a clone that the volume is there and that its source was copied onto it, not
  what it contains.  Chunk sizes are natural numbers; the driver copies with the default one.  A creation of a pod
  that takes effect only after its caller has given up is not among the steps of \<open>Admission\<close>.  The transition system of
  the storage classes is sequential; two classes that are checked at the same time can conflict
  (\<open>Webhook_Process\<close>).
\<close>

section \<open>From the controller to the provisioner\<close>

text \<open>
  Volume helpers: the arguments of every volume helper name a command of the provisioner and only
  flags this command declares, with values of their kinds; and whenever the command line library
  reads them, the command gets exactly the name, volume groups, types and size of the action.
\<close>

lemma volume_helper_reaches_command:
  assumes "volumeHelperArgs a = Inr args" and "0 \<le> va_size a" and "va_size a \<le> int max_uint64"
  shows "\<exists>rest. args = cmd_name (volume_command H a) # rest \<and> volume_command H a \<in> set (commands H)
    \<and> (\<exists>c. parsed (cmd_flags (volume_command H a)) c rest)
    \<and> (\<forall>c. parsed (cmd_flags (volume_command H a)) c rest \<longrightarrow> same_volume a c)"
proof -
  note size = ParseUint_show_int [OF assms(2,3)]
  have "args = cmd_name (volume_command H a) # tl args \<and> volume_command H a \<in> set (commands H)
      \<and> (\<exists>c. parsed (cmd_flags (volume_command H a)) c (tl args))"
    using assms(1)
  proof (cases rule: volume_args_cases)
    case create
    have "parsed (cmd_flags (createLVCmd H)) (context_of [(flagLVName, va_name a), (flagVGName, va_vgName a), (flagLVMType, va_lvmType a)]
        (nat (va_size a)) 0) (tl args)"
      unfolding create(2) by (simp add: command_tables flag_names size)
    then show ?thesis using create by (auto simp: volume_command_def command_members)
  next
    case (delete i)
    have "parsed (cmd_flags (deleteLVCmd H)) (context_of [(flagLVName, va_name a), (flagSrcVGName, srcVGName i), (flagSrcType, srcType i)] 0 0) (tl args)"
      unfolding delete(3) by (simp add: command_tables flag_names)
    then show ?thesis using delete by (auto simp: volume_command_def command_members)
  next
    case (clone i)
    have "parsed (cmd_flags (cloneLVCmd H)) (context_of [(flagLVName, va_name a), (flagVGName, va_vgName a), (flagLVMType, va_lvmType a),
        (flagSrcVGName, srcVGName i), (flagSrcType, srcType i), (flagSrcLVName, srcLVName i)] (nat (va_size a)) 0) (tl args)"
      unfolding clone(3) by (simp add: command_tables flag_names size)
    then show ?thesis using clone by (auto simp: volume_command_def command_members)
  qed
  moreover have "same_volume a c" if "args = cmd_name (volume_command H a) # tl args" "volume_command H a \<in> set (commands H)"
      "parsed (cmd_flags (volume_command H a)) c (tl args)" for c
    using volume_args_reach [OF assms that(2) _ that(3), of "[]"] that(1) by simp
  ultimately show ?thesis by blast
qed

text \<open>
  Snapshot helpers: the same for the helpers of snapshots.
\<close>

lemma snapshot_helper_reaches_command:
  assumes "snapshotHelperArgs a = Inr args" and "- int (max_int64 + 1) \<le> sa_snapSize a" and "sa_snapSize a \<le> int max_int64"
  shows "\<exists>rest. args = cmd_name (snapshot_command H a) # rest \<and> snapshot_command H a \<in> set (commands H)
    \<and> (\<exists>c. parsed (cmd_flags (snapshot_command H a)) c rest)
    \<and> (\<forall>c. parsed (cmd_flags (snapshot_command H a)) c rest \<longrightarrow> same_snapshot a c)"
proof -
  note size = ParseInt_show_int [OF assms(2,3)]
  have "args = cmd_name (snapshot_command H a) # tl args \<and> snapshot_command H a \<in> set (commands H)
      \<and> (\<exists>c. parsed (cmd_flags (snapshot_command H a)) c (tl args))"
    using assms(1)
  proof (cases rule: snapshot_args_cases)
    case create
    have "parsed (cmd_flags (createSnapCmd H)) (context_of [(flagSnapName, sa_snapshotName a), (flagLVName, sa_srcVolName a),
        (flagVGName, sa_vgName a), (flagLVMType, sa_lvType a)] 0 (sa_snapSize a)) (tl args)"
      unfolding create(2) by (simp add: command_tables flag_names size)
    then show ?thesis using create by (auto simp: snapshot_command_def command_members)
  next
    case delete
    have "parsed (cmd_flags (deleteSnapCmd H)) (context_of [(flagSnapName, sa_snapshotName a), (flagVGName, sa_vgName a)] 0 0) (tl args)"
      unfolding delete(2) by (simp add: command_tables flag_names)
    then show ?thesis using delete by (auto simp: snapshot_command_def command_members)
  qed
  moreover have "same_snapshot a c" if "args = cmd_name (snapshot_command H a) # tl args" "snapshot_command H a \<in> set (commands H)"
      "parsed (cmd_flags (snapshot_command H a)) c (tl args)" for c
    using snapshot_args_reach [OF assms that(2) _ that(3), of "[]"] that(1) by simp
  ultimately show ?thesis by blast
qed


section \<open>The life of a volume\<close>

lemma delete_args:
  assumes "volID \<noteq> ''''" and "node \<noteq> ''''"
  shows "volumeHelperArgs (newDeleteVolumeAction cs volID node vg lvmType) =
    Inr [''deletelv'', ''--srcvgname'', vg, ''--srctype'', lvmType, ''--lvname'', volID]"
  using assms by (simp add: volumeHelperArgs_def newDeleteVolumeAction_def action_types)



text \<open>
  A deletion on the node: when the command line of the helper that deletes a volume is read by the
  provisioner, the command it names runs no LVM command other than listings and the removal of
  exactly this volume, and of the thin pool of its group only for a thin volume.
\<close>

lemma deletion_helper_removes_only:
  assumes "volID \<noteq> ''''" and "node \<noteq> ''''"
    and "volumeHelperArgs (newDeleteVolumeAction cs volID node vg lvmType) = Inr (cmd_name (deleteLVCmd H) # rest)"
    and "parsed (cmd_flags (deleteLVCmd H)) c rest"
  shows "logs (\<lambda>e. ran ''lvs'' e \<or> ran ''lvremove'' e
        \<and> (ev_args e = [''-q'', ''-y'', lv_ref vg volID]
           \<or> lvmType = DmThinType \<and> ev_args e = [''-q'', ''-y'', lv_ref vg (thin_pool_name vg)]))
      s (snd (run_state (cmd_action (deleteLVCmd H) c) s))"
proof -
  have "rest = [''--srcvgname'', vg, ''--srctype'', lvmType, ''--lvname'', volID]"
    using assms(3) delete_args [OF assms(1,2), of cs vg lvmType] by simp
  then have "c_String c flagSrcVGName = vg" "c_String c flagSrcType = lvmType" "c_String c flagLVName = volID"
    using assms(4) by (simp_all add: command_tables flag_names)
  then show ?thesis using keepsD' [OF deleteLV_ops [of c H], of s] by (simp add: delete_only_def [abs_def] deleteLVCmd_def)
qed

lemma deletion_helper_removes_only_example:
  "logs (\<lambda>e. ran ''lvs'' e \<or> ran ''lvremove'' e
        \<and> (ev_args e = [''-q'', ''-y'', lv_ref ''vg'' ''pvc-1'']
           \<or> ''striped'' = DmThinType \<and> ev_args e = [''-q'', ''-y'', lv_ref ''vg'' (thin_pool_name ''vg'')]))
      (start ()) (snd (run_state (cmd_action (deleteLVCmd (quiet_host node_exec))
        (context_of [(''srcvgname'', ''vg''), (''srctype'', ''striped''), (''lvname'', ''pvc-1'')] 0 0)) (start ())))"
proof -
  let ?c = "context_of [(''srcvgname'', ''vg''), (''srctype'', ''striped''), (''lvname'', ''pvc-1'')] 0 0"
  let ?r = "[''--srcvgname'', ''vg'', ''--srctype'', ''striped'', ''--lvname'', ''pvc-1'']"
  have a: "volumeHelperArgs (newDeleteVolumeAction server_x ''pvc-1'' ''node1'' ''vg'' ''striped'') =
      Inr (cmd_name (deleteLVCmd (quiet_host node_exec)) # ?r)"
    by (simp add: delete_args command_members)
  have p: "parsed (cmd_flags (deleteLVCmd (quiet_host node_exec))) ?c ?r" by (simp add: command_tables flag_names)
  show ?thesis by (rule deletion_helper_removes_only [OF _ _ a p]) simp_all
qed

end
